(* ===== verification/Identifiers.thy ===== *)
theory Identifiers
  imports Snow_Prelude
begin

text \<open>
  The parse-don't-validate identifier newtypes of \<open>src/models/identifiers.rs\<close>: each
  type wraps a string, and \<open>try_from\<close> is its only constructor. An error value stands for
  the authored message of the source; it keeps the values the message interpolates.
\<close>

datatype identifier_error =
    TableNameEmpty
  | InvalidTableName string
  | ValueEmpty
  | RelativePathSegment string
  | UnsafePathValue string
  | InvalidSysId string
  | UnsafeQueryValue string
  | InvalidSortDirection string string
  | InvalidSortField string

datatype table_name = TableName string
datatype sys_id = SysId string
datatype path_segment = PathSegment string
datatype encoded_query_value = EncodedQueryValue string

definition table_name_as_str :: "table_name \<Rightarrow> string" where
  "table_name_as_str t = (case t of TableName s \<Rightarrow> s)"

definition sys_id_as_str :: "sys_id \<Rightarrow> string" where
  "sys_id_as_str i = (case i of SysId s \<Rightarrow> s)"

definition path_segment_as_str :: "path_segment \<Rightarrow> string" where
  "path_segment_as_str p = (case p of PathSegment s \<Rightarrow> s)"

definition encoded_query_value_as_str :: "encoded_query_value \<Rightarrow> string" where
  "encoded_query_value_as_str v = (case v of EncodedQueryValue s \<Rightarrow> s)"

definition table_name_char :: "char \<Rightarrow> bool" where
  [byte_simps]: "table_name_char ch \<longleftrightarrow> is_ascii_alphanumeric ch \<or> ch = CHR ''_''"

definition table_name_try_from :: "string \<Rightarrow> identifier_error + table_name" where
  "table_name_try_from value =
     (if value = [] then Inl TableNameEmpty
      else if \<not> list_all table_name_char value then Inl (InvalidTableName value)
      else Inr (TableName value))"

text \<open>
  A backslash is byte 92. The characters the code rejects are ASCII, so looking for their
  bytes is looking for the characters.
\<close>

definition path_breaking_char :: "char \<Rightarrow> bool" where
  "path_breaking_char ch \<longleftrightarrow>
     ch = CHR ''/'' \<or> byte_of ch = 92 \<or> ch = CHR ''?'' \<or> ch = CHR ''#''"

definition validate_path_segment_chars :: "string \<Rightarrow> identifier_error + unit" where
  "validate_path_segment_chars value =
     (if value = [] then Inl ValueEmpty
      else if value = ''.'' \<or> value = ''..'' then Inl (RelativePathSegment value)
      else if list_ex path_breaking_char value \<or> has_control value then Inl (UnsafePathValue value)
      else Inr ())"

definition sys_id_try_from :: "string \<Rightarrow> identifier_error + sys_id" where
  "sys_id_try_from value =
     (if length value \<noteq> 32 \<or> \<not> list_all is_ascii_hexdigit value then Inl (InvalidSysId value)
      else Inr (SysId value))"

definition path_segment_try_from :: "string \<Rightarrow> identifier_error + path_segment" where
  "path_segment_try_from value =
     bind_result (validate_path_segment_chars value) (\<lambda>_. Inr (PathSegment value))"

definition query_operator_char :: "char \<Rightarrow> bool" where
  "query_operator_char ch \<longleftrightarrow>
     ch = CHR ''^'' \<or> ch = CHR ''='' \<or> ch = CHR ''<'' \<or> ch = CHR ''>'' \<or> ch = CHR ''!''"

definition encoded_query_value_try_from :: "string \<Rightarrow> identifier_error + encoded_query_value" where
  "encoded_query_value_try_from value =
     (if value = [] then Inl ValueEmpty
      else if list_ex query_operator_char value \<or> has_control value then Inl (UnsafeQueryValue value)
      else Inr (EncodedQueryValue value))"

text \<open>The validity each type's constructor establishes.\<close>

definition valid_table_name :: "table_name \<Rightarrow> bool" where
  "valid_table_name t \<longleftrightarrow> table_name_as_str t \<noteq> [] \<and> list_all table_name_char (table_name_as_str t)"

definition valid_sys_id :: "sys_id \<Rightarrow> bool" where
  "valid_sys_id i \<longleftrightarrow> length (sys_id_as_str i) = 32 \<and> list_all is_ascii_hexdigit (sys_id_as_str i)"

lemmas as_str_defs =
  table_name_as_str_def sys_id_as_str_def path_segment_as_str_def encoded_query_value_as_str_def

lemma table_name_try_from_iff:
  "table_name_try_from s = Inr t \<longleftrightarrow> t = TableName s \<and> valid_table_name t"
  by (auto simp: table_name_try_from_def valid_table_name_def as_str_defs)

lemma sys_id_try_from_iff: "sys_id_try_from s = Inr i \<longleftrightarrow> i = SysId s \<and> valid_sys_id i"
  by (auto simp: sys_id_try_from_def valid_sys_id_def as_str_defs)

text \<open>
  Identifier characters are word characters: printable, neither a path delimiter nor a query
  operator. One fact serves the table names and the record ids.
\<close>

lemma table_name_char_byte: "table_name_char ch \<Longrightarrow> 48 \<le> byte_of ch \<and> byte_of ch < 127"
  by (auto simp: byte_simps byte_of_def)

lemma table_name_char_safe:
  "table_name_char ch \<Longrightarrow> \<not> path_breaking_char ch \<and> \<not> query_operator_char ch \<and> ch \<noteq> CHR ''.''"
  by (auto simp: byte_simps path_breaking_char_def query_operator_char_def byte_of_def)

lemma table_name_char_dot [simp]: "\<not> table_name_char (CHR ''.'')"
  by (simp add: byte_simps byte_of_def)

lemma hexdigit_table_name_char: "is_ascii_hexdigit ch \<Longrightarrow> table_name_char ch"
  by (auto simp: byte_simps)

lemma word_string_no_control: "list_all table_name_char s \<Longrightarrow> \<not> has_control s"
  by (rule has_control_printable) (use table_name_char_byte in \<open>fastforce simp: list_all_iff\<close>)

lemma word_string_path_segment:
  assumes "s \<noteq> []" "list_all table_name_char s"
  shows "path_segment_try_from s = Inr (PathSegment s)"
    and "encoded_query_value_try_from s = Inr (EncodedQueryValue s)"
proof -
  have dots: "s \<noteq> ''.''" "s \<noteq> ''..''"
    using assms(2) by auto
  have "\<not> list_ex path_breaking_char s" "\<not> list_ex query_operator_char s"
    using assms(2) table_name_char_safe by (auto simp: list_all_iff list_ex_iff)
  with dots assms word_string_no_control show
    "path_segment_try_from s = Inr (PathSegment s)"
    "encoded_query_value_try_from s = Inr (EncodedQueryValue s)"
    by (simp_all add: path_segment_try_from_def validate_path_segment_chars_def
        encoded_query_value_try_from_def)
qed

lemma valid_sys_id_word: "valid_sys_id (SysId s) \<Longrightarrow> s \<noteq> [] \<and> list_all table_name_char s"
  by (auto simp: valid_sys_id_def as_str_defs list_all_iff intro: hexdigit_table_name_char)

text \<open>
  The request paths the client formats from them: \<open>/api/now/table/{table}\<close> in
  \<open>src/client/table.rs\<close>, and the same with a record id.
\<close>

definition table_path :: "table_name \<Rightarrow> string" where
  "table_path t = ''/api/now/table/'' @ table_name_as_str t"

text \<open>Path segments of a formatted path, as a URL parser splits them.\<close>

lemma split_path_segments:
  assumes "CHR ''/'' \<notin> set a"
  shows "split_on (CHR ''/'') (''/api/now/table/'' @ a) = ['''', ''api'', ''now'', ''table'', a]"
  using split_on_no_sep [OF assms] by simp

lemma valid_table_name_no_slash:
  "valid_table_name t \<Longrightarrow> CHR ''/'' \<notin> set (table_name_as_str t)"
  using table_name_char_safe
  by (auto simp: valid_table_name_def list_all_iff path_breaking_char_def)

text \<open>
  C24. Every string accepted as a table name or as a sys_id is also accepted as a path segment
  and as an encoded-query value, and a table path built from an accepted table name has
  exactly the segments api, now, table and the name: a validated identifier can neither walk
  the request path nor inject a query operator.
\<close>

theorem validated_identifiers_are_inert:
  assumes "table_name_try_from s = Inr t \<or> sys_id_try_from s = Inr i"
  shows "path_segment_try_from s = Inr (PathSegment s)
    \<and> encoded_query_value_try_from s = Inr (EncodedQueryValue s)
    \<and> split_on (CHR ''/'') (table_path (TableName s)) = ['''', ''api'', ''now'', ''table'', s]"
proof -
  have w: "s \<noteq> [] \<and> list_all table_name_char s"
    using assms
    by (auto simp: table_name_try_from_iff sys_id_try_from_iff valid_table_name_def as_str_defs
        dest: valid_sys_id_word)
  then have "valid_table_name (TableName s)"
    by (simp add: valid_table_name_def as_str_defs)
  from split_path_segments [OF valid_table_name_no_slash [OF this]]
  have "split_on (CHR ''/'') (table_path (TableName s)) = ['''', ''api'', ''now'', ''table'', s]"
    by (simp only: table_path_def as_str_defs table_name.case)
  with w word_string_path_segment [of s] show ?thesis by blast
qed

theorem validated_identifiers_are_inert_witness:
  "path_segment_try_from ''sys_user'' = Inr (PathSegment ''sys_user'')"
proof -
  have "table_name_try_from ''sys_user'' = Inr (TableName ''sys_user'')" by code_simp
  then show ?thesis
    using validated_identifiers_are_inert [of "''sys_user''" "TableName ''sys_user''" "SysId ''''"]
    by blast
qed

end
