(* ===== verification/Order_By.thy ===== *)
theory Order_By
  imports Identifiers
begin

text \<open>
  The sort specification of \<open>src/models/order_by.rs\<close>: \<open>parse_key\<close> and \<open>from_str\<close> parse
  a comma-separated spec, \<open>to_string\<close> is its \<open>Display\<close>, \<open>to_encoded_query\<close> renders the
  \<open>ORDERBY\<close> clauses the Table API reads. Two spellings of an ascending key collide with the
  clause keywords, so the round trips carry a side condition and the collisions are proved.
\<close>

datatype sort_direction = Asc | Desc

record sort_key =
  key_field :: string
  key_direction :: sort_direction

datatype order_by = OrderBy "sort_key list"

definition render_clause :: "sort_key \<Rightarrow> string" where
  "render_clause key = (case key_direction key of
      Asc \<Rightarrow> ''ORDERBY'' @ key_field key
    | Desc \<Rightarrow> ''ORDERBYDESC'' @ key_field key)"

fun to_encoded_query :: "order_by \<Rightarrow> string" where
  "to_encoded_query (OrderBy ks) = join ''^'' (map render_clause ks)"

definition apply_to_query :: "order_by \<Rightarrow> string option \<Rightarrow> string" where
  "apply_to_query ob query =
     (let clauses = to_encoded_query ob in
      case map_option (\<lambda>q. trim_end_matches (CHR ''^'') (trim q)) query of
        Some q \<Rightarrow> if q \<noteq> [] then q @ ''^'' @ clauses else clauses
      | None \<Rightarrow> clauses)"

definition split_direction :: "string \<Rightarrow> identifier_error + (string \<times> sort_direction)" where
  "split_direction item = (case strip_prefix ''ORDERBYDESC'' item of
      Some field \<Rightarrow> Inr (field, Desc)
    | None \<Rightarrow> (case strip_prefix ''ORDERBY'' item of
        Some field \<Rightarrow> Inr (field, Asc)
      | None \<Rightarrow> (case strip_prefix ''-'' item of
          Some field \<Rightarrow> Inr (field, Desc)
        | None \<Rightarrow> (case rsplit_once (CHR '':'') item of
            Some (field, dir) \<Rightarrow>
              (if to_ascii_lowercase dir = ''asc'' then Inr (field, Asc)
               else if to_ascii_lowercase dir = ''desc'' then Inr (field, Desc)
               else Inl (InvalidSortDirection dir item))
          | None \<Rightarrow> Inr (item, Asc)))))"

definition sort_field_char :: "char \<Rightarrow> bool" where
  "sort_field_char ch \<longleftrightarrow> is_ascii_alphanumeric ch \<or> ch = CHR ''_'' \<or> ch = CHR ''.''"

definition valid_sort_field :: "string \<Rightarrow> bool" where
  "valid_sort_field field \<longleftrightarrow>
     \<not> (field = [] \<or> \<not> list_all sort_field_char field
        \<or> starts_with field ''.'' \<or> ends_with field ''.'' \<or> str_contains field ''..'')"

definition parse_key :: "string \<Rightarrow> identifier_error + sort_key" where
  "parse_key item = bind_result (split_direction item) (\<lambda>(field, direction).
     if \<not> valid_sort_field field then Inl (InvalidSortField item)
     else Inr \<lparr>key_field = field, key_direction = direction\<rparr>)"

definition order_by_from_str :: "string \<Rightarrow> identifier_error + order_by" where
  "order_by_from_str value =
     bind_result (collect_results (map parse_key (map trim (split_on (CHR '','') value))))
       (\<lambda>keys. Inr (OrderBy keys))"

definition show_key :: "sort_key \<Rightarrow> string" where
  "show_key key = (if key_direction key = Desc then ''-'' else []) @ key_field key"

fun order_by_to_string :: "order_by \<Rightarrow> string" where
  "order_by_to_string (OrderBy ks) = join '','' (map show_key ks)"

subsection \<open>Well-formed specifications\<close>

fun wf_order_by :: "order_by \<Rightarrow> bool" where
  "wf_order_by (OrderBy ks) \<longleftrightarrow> ks \<noteq> [] \<and> list_all (\<lambda>k. valid_sort_field (key_field k)) ks"

text \<open>The ascending keys whose canonical spelling would be read as a clause keyword.\<close>

definition spelled_as_clause :: "sort_key \<Rightarrow> bool" where
  "spelled_as_clause k \<longleftrightarrow> key_direction k = Asc \<and> starts_with (key_field k) ''ORDERBY''"

definition rendered_as_desc :: "sort_key \<Rightarrow> bool" where
  "rendered_as_desc k \<longleftrightarrow> key_direction k = Asc \<and> starts_with (key_field k) ''DESC''"

lemma sort_field_char_byte: "sort_field_char c \<Longrightarrow> 33 \<le> byte_of c \<and> byte_of c < 128"
  by (auto simp: sort_field_char_def byte_simps byte_of_def)

lemma valid_sort_field_char: "valid_sort_field f \<Longrightarrow> c \<in> set f \<Longrightarrow> sort_field_char c"
  by (simp add: valid_sort_field_def list_all_iff)

lemma sort_field_char_simps [simp]:
  "\<not> sort_field_char (CHR '','')" "\<not> sort_field_char (CHR '':'')"
  "\<not> sort_field_char (CHR ''-'')" "\<not> sort_field_char (CHR ''^'')"
  by (simp_all add: sort_field_char_def byte_simps byte_of_def)

lemma valid_sort_field_free:
  assumes "valid_sort_field f"
  shows "CHR '','' \<notin> set f" "CHR '':'' \<notin> set f" "CHR ''-'' \<notin> set f" "CHR ''^'' \<notin> set f"
  using assms valid_sort_field_char sort_field_char_simps by metis+

lemma show_key_bytes:
  assumes "valid_sort_field (key_field k)" "c \<in> set (show_key k)"
  shows "33 \<le> byte_of c \<and> byte_of c < 128 \<and> c \<noteq> CHR '',''"
proof (cases "c \<in> set (key_field k)")
  case True
  with assms(1) show ?thesis
    using sort_field_char_byte valid_sort_field_char valid_sort_field_free(1) by blast
next
  case False
  with assms(2) show ?thesis
    by (auto simp: show_key_def byte_of_def split: if_splits)
qed

lemma no_dash_prefix: "CHR ''-'' \<notin> set f \<Longrightarrow> strip_prefix ''-'' f = None"
  by (cases f) (auto simp: strip_prefix_None_iff)

lemma parse_show_key:
  assumes "valid_sort_field (key_field k)" "\<not> spelled_as_clause k"
  shows "parse_key (show_key k) = Inr k"
proof (cases "key_direction k")
  case Asc
  have none: "strip_prefix ''ORDERBY'' (key_field k) = None"
    using Asc assms(2) by (simp add: spelled_as_clause_def strip_prefix_None_iff)
  then have "strip_prefix ''ORDERBYDESC'' (key_field k) = None"
    by (cases "key_field k") (auto simp: strip_prefix_None_iff prefix_def)
  with Asc none have "split_direction (show_key k) = Inr (key_field k, Asc)"
    using valid_sort_field_free [OF assms(1)]
    by (simp add: split_direction_def show_key_def no_dash_prefix rsplit_once_def)
  with assms(1) Asc show ?thesis by (simp add: parse_key_def)
next
  case Desc
  then have "show_key k = ''-'' @ key_field k" by (simp add: show_key_def)
  then have "split_direction (show_key k) = Inr (key_field k, Desc)"
    by (simp add: split_direction_def strip_prefix_def)
  with assms(1) Desc show ?thesis by (simp add: parse_key_def)
qed

lemma parse_render_clause:
  assumes "valid_sort_field (key_field k)" "\<not> rendered_as_desc k"
  shows "parse_key (render_clause k) = Inr k"
proof (cases "key_direction k")
  case Asc
  with assms(2) have "\<not> prefix ''DESC'' (key_field k)" by (simp add: rendered_as_desc_def)
  then have "strip_prefix ''ORDERBYDESC'' (''ORDERBY'' @ key_field k) = None"
    by (simp add: strip_prefix_None_iff)
  with Asc have "split_direction (render_clause k) = Inr (key_field k, Asc)"
    by (simp add: split_direction_def render_clause_def strip_prefix_def)
  with assms(1) Asc show ?thesis by (simp add: parse_key_def)
next
  case Desc
  then have "split_direction (render_clause k) = Inr (key_field k, Desc)"
    by (simp add: split_direction_def render_clause_def strip_prefix_def)
  with assms(1) Desc show ?thesis by (simp add: parse_key_def)
qed

lemma order_by_from_str_wf: "order_by_from_str s = Inr ob \<Longrightarrow> wf_order_by ob"
proof -
  assume "order_by_from_str s = Inr ob"
  then obtain ks where ob: "ob = OrderBy ks"
    and ks: "map parse_key (map trim (split_on (CHR '','') s)) = map Inr ks"
    by (auto simp: order_by_from_str_def bind_result_Inr_iff collect_results_Inr_iff)
  have "length ks = length (split_on (CHR '','') s)"
    using arg_cong [OF ks, of length] by simp
  then have "ks \<noteq> []" using split_on_neq_Nil [of "CHR '',''" s] by fastforce
  moreover have "valid_sort_field (key_field k)" if "k \<in> set ks" for k
  proof -
    from that have "Inr k \<in> set (map parse_key (map trim (split_on (CHR '','') s)))"
      unfolding ks by simp
    then obtain item where "parse_key item = Inr k" by auto
    then show ?thesis by (auto simp: parse_key_def bind_result_Inr_iff split: if_splits)
  qed
  ultimately show ?thesis using ob by (simp add: list_all_iff)
qed

text \<open>
  C25. A parsed sort specification prints to a canonical form that parses back to the same
  specification, provided no ascending field begins with the keyword ORDERBY. A parse never
  yields an empty list of keys or a malformed field name.
\<close>

theorem order_by_round_trip:
  assumes "order_by_from_str s = Inr (OrderBy ks)" "\<And>k. k \<in> set ks \<Longrightarrow> \<not> spelled_as_clause k"
  shows "wf_order_by (OrderBy ks) \<and>
    order_by_from_str (order_by_to_string (OrderBy ks)) = Inr (OrderBy ks)"
proof -
  have wf: "wf_order_by (OrderBy ks)" using assms(1) by (rule order_by_from_str_wf)
  then have v: "valid_sort_field (key_field k)" if "k \<in> set ks" for k
    using that by (simp add: list_all_iff)
  have split: "split_on (CHR '','') (join '','' (map show_key ks)) = map show_key ks"
    using wf v show_key_bytes by (intro split_on_join) auto
  have trim: "trim (show_key k) = show_key k" if "k \<in> set ks" for k
    using v [OF that] show_key_bytes by (intro trim_printable) blast
  have "collect_results (map (\<lambda>k. parse_key (trim (show_key k))) ks) = Inr (map id ks)"
    using assms(2) v by (intro collect_results_map_ok) (simp add: trim parse_show_key)
  with wf split show ?thesis by (simp add: order_by_from_str_def o_def)
qed

theorem order_by_round_trip_witness:
  "order_by_from_str (order_by_to_string (OrderBy
     [\<lparr>key_field = ''sys_created_on'', key_direction = Desc\<rparr>,
      \<lparr>key_field = ''number'', key_direction = Asc\<rparr>])) =
   Inr (OrderBy [\<lparr>key_field = ''sys_created_on'', key_direction = Desc\<rparr>,
                 \<lparr>key_field = ''number'', key_direction = Asc\<rparr>])"
proof -
  let ?ks = "[\<lparr>key_field = ''sys_created_on'', key_direction = Desc\<rparr>,
              \<lparr>key_field = ''number'', key_direction = Asc\<rparr>]"
  have "order_by_from_str ''-sys_created_on, number:asc'' = Inr (OrderBy ?ks)" by code_simp
  moreover have "\<not> spelled_as_clause k" if "k \<in> set ?ks" for k
    using that by (auto simp: spelled_as_clause_def)
  ultimately show ?thesis using order_by_round_trip by blast
qed

text \<open>
  The canonical form does not parse back for every specification the parser accepts:
  the spec \<open>ORDERBYORDERBYnumber\<close> is accepted as the ascending field \<open>ORDERBYnumber\<close>, whose
  canonical form is read as the ascending field \<open>number\<close>; and the ascending field
  \<open>DESCRIPTION\<close> is rendered as the clause the parser reads as \<open>RIPTION\<close>, descending.
\<close>

theorem order_by_keyword_collisions:
  "order_by_from_str ''ORDERBYORDERBYnumber'' =
     Inr (OrderBy [\<lparr>key_field = ''ORDERBYnumber'', key_direction = Asc\<rparr>])
   \<and> order_by_from_str (order_by_to_string
       (OrderBy [\<lparr>key_field = ''ORDERBYnumber'', key_direction = Asc\<rparr>])) =
     Inr (OrderBy [\<lparr>key_field = ''number'', key_direction = Asc\<rparr>])
   \<and> order_by_from_str ''DESCRIPTION'' =
     Inr (OrderBy [\<lparr>key_field = ''DESCRIPTION'', key_direction = Asc\<rparr>])
   \<and> parse_key (to_encoded_query (OrderBy [\<lparr>key_field = ''DESCRIPTION'', key_direction = Asc\<rparr>])) =
     Inr \<lparr>key_field = ''RIPTION'', key_direction = Desc\<rparr>"
  by code_simp

text \<open>
  The clauses sent to the Table API decode to the keys of the specification, in order:
  splitting the rendered query at its separators and reading each clause gives back every
  key, provided no ascending field begins with DESC.
\<close>

theorem encoded_query_decodes:
  assumes "wf_order_by (OrderBy ks)" "\<And>k. k \<in> set ks \<Longrightarrow> \<not> rendered_as_desc k"
  shows "collect_results (map parse_key (split_on (CHR ''^'') (to_encoded_query (OrderBy ks)))) = Inr ks"
proof -
  have v: "valid_sort_field (key_field k)" if "k \<in> set ks" for k
    using assms(1) that by (simp add: list_all_iff)
  have "CHR ''^'' \<notin> set (render_clause k)" if "k \<in> set ks" for k
    using valid_sort_field_free(4) [OF v [OF that]]
    by (auto simp: render_clause_def split: sort_direction.splits)
  then have "split_on (CHR ''^'') (join ''^'' (map render_clause ks)) = map render_clause ks"
    using assms(1) by (intro split_on_join) auto
  moreover have "collect_results (map (\<lambda>k. parse_key (render_clause k)) ks) = Inr (map id ks)"
    using assms(2) v by (intro collect_results_map_ok) (simp add: parse_render_clause)
  ultimately show ?thesis by (simp add: o_def)
qed

theorem encoded_query_decodes_witness:
  "collect_results (map parse_key (split_on (CHR ''^'') (to_encoded_query (OrderBy
     [\<lparr>key_field = ''sys_created_on'', key_direction = Desc\<rparr>])))) =
   Inr [\<lparr>key_field = ''sys_created_on'', key_direction = Desc\<rparr>]"
proof -
  let ?ks = "[\<lparr>key_field = ''sys_created_on'', key_direction = Desc\<rparr>]"
  have "wf_order_by (OrderBy ?ks)" by code_simp
  moreover have "\<not> rendered_as_desc k" if "k \<in> set ?ks" for k
    using that by (auto simp: rendered_as_desc_def)
  ultimately show ?thesis using encoded_query_decodes by blast
qed

end
