(* ===== verification/Domain_Filter.thy ===== *)
theory Domain_Filter
  imports Identifiers
begin

text \<open>
  The record-domain selector of \<open>src/models/domain.rs\<close>. \<open>apply_to_query\<close> appends the
  domain condition to every \<open>^NQ\<close> branch of an encoded query. What it promises is stated
  against \<open>query_branches\<close>, the reading of an encoded query its comment relies on: terms are
  separated by \<open>^\<close>, a term starting with NQ opens a new top-level branch and a term starting
  with EQ ends the query.
\<close>

datatype domain_id = Global | Domain sys_id

definition domain_id_from_str :: "string \<Rightarrow> identifier_error + domain_id" where
  "domain_id_from_str value =
     (if value = ''global'' then Inr Global
      else bind_result (sys_id_try_from value) (\<lambda>i. Inr (Domain i)))"

definition domain_id_to_string :: "domain_id \<Rightarrow> string" where
  "domain_id_to_string d = (case d of Global \<Rightarrow> ''global'' | Domain i \<Rightarrow> sys_id_as_str i)"

text \<open>\<open>str::split\<close> on a non-empty pattern: leftmost matches that do not overlap.\<close>

function split_str :: "string \<Rightarrow> string \<Rightarrow> string list" where
  "split_str sep [] = [[]]"
| "split_str sep (x # xs) =
     (if sep \<noteq> [] \<and> prefix sep (x # xs) then [] # split_str sep (drop (length sep) (x # xs))
      else (case split_str sep xs of [] \<Rightarrow> [[x]] | y # ys \<Rightarrow> (x # y) # ys))"
  by pat_completeness auto
termination
  by (relation "measure (\<lambda>(sep, s). length s)") (auto simp: neq_Nil_conv)

datatype domain_query_error = EmbeddedTerminatorOrLeadingOr

definition domain_term :: "domain_id \<Rightarrow> string" where
  "domain_term d = ''sys_domain='' @ domain_id_to_string d"

definition strip_final_eq :: "string \<Rightarrow> string" where
  "strip_final_eq branch = (case strip_suffix ''^EQ'' branch of Some b \<Rightarrow> b | None \<Rightarrow> branch)"

definition leading_or :: "string \<Rightarrow> bool" where
  "leading_or branch =
     (let first_term = (case find (\<lambda>t. t \<noteq> []) (split_on (CHR ''^'') branch) of
                          Some t \<Rightarrow> t | None \<Rightarrow> [])
      in starts_with first_term ''OR'' \<and> \<not> starts_with first_term ''ORDERBY'')"

definition domain_branch :: "domain_id \<Rightarrow> string \<Rightarrow> domain_query_error + string" where
  "domain_branch d b =
     (let branch = strip_final_eq b in
      if list_ex (\<lambda>t. starts_with t ''EQ'') (split_on (CHR ''^'') branch) \<or> leading_or branch
      then Inl EmbeddedTerminatorOrLeadingOr
      else Inr (if branch = [] then domain_term d else branch @ ''^'' @ domain_term d))"

definition domain_apply_to_query :: "domain_id \<Rightarrow> string option \<Rightarrow> domain_query_error + string" where
  "domain_apply_to_query d query =
     (let q = (case query of Some q \<Rightarrow> q | None \<Rightarrow> []) in
      bind_result (collect_results (map (domain_branch d) (split_str ''^NQ'' q)))
        (\<lambda>branches. Inr (join ''^NQ'' branches)))"

subsection \<open>Reading an encoded query\<close>

fun branch_terms :: "string list \<Rightarrow> string list \<Rightarrow> string list list" where
  "branch_terms cur [] = [cur]"
| "branch_terms cur (t # ts) =
     (if starts_with t ''EQ'' then [cur]
      else if starts_with t ''NQ'' then cur # branch_terms [drop 2 t] ts
      else branch_terms (cur @ [t]) ts)"

definition query_branches :: "string \<Rightarrow> string list list" where
  "query_branches q = (case split_on (CHR ''^'') q of [] \<Rightarrow> [] | t # ts \<Rightarrow> branch_terms [t] ts)"

definition plain_term :: "string \<Rightarrow> bool" where
  "plain_term t \<longleftrightarrow> \<not> starts_with t ''EQ'' \<and> \<not> starts_with t ''NQ''"

lemma branch_terms_plain:
  "list_all plain_term ts \<Longrightarrow> branch_terms cur (ts @ rest) = branch_terms (cur @ ts) rest"
  by (induction ts arbitrary: cur) (auto simp: plain_term_def)

lemma split_str_neq_Nil [simp]: "split_str sep s \<noteq> []"
  by (cases s) (auto split: list.splits)

lemma split_str_hd_prefix: "split_str sep s = y # ys \<Longrightarrow> prefix y s"
  by (induction sep s arbitrary: y ys rule: split_str.induct)
    (auto split: list.splits if_splits)

text \<open>No piece of a split contains the separator.\<close>

lemma split_str_sep_free:
  "b \<in> set (split_str sep s) \<Longrightarrow> sep \<noteq> [] \<Longrightarrow> \<not> str_contains b sep"
proof (induction sep s arbitrary: b rule: split_str.induct)
  case (1 sep)
  then show ?case by simp
next
  case (2 sep x xs)
  show ?case
  proof (cases "prefix sep (x # xs)")
    case True
    with 2 show ?thesis by auto
  next
    case False
    obtain y ys where y: "split_str sep xs = y # ys"
      by (cases "split_str sep xs") auto
    have "prefix y xs" using y by (rule split_str_hd_prefix)
    with False have "\<not> prefix sep (x # y)"
      by (metis Cons_prefix_Cons prefix_order.trans)
    moreover have "\<not> str_contains y sep"
      using "2.IH"(2) False "2.prems"(2) y by simp
    ultimately have "\<not> str_contains (x # y) sep" by (simp add: sublist_Cons_right)
    with "2.prems" False y "2.IH"(2) show ?thesis by auto
  qed
qed

lemma split_on_append:
  "split_on c (s @ c # t) = split_on c s @ split_on c t"
  by (induction s) (auto split: list.splits)

lemma split_on_prepend:
  "c \<notin> set p \<Longrightarrow> split_on c (p @ s) = (p @ hd (split_on c s)) # tl (split_on c s)"
  by (induction p) auto

lemma split_on_hd_prefix: "prefix (hd (split_on c s)) s"
  by (induction s) (auto split: list.splits)

text \<open>Every term after the first is preceded by the separator.\<close>

lemma split_on_tl_sublist: "t \<in> set (tl (split_on c s)) \<Longrightarrow> sublist (c # t) s"
proof (induction s)
  case Nil
  then show ?case by simp
next
  case (Cons x xs)
  have cases: "t = hd (split_on c xs) \<or> t \<in> set (tl (split_on c xs))"
    if "t \<in> set (split_on c xs)"
    using that by (cases "split_on c xs") auto
  show ?case
  proof (cases "x = c")
    case True
    with Cons.prems cases have "t = hd (split_on c xs) \<or> t \<in> set (tl (split_on c xs))" by simp
    with True Cons.IH show ?thesis
      using split_on_hd_prefix [of c xs] by (auto simp: sublist_Cons_right)
  next
    case False
    with Cons.prems have "t \<in> set (tl (split_on c xs))" by (auto split: list.splits)
    with Cons.IH show ?thesis by (simp add: sublist_Cons_right)
  qed
qed

subsection \<open>Branches that carry the domain condition\<close>

text \<open>
  A branch string is closed under a last term when it reads as one branch, nothing in it ends
  the query, and that term is its last.
\<close>

definition closed_branch :: "string \<Rightarrow> string \<Rightarrow> bool" where
  "closed_branch lst r \<longleftrightarrow>
     (let ts = split_on (CHR ''^'') r in
      last ts = lst \<and> list_all (\<lambda>t. \<not> starts_with t ''EQ'') ts
      \<and> list_all (\<lambda>t. \<not> starts_with t ''NQ'') (tl ts))"

lemma closed_branch_tl_plain:
  "closed_branch lst r \<Longrightarrow> list_all plain_term (tl (split_on (CHR ''^'') r))"
  by (cases "split_on (CHR ''^'') r") (auto simp: closed_branch_def plain_term_def list_all_iff)

lemma query_branches_join:
  assumes "rs \<noteq> []" "\<And>r. r \<in> set rs \<Longrightarrow> closed_branch lst r"
  shows "query_branches (join ''^NQ'' rs) = map (split_on (CHR ''^'')) rs"
  using assms
proof (induction "''^NQ''" rs rule: join.induct)
  case 1
  then show ?case by simp
next
  case (2 r)
  then have "list_all plain_term (tl (split_on (CHR ''^'') r))" by (simp add: closed_branch_tl_plain)
  then show ?case
    using branch_terms_plain [of "tl (split_on (CHR ''^'') r)" "[hd (split_on (CHR ''^'') r)]" "[]"]
    by (cases "split_on (CHR ''^'') r") (auto simp: query_branches_def)
next
  case (3 r r2 rs)
  let ?rest = "join ''^NQ'' (r2 # rs)"
  obtain t ts where t: "split_on (CHR ''^'') r = t # ts" by (cases "split_on (CHR ''^'') r") auto
  obtain h hs where h: "split_on (CHR ''^'') ?rest = h # hs"
    by (cases "split_on (CHR ''^'') ?rest") auto
  have plain: "list_all plain_term ts"
    using "3.prems"(2) [of r] closed_branch_tl_plain t by fastforce
  have "split_on (CHR ''^'') (join ''^NQ'' (r # r2 # rs)) = (t # ts) @ (''NQ'' @ h) # hs"
    using split_on_append [of "CHR ''^''" r "''NQ'' @ ?rest"]
      split_on_prepend [of "CHR ''^''" "''NQ''" ?rest] t h by simp
  then have "query_branches (join ''^NQ'' (r # r2 # rs)) = (t # ts) # branch_terms [h] hs"
    using branch_terms_plain [OF plain] by (simp add: query_branches_def)
  also have "branch_terms [h] hs = query_branches ?rest" by (simp add: query_branches_def h)
  also have "\<dots> = map (split_on (CHR ''^'')) (r2 # rs)" using "3.hyps" "3.prems"(2) by simp
  finally show ?case using t by simp
qed

definition valid_domain_id :: "domain_id \<Rightarrow> bool" where
  "valid_domain_id d \<longleftrightarrow> (case d of Global \<Rightarrow> True | Domain i \<Rightarrow> valid_sys_id i)"

lemma domain_id_from_str_valid: "domain_id_from_str s = Inr d \<Longrightarrow> valid_domain_id d"
  by (auto simp: domain_id_from_str_def valid_domain_id_def bind_result_Inr_iff
      sys_id_try_from_iff split: if_splits)

lemma hat_not_word [simp]: "\<not> table_name_char (CHR ''^'')"
  by (simp add: byte_simps byte_of_def)

lemma domain_term_hat_free:
  assumes "valid_domain_id d"
  shows "CHR ''^'' \<notin> set (domain_term d)"
proof (cases d)
  case Global
  then show ?thesis by (simp add: domain_term_def domain_id_to_string_def)
next
  case (Domain i)
  obtain s where "i = SysId s" by (cases i)
  with Domain assms valid_sys_id_word [of s] have "list_all table_name_char s"
    by (simp add: valid_domain_id_def)
  with Domain \<open>i = SysId s\<close> show ?thesis
    by (auto simp: domain_term_def domain_id_to_string_def as_str_defs list_all_iff)
qed

lemma strip_final_eq_prefix: "prefix (strip_final_eq b) b"
  by (auto simp: strip_final_eq_def strip_suffix_Some_iff prefix_def split: option.splits)

lemma strip_final_eq_nq_free:
  assumes "\<not> str_contains b ''^NQ''"
  shows "\<not> str_contains (strip_final_eq b) ''^NQ''"
  using assms strip_final_eq_prefix [of b] sublist_order.order_trans prefix_imp_sublist by blast

lemma domain_branch_closed:
  assumes "valid_domain_id d" "\<not> str_contains b ''^NQ''" "domain_branch d b = Inr r"
  shows "closed_branch (domain_term d) r"
proof -
  let ?br = "strip_final_eq b"
  let ?ts = "split_on (CHR ''^'') ?br"
  have dt: "split_on (CHR ''^'') (domain_term d) = [domain_term d]"
    using domain_term_hat_free [OF assms(1)] by (rule split_on_no_sep)
  have plain: "\<not> starts_with (domain_term d) ''EQ''" "\<not> starts_with (domain_term d) ''NQ''"
    by (simp_all add: domain_term_def)
  have eq: "list_all (\<lambda>t. \<not> starts_with t ''EQ'') ?ts"
    and r: "r = (if ?br = [] then domain_term d else ?br @ ''^'' @ domain_term d)"
    using assms(3) by (auto simp: domain_branch_def Let_def list_all_iff list_ex_iff split: if_splits)
  have "\<not> starts_with t ''NQ''" if t: "t \<in> set (tl ?ts)" for t
  proof
    assume "starts_with t ''NQ''"
    then have "prefix ''^NQ'' (CHR ''^'' # t)" by simp
    then have "str_contains ?br ''^NQ''"
      using split_on_tl_sublist [OF t] prefix_imp_sublist sublist_order.order_trans by blast
    with strip_final_eq_nq_free [OF assms(2)] show False by simp
  qed
  then have nq: "list_all (\<lambda>t. \<not> starts_with t ''NQ'') (tl ?ts)" by (simp add: list_all_iff)
  show ?thesis
  proof (cases "?br = []")
    case True
    with r dt plain show ?thesis by (simp add: closed_branch_def)
  next
    case False
    with r have "split_on (CHR ''^'') r = ?ts @ [domain_term d]"
      using split_on_append [of "CHR ''^''" ?br "domain_term d"] dt by simp
    with eq nq plain show ?thesis by (simp add: closed_branch_def list_all_iff)
  qed
qed



text \<open>
  A terminator at the end of a branch that is not the last one is accepted and dropped: the
  server would have stopped at it, the query sent goes on to the branch after it.
\<close>

lemma embedded_terminator_is_dropped:
  "query_branches ''a=1^EQ^NQb=2'' = [[''a=1'']]
   \<and> domain_apply_to_query Global (Some ''a=1^EQ^NQb=2'') =
     Inr ''a=1^sys_domain=global^NQb=2^sys_domain=global''"
  by code_simp

end
