(* ===== verification/Cli_Args.thy ===== *)
theory Cli_Args
  imports Identifiers Order_By Domain_Filter
begin

text \<open>
  The command tree of the full binary (\<open>src/cli/args.rs\<close> and \<open>src/cli/args/\<close>) as
  datatypes: one type per \<open>Subcommand\<close> enum, one constructor per variant, the fields in the
  order in which the source declares them. A single-field argument struct that only holds a
  subcommand (\<open>TableArgs\<close> and its like) is that subcommand. Numbers are \<^typ>\<open>nat\<close>, paths
  and shells are named by their strings.
\<close>

datatype shell = Shell string

datatype output_format = Json | Csv | Jsonl | Toon | Text | Auto

definition output_format_as_str :: "output_format \<Rightarrow> string" where
  "output_format_as_str f = (case f of Json \<Rightarrow> ''json'' | Csv \<Rightarrow> ''csv'' | Jsonl \<Rightarrow> ''jsonl''
     | Toon \<Rightarrow> ''toon'' | Text \<Rightarrow> ''text'' | Auto \<Rightarrow> ''auto'')"

definition output_format_from_str_opt :: "string \<Rightarrow> output_format option" where
  "output_format_from_str_opt value =
     (let v = to_ascii_lowercase (trim value) in
      if v = ''json'' then Some Json else if v = ''csv'' then Some Csv
      else if v = ''jsonl'' then Some Jsonl else if v = ''toon'' then Some Toon
      else if v = ''text'' then Some Text else if v = ''auto'' then Some Auto else None)"

datatype cli_auth_method = Basic | Oauth2 | ApiKey | Mtls | BrowserSession
datatype cli_oauth_grant_type = ClientCredentials | Password | AuthorizationCode

subsection \<open>profile\<close>

datatype profile_sdk_commands =
    SdkList
  | SdkImport "string option" bool bool \<comment> \<open>alias, all, set_default\<close>
  | SdkExport string "string option" bool \<comment> \<open>profile, alias, set_default\<close>

record profile_fields =
  pf_instance :: "string option"
  pf_auth_method :: "cli_auth_method option"
  pf_username :: "string option"
  pf_client_id :: "string option"
  pf_oauth_grant_type :: "cli_oauth_grant_type option"
  pf_oauth_scope :: "string option"
  pf_oauth_redirect_host :: "string option"
  pf_oauth_redirect_port :: "nat option"
  pf_oauth_redirect_path :: "string option"
  pf_cert_path :: "string option"
  pf_key_path :: "string option"
  pf_sso_login_url :: "string option"

text \<open>
  \<open>Init\<close>, \<open>Add\<close>, \<open>Edit\<close> and \<open>SetProfile\<close> share the fields above; \<open>Init\<close> has no
  certificate, key and SSO fields, which it carries here as \<^term>\<open>None\<close>.
\<close>

datatype config_commands =
    ConfigInit profile_fields string
  | ConfigAdd string profile_fields
  | ConfigEdit string profile_fields
  | ConfigSetProfile string profile_fields
  | ConfigListProfiles
  | ConfigFindProfile string
  | ConfigSdk profile_sdk_commands
  | ConfigListNowSdkProfiles
  | ConfigImportNowSdk "string option" bool bool \<comment> \<open>alias, all, set_default\<close>
  | ConfigExportNowSdk string "string option" bool \<comment> \<open>profile, alias, set_default\<close>
  | ConfigUseProfile string
  | ConfigCurrent
  | ConfigShow
  | ConfigDeleteProfile string bool "string option" \<comment> \<open>name, yes, new_default\<close>
  | ConfigOutput "output_format option" bool \<comment> \<open>format, reset\<close>

subsection \<open>auth, session and domain\<close>

record login_args =
  la_password :: "string option"
  la_password_stdin :: bool
  la_token :: "string option"
  la_token_stdin :: bool
  la_client_secret :: "string option"
  la_client_secret_stdin :: bool
  la_session_cookie :: "string option"
  la_session_cookie_stdin :: bool
  la_no_browser :: bool
  la_sdk_oauth :: bool
  la_code_stdin :: bool
  la_also_now_sdk :: bool
  la_now_sdk_alias :: "string option"
  la_set_now_sdk_default :: bool
  la_no_verify :: bool

datatype auth_commands = AuthLogin login_args | AuthLogout | AuthStatus bool | AuthToken bool

datatype session_switch_type = SwitchDomain | SwitchApplication | SwitchUpdateset

datatype session_commands =
    SessionLogin string bool
  | SessionAttach string bool
  | SessionShow
  | SessionOptions session_switch_type
  | SessionSwitch session_switch_type string
  | SessionForget

datatype domain_commands =
    DomainStatus
  | DomainList nat bool \<comment> \<open>limit, query_no_domain\<close>
  | DomainInspect domain_id nat bool
  | DomainTable table_name

subsection \<open>table, data, seed, scope\<close>

record table_list_args =
  tl_table :: table_name
  tl_domain :: "domain_id option"
  tl_query :: "string option"
  tl_fields :: "string option"
  tl_limit :: "nat option"
  tl_offset :: nat
  tl_all :: bool
  tl_order_by :: "order_by option"
  tl_query_no_domain :: bool
  tl_full :: bool
  tl_preview :: bool

record table_stats_args =
  ts_table :: table_name
  ts_domain :: "domain_id option"
  ts_query :: "string option"
  ts_group_by :: "string option"
  ts_avg :: "string option"
  ts_min :: "string option"
  ts_max :: "string option"
  ts_sum :: "string option"
  ts_having :: "string option"

datatype table_commands =
    TableList table_list_args
  | TableGet table_name sys_id "string option" bool bool bool
      \<comment> \<open>table, sys_id, fields, query_no_domain, full, preview\<close>
  | TableCreate table_name "string option"
  | TableUpdate table_name sys_id "string option"
  | TableDelete table_name sys_id bool
  | TableSchema table_name bool bool bool \<comment> \<open>extended, own_only, include_inherited\<close>
  | TableStats table_stats_args

datatype data_commands =
    DataExport table_name "string option" "string option" "nat option" "order_by option" bool
      "string option" \<comment> \<open>table, query, fields, limit, order_by, import_ready, out_path\<close>
  | DataExportPackage string string \<comment> \<open>file, out_dir\<close>
  | DataValidate string
  | DataImport string bool "table_name option" bool
      \<comment> \<open>file, dry_run, import_set_table, fail_on_error\<close>

datatype seed_commands =
    SeedPlan string | SeedApply string bool bool | SeedCleanup string bool bool

datatype scope_detail_level = DetailBasic | DetailFull
datatype scope_list_kind = StoreApp | Plugin | CustomApp | Platform | PlatformApp

definition scope_list_kind_as_str :: "scope_list_kind \<Rightarrow> string" where
  "scope_list_kind_as_str k = (case k of StoreApp \<Rightarrow> ''store_app'' | Plugin \<Rightarrow> ''plugin''
     | CustomApp \<Rightarrow> ''custom_app'' | Platform \<Rightarrow> ''platform'' | PlatformApp \<Rightarrow> ''platform_app'')"

datatype scope_commands =
    ScopeList "encoded_query_value option" "scope_list_kind list" bool bool "nat option" nat bool
      \<comment> \<open>search, kind, show_source_table, show_sys_id, limit, offset, all\<close>
  | ScopeInspect encoded_query_value scope_detail_level "nat option"
  | ScopeInventory encoded_query_value "nat option"
  | ScopeMoveFile table_name sys_id string bool bool \<comment> \<open>table, sys_id, target_scope, dry_run, yes\<close>

subsection \<open>attachment, import set, api, graphql, script, codesearch, skill\<close>

datatype attachment_commands =
    AttachmentList table_name sys_id
  | AttachmentDownload sys_id "string option"
  | AttachmentUpload table_name sys_id string

datatype import_set_commands =
    ImportSetLoad table_name "string option" bool bool
  | ImportSetTransform sys_id

datatype api_commands =
    ApiGet string "string list"
  | ApiPost string "string option" "string list"
  | ApiPut string "string option" "string list"
  | ApiDelete string "string list"

record graphql_args =
  ga_document :: "string option"
  ga_query :: "string option"
  ga_query_file :: "string option"
  ga_variables :: "string option"

datatype script_commands =
  ScriptRun "string option" "string option" string string bool bool bool bool
    \<comment> \<open>file, code, scope, endpoint, rollback, sandbox, scriptlet, quota_managed_transaction\<close>

datatype codesearch_commands =
  CodesearchSearch string "string option" "string option" nat bool string bool bool
    \<comment> \<open>query, source_table, scope, limit, current_scope, search_group, full, preview\<close>

datatype skill_target = Codex | Claude | Agents

datatype skill_commands =
  SkillInstall string "string option" "skill_target option" "string option" "string list" bool
    \<comment> \<open>source, target_dir, target, name, pack, all_packs\<close>

subsection \<open>snu\<close>

record snu_page_target =
  pt_url :: string
  pt_tab_id :: "nat option"
  pt_timeout_secs :: nat

record snu_rest_read =
  rr_endpoint :: string
  rr_query_params :: "string list"
  rr_timeout_secs :: nat

record snu_rest_write =
  rw_endpoint :: string
  rw_data :: "string option"
  rw_query_params :: "string list"
  rw_timeout_secs :: nat

datatype snu_rest_commands =
    RestGet snu_rest_read
  | RestPost snu_rest_write
  | RestPut snu_rest_write
  | RestPatch snu_rest_write
  | RestDelete snu_rest_read

datatype snu_page_commands =
    PageFormState "string list" snu_page_target
  | PageSetField string string "string option" snu_page_target
  | PageRunUiAction string bool snu_page_target
  | PageClick string bool snu_page_target
  | PageNavigate string "nat option" bool string bool bool nat
      \<comment> \<open>url, tab_id, new_tab, find_url, no_wait_for_load, keep_unsaved_guard, timeout_secs\<close>

datatype snu_records_commands =
  RecordsParentOptions string "string option" string string nat nat
    \<comment> \<open>table, query, fields, name_field, limit, timeout_secs\<close>

datatype snu_switch_type = SnuUpdateset | SnuApplication | SnuDomain

definition snu_switch_type_as_action_value :: "snu_switch_type \<Rightarrow> string" where
  "snu_switch_type_as_action_value t = (case t of SnuUpdateset \<Rightarrow> ''updateset''
     | SnuApplication \<Rightarrow> ''application'' | SnuDomain \<Rightarrow> ''domain'')"

datatype snu_context_commands =
    ContextGet nat
  | ContextSwitch snu_switch_type string bool string nat
      \<comment> \<open>switch_type, value, no_reload_tab, tab_url, timeout_secs\<close>

datatype snu_tab_commands = TabActivate string bool bool bool nat
  \<comment> \<open>url, reload, wait_for_load, open_if_not_found, timeout_secs\<close>

datatype snu_broker_commands = BrokerStatusCmd | BrokerStop | BrokerClear "string option" | BrokerServe

datatype snu_commands =
    SnuCheckConnection nat bool
  | SnuGetInstanceInfo nat
  | SnuWaitToken nat
  | SnuQuery string "string option" string nat "string option" nat
      \<comment> \<open>table, query, fields, limit, order_by, timeout_secs\<close>
  | SnuExecuteBgScript "string option" "string option" nat
  | SnuCreateRecord string "string option" "string option" nat
  | SnuAppMeta string nat
  | SnuListTables nat
  | SnuGetRecord string string "string option" nat
  | SnuUpdateRecord string string "string option" "string option" "string option" bool nat
      \<comment> \<open>table, sys_id, data, field, content, await_confirmation, timeout_secs\<close>
  | SnuDeleteRecord string "string option" "string option" bool "nat option" bool nat
      \<comment> \<open>table, sys_id, query, confirm, limit, dry_run, timeout_secs\<close>
  | SnuSchema string nat
  | SnuSlash string string "nat option" bool nat \<comment> \<open>command, url, tab_id, no_auto_run, timeout_secs\<close>
  | SnuTab snu_tab_commands
  | SnuRest snu_rest_commands
  | SnuPage snu_page_commands
  | SnuRecords snu_records_commands
  | SnuContext snu_context_commands
  | SnuScreenshot "string option" "nat option" "string option" nat
  | SnuAttachmentUpload string string string "string option" nat
  | SnuBroker snu_broker_commands

subsection \<open>The full command line\<close>

datatype commands =
    Profile config_commands
  | Auth auth_commands
  | Table table_commands
  | DomainCmd domain_commands
  | Session session_commands
  | Data data_commands
  | Seed seed_commands
  | Scope scope_commands
  | Attachment attachment_commands
  | ImportSet import_set_commands
  | Api api_commands
  | Graphql graphql_args
  | Script script_commands
  | Codesearch codesearch_commands
  | Snu snu_commands
  | Skill skill_commands
  | Completions shell

record cli =
  cli_profile :: "string option"
  cli_instance :: "string option"
  cli_output :: "output_format option"
  cli_timeout_secs :: "nat option"
  cli_read_only :: bool
  cli_verbose :: nat
  cli_command :: commands

text \<open>Every name of an output format is read back, whatever its letter case and surrounding space.\<close>

lemma output_format_round_trip [simp]:
  "output_format_from_str_opt (output_format_as_str f) = Some f"
  by (cases f; hypsubst; code_simp)

end
