(* ===== verification/Policy.thy ===== *)
theory Policy
  imports Cli_Args
begin

text \<open>
  The execution policy of \<open>src/policy.rs\<close>: the decision on a parsed command, the check of an
  outgoing request and of its raw headers, and the process-global mode cell. A \<open>PolicyError\<close>
  keeps the operation, the mode, the capability and the reason.
\<close>

datatype policy_mode = FullAccess | ReadOnly

record execution_policy = policy_mode_of :: policy_mode

datatype command_capability =
    RemoteRead | RemoteWrite | RawApiRead | RawApiWrite | CredentialExport
  | LocalConfigRead | LocalConfigWrite | LocalCredentialRead | LocalCredentialWrite
  | LocalFileWrite | UnknownCapability

definition command_capability_as_str :: "command_capability \<Rightarrow> string" where
  "command_capability_as_str c = (case c of
      RemoteRead \<Rightarrow> ''remote_read'' | RemoteWrite \<Rightarrow> ''remote_write''
    | RawApiRead \<Rightarrow> ''raw_api_read'' | RawApiWrite \<Rightarrow> ''raw_api_write''
    | CredentialExport \<Rightarrow> ''credential_export'' | LocalConfigRead \<Rightarrow> ''local_config_read''
    | LocalConfigWrite \<Rightarrow> ''local_config_write'' | LocalCredentialRead \<Rightarrow> ''local_credential_read''
    | LocalCredentialWrite \<Rightarrow> ''local_credential_write'' | LocalFileWrite \<Rightarrow> ''local_file_write''
    | UnknownCapability \<Rightarrow> ''unknown'')"

datatype policy_decision = Allow | Deny string command_capability string

record policy_error =
  pe_operation :: string
  pe_mode :: policy_mode
  pe_capability :: command_capability
  pe_reason :: string

text \<open>The methods of the \<open>http\<close> crate; any other token is an extension method.\<close>

datatype http_method = GET | POST | PUT | PATCH | DELETE | HEAD | OPTIONS | ExtensionMethod string

definition http_method_str :: "http_method \<Rightarrow> string" where
  "http_method_str m = (case m of GET \<Rightarrow> ''GET'' | POST \<Rightarrow> ''POST'' | PUT \<Rightarrow> ''PUT''
     | PATCH \<Rightarrow> ''PATCH'' | DELETE \<Rightarrow> ''DELETE'' | HEAD \<Rightarrow> ''HEAD'' | OPTIONS \<Rightarrow> ''OPTIONS''
     | ExtensionMethod s \<Rightarrow> s)"

definition full_access :: execution_policy where
  "full_access = \<lparr>policy_mode_of = FullAccess\<rparr>"

definition read_only :: execution_policy where
  "read_only = \<lparr>policy_mode_of = ReadOnly\<rparr>"

subsection \<open>The decision on a command\<close>

definition export_reason :: string where
  "export_reason =
     ''read-only policy does not allow exporting reusable credentials to the now-sdk store''"

fun profile_sdk_decision :: "profile_sdk_commands \<Rightarrow> policy_decision" where
  "profile_sdk_decision (SdkExport _ _ _) = Deny ''profile sdk export'' CredentialExport export_reason"
| "profile_sdk_decision SdkList = Allow"
| "profile_sdk_decision (SdkImport _ _ _) = Allow"

fun profile_decision :: "config_commands \<Rightarrow> policy_decision" where
  "profile_decision (ConfigExportNowSdk _ _ _) =
     Deny ''profile export-now-sdk'' CredentialExport export_reason"
| "profile_decision (ConfigSdk sdk) = profile_sdk_decision sdk"
| "profile_decision _ = Allow"

fun auth_decision :: "auth_commands \<Rightarrow> policy_decision" where
  "auth_decision (AuthToken _) = Deny ''auth token'' CredentialExport
     ''read-only policy does not allow exporting reusable credentials''"
| "auth_decision _ = Allow"

fun session_decision :: "session_commands \<Rightarrow> policy_decision" where
  "session_decision SessionShow = Allow"
| "session_decision (SessionOptions _) = Allow"
| "session_decision (SessionAttach _ _) = Allow"
| "session_decision SessionForget = Allow"
| "session_decision _ = Deny ''session switch/login'' RemoteWrite
     ''Native session switching and login change remote session state''"

fun table_decision :: "table_commands \<Rightarrow> policy_decision" where
  "table_decision (TableList _) = Allow"
| "table_decision (TableGet _ _ _ _ _ _) = Allow"
| "table_decision (TableSchema _ _ _ _) = Allow"
| "table_decision (TableStats _) = Allow"
| "table_decision _ = Deny ''table write'' RemoteWrite
     ''read-only policy does not allow table mutations''"

fun data_decision :: "data_commands \<Rightarrow> policy_decision" where
  "data_decision (DataImport _ _ _ _) = Deny ''data import'' RemoteWrite
     ''read-only policy does not allow data import''"
| "data_decision _ = Allow"

fun seed_decision :: "seed_commands \<Rightarrow> policy_decision" where
  "seed_decision (SeedPlan _) = Allow"
| "seed_decision _ = Deny ''seed apply/cleanup'' RemoteWrite
     ''read-only policy does not allow seed mutations or cleanup deletes''"

fun scope_decision :: "scope_commands \<Rightarrow> policy_decision" where
  "scope_decision (ScopeMoveFile _ _ _ _ _) = Deny ''scope move-file'' RemoteWrite
     ''read-only policy does not allow moving application files between scopes''"
| "scope_decision _ = Allow"

fun attachment_decision :: "attachment_commands \<Rightarrow> policy_decision" where
  "attachment_decision (AttachmentUpload _ _ _) = Deny ''attachment upload'' RemoteWrite
     ''read-only policy does not allow attachment uploads''"
| "attachment_decision _ = Allow"

fun api_decision :: "api_commands \<Rightarrow> policy_decision" where
  "api_decision (ApiGet _ _) = Allow"
| "api_decision _ = Deny ''api write'' RawApiWrite ''read-only policy allows raw API GET only''"

fun snu_rest_decision :: "snu_rest_commands \<Rightarrow> policy_decision" where
  "snu_rest_decision (RestGet _) = Allow"
| "snu_rest_decision _ = Deny ''snu rest write'' RawApiWrite
     ''read-only policy allows SN-Utils Agent API REST GET only''"

fun snu_page_decision :: "snu_page_commands \<Rightarrow> policy_decision" where
  "snu_page_decision (PageFormState _ _) = Allow"
| "snu_page_decision _ = Deny ''snu page mutation'' RemoteWrite
     ''read-only policy allows form-state reads only''"

fun snu_context_decision :: "snu_context_commands \<Rightarrow> policy_decision" where
  "snu_context_decision (ContextGet _) = Allow"
| "snu_context_decision _ = Deny ''snu context switch'' RemoteWrite
     ''read-only policy does not allow switching browser session context''"

fun snu_decision :: "snu_commands \<Rightarrow> policy_decision" where
  "snu_decision (SnuRest c) = snu_rest_decision c"
| "snu_decision (SnuPage c) = snu_page_decision c"
| "snu_decision (SnuUpdateRecord _ _ _ _ _ _ _) = Deny ''snu update-record'' RemoteWrite
     ''read-only policy does not allow record updates through SN-Utils''"
| "snu_decision (SnuCreateRecord _ _ _ _) = Deny ''snu create-record'' RemoteWrite
     ''read-only policy does not allow record creation through SN-Utils''"
| "snu_decision (SnuDeleteRecord _ _ _ _ _ _ _) = Deny ''snu delete-record'' RemoteWrite
     ''read-only policy does not allow record deletion through SN-Utils''"
| "snu_decision (SnuExecuteBgScript _ _ _) = Deny ''snu execute-bg-script'' RemoteWrite
     ''read-only policy does not allow background script execution through SN-Utils''"
| "snu_decision (SnuContext c) = snu_context_decision c"
| "snu_decision (SnuAttachmentUpload _ _ _ _ _) = Deny ''snu attachment upload'' RemoteWrite
     ''read-only policy does not allow attachment uploads''"
| "snu_decision _ = Allow"

fun read_only_command_decision :: "commands \<Rightarrow> policy_decision" where
  "read_only_command_decision (Profile c) = profile_decision c"
| "read_only_command_decision (Auth c) = auth_decision c"
| "read_only_command_decision (DomainCmd _) = Allow"
| "read_only_command_decision (Session c) = session_decision c"
| "read_only_command_decision (Table c) = table_decision c"
| "read_only_command_decision (Data c) = data_decision c"
| "read_only_command_decision (Seed c) = seed_decision c"
| "read_only_command_decision (Scope c) = scope_decision c"
| "read_only_command_decision (Attachment c) = attachment_decision c"
| "read_only_command_decision (ImportSet _) = Deny ''import-set'' RemoteWrite
     ''read-only policy does not allow import set operations''"
| "read_only_command_decision (Api c) = api_decision c"
| "read_only_command_decision (Graphql _) = Deny ''graphql'' RemoteWrite
     ''read-only policy does not allow GraphQL because documents may contain mutations and the endpoint requires POST''"
| "read_only_command_decision (Script _) = Deny ''script run'' RemoteWrite
     ''read-only policy does not allow background script execution''"
| "read_only_command_decision (Codesearch _) = Allow"
| "read_only_command_decision (Snu c) = snu_decision c"
| "read_only_command_decision (Skill _) = Allow"
| "read_only_command_decision (Completions _) = Allow"

definition decision_for_command :: "execution_policy \<Rightarrow> commands \<Rightarrow> policy_decision" where
  "decision_for_command p command =
     (if policy_mode_of p = FullAccess then Allow else read_only_command_decision command)"

definition ensure_command_allowed :: "execution_policy \<Rightarrow> commands \<Rightarrow> policy_error + unit" where
  "ensure_command_allowed p command = (case decision_for_command p command of
      Allow \<Rightarrow> Inr ()
    | Deny cmd capability reason \<Rightarrow>
        Inl \<lparr>pe_operation = cmd, pe_mode = policy_mode_of p, pe_capability = capability,
             pe_reason = reason\<rparr>)"

subsection \<open>The decision on a request\<close>

definition ensure_request_allowed ::
  "execution_policy \<Rightarrow> http_method \<Rightarrow> string \<Rightarrow> policy_error + unit" where
  "ensure_request_allowed p method path =
     (if policy_mode_of p = FullAccess \<or> method = GET then Inr ()
      else Inl \<lparr>pe_operation = ''HTTP '' @ http_method_str method @ '' '' @ path,
                pe_mode = policy_mode_of p, pe_capability = RemoteWrite,
                pe_reason = ''read-only policy permits HTTP GET requests only''\<rparr>)"

definition is_method_override_header :: "string \<Rightarrow> bool" where
  "is_method_override_header name \<longleftrightarrow>
     (let n = to_ascii_lowercase (trim name) in
      n = ''x-http-method-override'' \<or> n = ''x-method-override'' \<or> n = ''x-http-method'')"

definition ensure_raw_api_headers_allowed ::
  "execution_policy \<Rightarrow> http_method \<Rightarrow> (string \<times> string) list \<Rightarrow> policy_error + unit" where
  "ensure_raw_api_headers_allowed p method extra_headers =
     (if policy_mode_of p \<noteq> ReadOnly \<or> method \<noteq> GET then Inr ()
      else if list_ex (\<lambda>(name, _). is_method_override_header name) extra_headers
      then Inl \<lparr>pe_operation = ''api get'', pe_mode = ReadOnly, pe_capability = RawApiWrite,
                pe_reason = ''read-only policy does not allow method override headers on api get''\<rparr>
      else Inr ())"

subsection \<open>The process-global mode\<close>

definition policy_mode_as_u8 :: "policy_mode \<Rightarrow> nat" where
  "policy_mode_as_u8 m = (case m of FullAccess \<Rightarrow> 0 | ReadOnly \<Rightarrow> 1)"

definition set_active_policy :: "execution_policy \<Rightarrow> nat \<Rightarrow> nat" where
  "set_active_policy p cell = policy_mode_as_u8 (policy_mode_of p)"

definition active_policy :: "nat \<Rightarrow> execution_policy" where
  "active_policy cell = (if cell = 1 then read_only else full_access)"

lemmas policy_defs =
  decision_for_command_def ensure_command_allowed_def full_access_def read_only_def

lemma read_only_mode [simp]: "policy_mode_of read_only = ReadOnly"
  and full_access_mode [simp]: "policy_mode_of full_access = FullAccess"
  by (simp_all add: read_only_def full_access_def)

lemma ensure_command_allowed_iff:
  "ensure_command_allowed p c = Inr () \<longleftrightarrow> decision_for_command p c = Allow"
  by (simp add: ensure_command_allowed_def split: policy_decision.split)

lemma ensure_request_allowed_iff:
  "ensure_request_allowed p m path = Inr () \<longleftrightarrow> policy_mode_of p = FullAccess \<or> m = GET"
  by (simp add: ensure_request_allowed_def)

text \<open>The mode a binary stores is the mode every client built afterwards reads.\<close>

lemma active_policy_set [simp]: "active_policy (set_active_policy p cell) = p"
  by (cases p; cases "policy_mode_of p")
    (simp_all add: active_policy_def set_active_policy_def policy_mode_as_u8_def policy_defs)

end
