(* ===== verification/Read_Only_Cli.thy ===== *)
theory Read_Only_Cli
  imports Policy
begin

text \<open>
  The reduced command line of \<open>snow-cli-ro\<close> (\<open>src/cli/readonly_args.rs\<close>), its conversion
  into the full command line, and what the two binaries hand to the policy check
  (\<open>src/lib.rs\<close>).
\<close>

datatype read_only_auth_commands = RoAuthLogin login_args | RoAuthLogout | RoAuthStatus bool

datatype read_only_table_commands =
    RoTableList table_list_args
  | RoTableGet table_name sys_id "string option" bool bool bool
  | RoTableSchema table_name bool bool bool
  | RoTableStats table_stats_args

datatype read_only_data_commands =
    RoDataExport table_name "string option" "string option" "nat option" "order_by option" bool
      "string option"
  | RoDataExportPackage string string
  | RoDataValidate string

datatype read_only_scope_commands =
    RoScopeList "encoded_query_value option" "scope_list_kind list" bool bool "nat option" nat bool
  | RoScopeInspect encoded_query_value scope_detail_level "nat option"
  | RoScopeInventory encoded_query_value "nat option"

datatype read_only_attachment_commands =
    RoAttachmentList table_name sys_id
  | RoAttachmentDownload sys_id "string option"

datatype read_only_api_commands = RoApiGet string "string list"

datatype read_only_codesearch_commands =
  RoCodesearchSearch string "string option" "string option" nat bool string bool bool

datatype read_only_session_commands =
    RoSessionShow
  | RoSessionOptions session_switch_type
  | RoSessionAttach string bool
  | RoSessionForget

datatype read_only_snu_context_commands = RoContextGet nat
datatype read_only_snu_rest_commands = RoRestGet snu_rest_read
datatype read_only_snu_page_commands = RoPageFormState "string list" snu_page_target

datatype read_only_snu_commands =
    RoSnuCheckConnection nat bool
  | RoSnuGetInstanceInfo nat
  | RoSnuWaitToken nat
  | RoSnuQuery string "string option" string nat "string option" nat
  | RoSnuListTables nat
  | RoSnuGetRecord string string "string option" nat
  | RoSnuSchema string nat
  | RoSnuAppMeta string nat
  | RoSnuContext read_only_snu_context_commands
  | RoSnuRest read_only_snu_rest_commands
  | RoSnuPage read_only_snu_page_commands
  | RoSnuRecords snu_records_commands
  | RoSnuScreenshot "string option" "nat option" "string option" nat

datatype read_only_commands =
    RoProfile config_commands
  | RoAuth read_only_auth_commands
  | RoTable read_only_table_commands
  | RoDomain domain_commands
  | RoSession read_only_session_commands
  | RoData read_only_data_commands
  | RoScope read_only_scope_commands
  | RoAttachment read_only_attachment_commands
  | RoApi read_only_api_commands
  | RoCodesearch read_only_codesearch_commands
  | RoSnu read_only_snu_commands
  | RoCompletions shell

record read_only_cli =
  ro_profile :: "string option"
  ro_instance :: "string option"
  ro_output :: "output_format option"
  ro_timeout_secs :: "nat option"
  ro_verbose :: nat
  ro_command :: read_only_commands

subsection \<open>Conversion\<close>

fun auth_into_full :: "read_only_auth_commands \<Rightarrow> auth_commands" where
  "auth_into_full (RoAuthLogin a) = AuthLogin a"
| "auth_into_full RoAuthLogout = AuthLogout"
| "auth_into_full (RoAuthStatus v) = AuthStatus v"

fun table_into_full :: "read_only_table_commands \<Rightarrow> table_commands" where
  "table_into_full (RoTableList a) = TableList a"
| "table_into_full (RoTableGet t i f q full p) = TableGet t i f q full p"
| "table_into_full (RoTableSchema t e oo ii) = TableSchema t e oo ii"
| "table_into_full (RoTableStats a) = TableStats a"

fun data_into_full :: "read_only_data_commands \<Rightarrow> data_commands" where
  "data_into_full (RoDataExport t q f l ob ready out) = DataExport t q f l ob ready out"
| "data_into_full (RoDataExportPackage f d) = DataExportPackage f d"
| "data_into_full (RoDataValidate f) = DataValidate f"

fun scope_into_full :: "read_only_scope_commands \<Rightarrow> scope_commands" where
  "scope_into_full (RoScopeList s k t i l off a) = ScopeList s k t i l off a"
| "scope_into_full (RoScopeInspect s d l) = ScopeInspect s d l"
| "scope_into_full (RoScopeInventory s l) = ScopeInventory s l"

fun attachment_into_full :: "read_only_attachment_commands \<Rightarrow> attachment_commands" where
  "attachment_into_full (RoAttachmentList t i) = AttachmentList t i"
| "attachment_into_full (RoAttachmentDownload i out) = AttachmentDownload i out"

fun api_into_full :: "read_only_api_commands \<Rightarrow> api_commands" where
  "api_into_full (RoApiGet p h) = ApiGet p h"

fun codesearch_into_full :: "read_only_codesearch_commands \<Rightarrow> codesearch_commands" where
  "codesearch_into_full (RoCodesearchSearch q t s l c g f p) = CodesearchSearch q t s l c g f p"

fun session_into_full :: "read_only_session_commands \<Rightarrow> session_commands" where
  "session_into_full RoSessionShow = SessionShow"
| "session_into_full (RoSessionOptions k) = SessionOptions k"
| "session_into_full (RoSessionAttach n c) = SessionAttach n c"
| "session_into_full RoSessionForget = SessionForget"

fun snu_into_full :: "read_only_snu_commands \<Rightarrow> snu_commands" where
  "snu_into_full (RoSnuCheckConnection t v) = SnuCheckConnection t v"
| "snu_into_full (RoSnuGetInstanceInfo t) = SnuGetInstanceInfo t"
| "snu_into_full (RoSnuWaitToken t) = SnuWaitToken t"
| "snu_into_full (RoSnuQuery tb q f l ob t) = SnuQuery tb q f l ob t"
| "snu_into_full (RoSnuListTables t) = SnuListTables t"
| "snu_into_full (RoSnuGetRecord tb i f t) = SnuGetRecord tb i f t"
| "snu_into_full (RoSnuSchema tb t) = SnuSchema tb t"
| "snu_into_full (RoSnuAppMeta a t) = SnuAppMeta a t"
| "snu_into_full (RoSnuContext (RoContextGet t)) = SnuContext (ContextGet t)"
| "snu_into_full (RoSnuRest (RoRestGet r)) = SnuRest (RestGet r)"
| "snu_into_full (RoSnuPage (RoPageFormState f tg)) = SnuPage (PageFormState f tg)"
| "snu_into_full (RoSnuRecords r) = SnuRecords r"
| "snu_into_full (RoSnuScreenshot u i out t) = SnuScreenshot u i out t"

fun into_full_command :: "read_only_commands \<Rightarrow> commands" where
  "into_full_command (RoProfile c) = Profile c"
| "into_full_command (RoAuth c) = Auth (auth_into_full c)"
| "into_full_command (RoTable c) = Table (table_into_full c)"
| "into_full_command (RoDomain c) = DomainCmd c"
| "into_full_command (RoSession c) = Session (session_into_full c)"
| "into_full_command (RoData c) = Data (data_into_full c)"
| "into_full_command (RoScope c) = Scope (scope_into_full c)"
| "into_full_command (RoAttachment c) = Attachment (attachment_into_full c)"
| "into_full_command (RoApi c) = Api (api_into_full c)"
| "into_full_command (RoCodesearch c) = Codesearch (codesearch_into_full c)"
| "into_full_command (RoSnu c) = Snu (snu_into_full c)"
| "into_full_command (RoCompletions s) = Completions s"

definition into_full_cli :: "read_only_cli \<Rightarrow> cli" where
  "into_full_cli ro =
     \<lparr>cli_profile = ro_profile ro, cli_instance = ro_instance ro, cli_output = ro_output ro,
      cli_timeout_secs = ro_timeout_secs ro, cli_read_only = True, cli_verbose = ro_verbose ro,
      cli_command = into_full_command (ro_command ro)\<rparr>"

text \<open>
  What each binary does before a configuration is loaded: it picks a policy, stores its mode
  in the global cell and checks the command. \<open>run_read_only_cli\<close> answers completions itself.
\<close>

datatype startup = CompletionsPrinted | Denied policy_error | Dispatch execution_policy cli

definition run_parsed_cli_check :: "cli \<Rightarrow> execution_policy \<Rightarrow> startup" where
  "run_parsed_cli_check c p = (case ensure_command_allowed p (cli_command c) of
      Inl e \<Rightarrow> Denied e | Inr _ \<Rightarrow> Dispatch p c)"

definition run_cli :: "cli \<Rightarrow> nat \<Rightarrow> startup \<times> nat" where
  "run_cli c cell =
     (let p = (if cli_read_only c then read_only else full_access)
      in (run_parsed_cli_check c p, set_active_policy p cell))"

definition run_read_only_cli :: "read_only_cli \<Rightarrow> nat \<Rightarrow> startup \<times> nat" where
  "run_read_only_cli ro cell = (case ro_command ro of
      RoCompletions _ \<Rightarrow> (CompletionsPrinted, cell)
    | _ \<Rightarrow> (run_parsed_cli_check (into_full_cli ro) read_only, set_active_policy read_only cell))"

subsection \<open>The reduced surface and the policy agree\<close>

fun exports_credentials :: "config_commands \<Rightarrow> bool" where
  "exports_credentials (ConfigExportNowSdk _ _ _) = True"
| "exports_credentials (ConfigSdk (SdkExport _ _ _)) = True"
| "exports_credentials _ = False"

text \<open>The command of the reduced surface a full command comes from, where there is one.\<close>

fun ro_snu_of :: "snu_commands \<Rightarrow> read_only_snu_commands option" where
  "ro_snu_of (SnuCheckConnection t v) = Some (RoSnuCheckConnection t v)"
| "ro_snu_of (SnuGetInstanceInfo t) = Some (RoSnuGetInstanceInfo t)"
| "ro_snu_of (SnuWaitToken t) = Some (RoSnuWaitToken t)"
| "ro_snu_of (SnuQuery tb q f l ob t) = Some (RoSnuQuery tb q f l ob t)"
| "ro_snu_of (SnuListTables t) = Some (RoSnuListTables t)"
| "ro_snu_of (SnuGetRecord tb i f t) = Some (RoSnuGetRecord tb i f t)"
| "ro_snu_of (SnuSchema tb t) = Some (RoSnuSchema tb t)"
| "ro_snu_of (SnuAppMeta a t) = Some (RoSnuAppMeta a t)"
| "ro_snu_of (SnuContext (ContextGet t)) = Some (RoSnuContext (RoContextGet t))"
| "ro_snu_of (SnuRest (RestGet r)) = Some (RoSnuRest (RoRestGet r))"
| "ro_snu_of (SnuPage (PageFormState f tg)) = Some (RoSnuPage (RoPageFormState f tg))"
| "ro_snu_of (SnuRecords r) = Some (RoSnuRecords r)"
| "ro_snu_of (SnuScreenshot u i out t) = Some (RoSnuScreenshot u i out t)"
| "ro_snu_of _ = None"

text \<open>The commands the policy allows although the reduced surface does not offer them.\<close>

fun allowed_full_only :: "commands \<Rightarrow> bool" where
  "allowed_full_only (Seed (SeedPlan _)) = True"
| "allowed_full_only (Skill _) = True"
| "allowed_full_only (Snu (SnuSlash _ _ _ _ _)) = True"
| "allowed_full_only (Snu (SnuTab _)) = True"
| "allowed_full_only (Snu (SnuBroker _)) = True"
| "allowed_full_only _ = False"

lemma snu_into_full_allowed: "snu_decision (snu_into_full r) = Allow"
  by (cases r rule: snu_into_full.cases) simp_all

lemma into_full_allowed:
  "read_only_command_decision (into_full_command r) = Allow \<longleftrightarrow>
     (\<forall>c. r = RoProfile c \<longrightarrow> \<not> exports_credentials c)"
proof (cases r)
  case (RoProfile c)
  then show ?thesis by (cases c rule: exports_credentials.cases) simp_all
next
  case (RoAuth c)
  then show ?thesis by (cases c) simp_all
next
  case (RoTable c)
  then show ?thesis by (cases c) simp_all
next
  case (RoSession c)
  then show ?thesis by (cases c) simp_all
next
  case (RoData c)
  then show ?thesis by (cases c) simp_all
next
  case (RoScope c)
  then show ?thesis by (cases c) simp_all
next
  case (RoAttachment c)
  then show ?thesis by (cases c) simp_all
next
  case (RoApi c)
  then show ?thesis by (cases c) simp_all
next
  case (RoSnu c)
  then show ?thesis by (simp add: snu_into_full_allowed)
qed simp_all

lemma ro_snu_of_Some: "ro_snu_of c = Some r \<Longrightarrow> snu_into_full r = c"
  by (cases c rule: ro_snu_of.cases) auto

lemma snu_allowed_reachable:
  "snu_decision c = Allow \<Longrightarrow> \<not> allowed_full_only (Snu c) \<Longrightarrow> \<exists>r. c = snu_into_full r"
proof -
  assume a: "snu_decision c = Allow" "\<not> allowed_full_only (Snu c)"
  then have "ro_snu_of c \<noteq> None"
    by (cases c rule: ro_snu_of.cases) simp_all
  then show ?thesis using ro_snu_of_Some by fastforce
qed

lemma allowed_reachable:
  assumes "read_only_command_decision c = Allow" "\<not> allowed_full_only c"
  shows "\<exists>r. c = into_full_command r"
proof (cases c)
  case (Auth a)
  with assms(1) obtain r where "a = auth_into_full r"
    by (cases a) (auto intro: auth_into_full.simps [symmetric])
  with Auth show ?thesis by (metis into_full_command.simps(2))
next
  case (Table t)
  with assms(1) obtain r where "t = table_into_full r"
    by (cases t) (auto intro: table_into_full.simps [symmetric])
  with Table show ?thesis by (metis into_full_command.simps(3))
next
  case (Session s)
  with assms(1) obtain r where "s = session_into_full r"
    by (cases s) (auto intro: session_into_full.simps [symmetric])
  with Session show ?thesis by (metis into_full_command.simps(5))
next
  case (Data d)
  with assms(1) obtain r where "d = data_into_full r"
    by (cases d) (auto intro: data_into_full.simps [symmetric])
  with Data show ?thesis by (metis into_full_command.simps(6))
next
  case (Scope s)
  with assms(1) obtain r where "s = scope_into_full r"
    by (cases s) (auto intro: scope_into_full.simps [symmetric])
  with Scope show ?thesis by (metis into_full_command.simps(7))
next
  case (Attachment a)
  with assms(1) obtain r where "a = attachment_into_full r"
    by (cases a) (auto intro: attachment_into_full.simps [symmetric])
  with Attachment show ?thesis by (metis into_full_command.simps(8))
next
  case (Api a)
  with assms(1) obtain r where "a = api_into_full r"
    by (cases a) (auto intro: api_into_full.simps [symmetric])
  with Api show ?thesis by (metis into_full_command.simps(9))
next
  case (Codesearch a)
  then obtain r where "a = codesearch_into_full r"
    by (cases a) (auto intro: codesearch_into_full.simps [symmetric])
  with Codesearch show ?thesis by (metis into_full_command.simps(10))
next
  case (Snu s)
  with assms obtain r where "s = snu_into_full r" using snu_allowed_reachable by auto
  with Snu show ?thesis by (metis into_full_command.simps(11))
next
  case (Seed s)
  with assms show ?thesis by (cases s) simp_all
qed (use assms in \<open>auto intro: into_full_command.simps [symmetric]\<close>)


text \<open>
  The policy admits commands \<open>docs/design/read-only-mode.md\<close> lists as denied: profile writes,
  logout and the import from the now-sdk store.
\<close>

lemma documented_denials_are_allowed:
  "ensure_command_allowed read_only (Auth AuthLogout) = Inr ()"
  "ensure_command_allowed read_only (Profile (ConfigDeleteProfile name yes dflt)) = Inr ()"
  "ensure_command_allowed read_only (Profile (ConfigImportNowSdk alias al dfl)) = Inr ()"
  by (simp_all add: ensure_command_allowed_iff decision_for_command_def)


text \<open>
  C2. The read-only binary never dispatches under full access: whatever its command line, it
  either prints completions without touching the policy cell, or leaves the read-only mode in
  the cell and either dispatches the converted command under the read-only policy or denies
  it, the denial being of a credential export.
\<close>

theorem read_only_binary_is_locked:
  "run_read_only_cli ro cell = (CompletionsPrinted, cell)
   \<or> (active_policy (snd (run_read_only_cli ro cell)) = read_only
      \<and> (fst (run_read_only_cli ro cell) = Dispatch read_only (into_full_cli ro)
         \<or> (\<exists>e. fst (run_read_only_cli ro cell) = Denied e
              \<and> pe_capability e = CredentialExport \<and> pe_mode e = ReadOnly)))"
proof (cases "\<exists>s. ro_command ro = RoCompletions s")
  case True
  then show ?thesis by (auto simp: run_read_only_cli_def)
next
  case False
  then have run: "run_read_only_cli ro cell =
      (run_parsed_cli_check (into_full_cli ro) read_only, set_active_policy read_only cell)"
    by (auto simp: run_read_only_cli_def split: read_only_commands.split)
  let ?d = "read_only_command_decision (into_full_command (ro_command ro))"
  have d: "?d = Allow \<or> (\<exists>cmd reason. ?d = Deny cmd CredentialExport reason)"
  proof (cases "ro_command ro")
    case (RoProfile c)
    then show ?thesis by (cases c rule: exports_credentials.cases) simp_all
  qed (use into_full_allowed [of "ro_command ro"] in auto)
  then show ?thesis
    by (auto simp: run run_parsed_cli_check_def into_full_cli_def ensure_command_allowed_def
        decision_for_command_def)
qed

end
