(* ===== verification/Pagination.thy ===== *)
theory Pagination
  imports Identifiers Order_By
begin

text \<open>
  Auto-pagination of Table API reads: \<open>src/client/pagination.rs\<close> and \<open>src/client/table.rs\<close>.

  The client's authenticated GET, with the decoding of its JSON body, is the argument \<open>get\<close>:
  it takes a path, the query parameters and the client's state, and answers an error or a page.
  The loop of the source may run for ever (a page size of 0), so it is a
  \<^theory_text>\<open>partial_function\<close> into \<^typ>\<open>'a option\<close>, and its termination is a theorem.
\<close>

text \<open>A response as the loop reads it: the \<open>X-Total-Count\<close> header, when present and printable, and the rows.\<close>

record 'r page_response =
  header_total :: "string option"
  page_result :: "'r list"

type_synonym ('s, 'e, 'r) page_get =
  "string \<Rightarrow> (string \<times> string) list \<Rightarrow> 's \<Rightarrow> ('e + 'r page_response) \<times> 's"

datatype 'e list_error = ClientFailed 'e | OffsetOverflow

record pagination_config =
  pc_limit :: "nat option"
  pc_offset :: nat
  pc_page_size :: nat

definition default_pagination :: pagination_config where
  "default_pagination = \<lparr>pc_limit = None, pc_offset = 0, pc_page_size = 100\<rparr>"

record 'r table_list_result =
  records :: "'r list"
  result_offset :: nat
  total :: "nat option"
  truncated :: bool
  fields_truncated :: bool

definition returned :: "'r table_list_result \<Rightarrow> nat" where
  "returned r = length (records r)"

definition next_offset :: "'r table_list_result \<Rightarrow> nat option" where
  "next_offset r =
     (if truncated r
      then (case checked_add (result_offset r) (returned r) of
              Some n \<Rightarrow> if n > result_offset r then Some n else None
            | None \<Rightarrow> None)
      else None)"

definition page_params ::
  "string option \<Rightarrow> string option \<Rightarrow> bool \<Rightarrow> nat \<Rightarrow> nat \<Rightarrow> (string \<times> string) list" where
  "page_params query flds query_no_domain request_size off =
     [(''sysparm_limit'', show_nat request_size), (''sysparm_offset'', show_nat off)]
     @ (if query_no_domain then [(''sysparm_query_no_domain'', ''true'')] else [])
     @ (case query of Some q \<Rightarrow> [(''sysparm_query'', q)] | None \<Rightarrow> [])
     @ (case flds of Some f \<Rightarrow> [(''sysparm_fields'', f)] | None \<Rightarrow> [])"

definition request_size_for :: "nat option \<Rightarrow> nat \<Rightarrow> nat \<Rightarrow> nat" where
  "request_size_for lim page_size fetched = (case lim of
      Some l \<Rightarrow> min page_size (saturating_sub l fetched) | None \<Rightarrow> page_size)"

definition read_total :: "nat option \<Rightarrow> string option \<Rightarrow> nat option" where
  "read_total tot header = (case tot of
      Some t \<Rightarrow> Some t
    | None \<Rightarrow> (case header of Some h \<Rightarrow> parse_usize (trim h) | None \<Rightarrow> None))"

text \<open>
  The \<open>loop\<close>. It ends with the rows, the total and \<open>maybe_more\<close>, or with an error;
  \<^term>\<open>None\<close> is not returning.
\<close>

partial_function (option) fetch_pages ::
  "('s, 'e, 'r) page_get \<Rightarrow> string \<Rightarrow> string option \<Rightarrow> string option \<Rightarrow> bool \<Rightarrow> nat option \<Rightarrow> nat
   \<Rightarrow> nat \<Rightarrow> 'r list \<Rightarrow> nat option \<Rightarrow> 's
   \<Rightarrow> (('e list_error + 'r list \<times> nat option \<times> bool) \<times> 's) option" where
  "fetch_pages get path query flds nd lim page_size off all_records tot s =
     (let request_size = request_size_for lim page_size (length all_records) in
      case get path (page_params query flds nd request_size off) s of
        (Inl e, s') \<Rightarrow> Some (Inl (ClientFailed e), s')
      | (Inr page, s') \<Rightarrow>
          (let tot' = read_total tot (header_total page);
               count = length (page_result page);
               all' = all_records @ page_result page in
           if lim \<noteq> None \<and> length all' \<ge> the lim then
             Some (Inr (take (the lim) all', tot', length all' > the lim \<or> count = request_size), s')
           else if count < request_size then Some (Inr (all', tot', False), s')
           else if checked_add off request_size = None then Some (Inl OffsetOverflow, s')
           else fetch_pages get path query flds nd lim page_size (off + request_size) all' tot' s'))"

definition list_truncated :: "nat option \<Rightarrow> nat \<Rightarrow> 'r list \<Rightarrow> bool \<Rightarrow> bool" where
  "list_truncated tot off all_records maybe_more = (case tot of
      Some t \<Rightarrow> all_records \<noteq> [] \<and> saturating_add off (length all_records) < t
    | None \<Rightarrow> maybe_more)"

definition get_table_records_with_domain ::
  "('s, 'e, 'r) page_get \<Rightarrow> table_name \<Rightarrow> string option \<Rightarrow> string option \<Rightarrow> pagination_config
   \<Rightarrow> order_by option \<Rightarrow> bool \<Rightarrow> 's \<Rightarrow> (('e list_error + 'r table_list_result) \<times> 's) option" where
  "get_table_records_with_domain get table query flds pc ob query_no_domain s =
     (let query' = (case ob of Some o' \<Rightarrow> Some (apply_to_query o' query) | None \<Rightarrow> query) in
      map_option (map_prod (map_sum id (\<lambda>(rs, tot, mm).
          \<lparr>records = rs, result_offset = pc_offset pc, total = tot,
           truncated = list_truncated tot (pc_offset pc) rs mm, fields_truncated = False\<rparr>)) id)
        (fetch_pages get (table_path table) query' flds query_no_domain
           (pc_limit pc) (pc_page_size pc) (pc_offset pc) [] None s))"

definition get_table_records_with_meta ::
  "('s, 'e, 'r) page_get \<Rightarrow> table_name \<Rightarrow> string option \<Rightarrow> string option \<Rightarrow> pagination_config
   \<Rightarrow> order_by option \<Rightarrow> 's \<Rightarrow> (('e list_error + 'r table_list_result) \<times> 's) option" where
  "get_table_records_with_meta get table query flds pc ob s =
     get_table_records_with_domain get table query flds pc ob False s"

definition get_table_records ::
  "('s, 'e, 'r) page_get \<Rightarrow> table_name \<Rightarrow> string option \<Rightarrow> string option \<Rightarrow> pagination_config
   \<Rightarrow> order_by option \<Rightarrow> 's \<Rightarrow> (('e list_error + 'r list) \<times> 's) option" where
  "get_table_records get table query flds pc ob s =
     map_option (map_prod (map_sum id records) id)
       (get_table_records_with_meta get table query flds pc ob s)"

definition count_table_records ::
  "('s, 'e, 'r) page_get \<Rightarrow> table_name \<Rightarrow> string option \<Rightarrow> 's
   \<Rightarrow> (('e list_error + nat option) \<times> 's) option" where
  "count_table_records get table query s =
     map_option (map_prod (map_sum id total) id)
       (get_table_records_with_meta get table query (Some ''sys_id'')
          (default_pagination\<lparr>pc_page_size := 1, pc_limit := Some 1\<rparr>) None s)"

subsection \<open>The loop ends\<close>

lemma fetch_pages_returns:
  assumes "page_size > 0"
  shows "\<exists>out. fetch_pages get path query flds nd lim page_size off all_records tot s = Some out"
proof (induction "Suc usize_max - off" arbitrary: off all_records tot s rule: less_induct)
  case less
  let ?n = "request_size_for lim page_size (length all_records)"
  obtain r s' where g: "get path (page_params query flds nd ?n off) s = (r, s')"
    by (cases "get path (page_params query flds nd ?n off) s")
  show ?case
  proof (cases r)
    case (Inl e)
    with g show ?thesis by (subst fetch_pages.simps) simp
  next
    case (Inr page)
    let ?all = "all_records @ page_result page"
    let ?stop = "(lim \<noteq> None \<and> length ?all \<ge> the lim) \<or> length (page_result page) < ?n
      \<or> checked_add off ?n = None"
    show ?thesis
    proof (cases ?stop)
      case True
      with g Inr show ?thesis by (subst fetch_pages.simps) (auto simp: Let_def)
    next
      case False
      then have "?n > 0" using assms by (auto simp: request_size_for_def split: option.splits)
      with False have "Suc usize_max - (off + ?n) < Suc usize_max - off" by auto
      from less(1) [OF this] False g Inr show ?thesis
        by (subst fetch_pages.simps) (auto simp: Let_def)
    qed
  qed
qed

lemma fetch_pages_limit:
  assumes "page_size > 0"
    and "fetch_pages get path query flds nd (Some l) page_size off all_records tot s =
           Some (Inr (rs, tot', mm), s')"
  shows "length rs \<le> l"
  using assms(2)
proof (induction "Suc usize_max - off" arbitrary: off all_records tot s rule: less_induct)
  case less
  let ?n = "request_size_for (Some l) page_size (length all_records)"
  obtain r s1 where g: "get path (page_params query flds nd ?n off) s = (r, s1)"
    by (cases "get path (page_params query flds nd ?n off) s")
  show ?case
  proof (cases r)
    case (Inl e)
    with g less(2) show ?thesis by (subst (asm) fetch_pages.simps) simp
  next
    case (Inr page)
    let ?all = "all_records @ page_result page"
    show ?thesis
    proof (cases "length ?all \<ge> l \<or> length (page_result page) < ?n \<or> checked_add off ?n = None")
      case True
      with g Inr less(2) show ?thesis
        by (subst (asm) fetch_pages.simps) (auto simp: Let_def split: if_splits)
    next
      case False
      then have "?n > 0" using assms by (auto simp: request_size_for_def)
      with False have "Suc usize_max - (off + ?n) < Suc usize_max - off" by auto
      moreover from False g Inr less(2)
      have "fetch_pages get path query flds nd (Some l) page_size (off + ?n) ?all
          (read_total tot (header_total page)) s1 = Some (Inr (rs, tot', mm), s')"
        by (subst (asm) fetch_pages.simps) (simp add: Let_def)
      ultimately show ?thesis by (rule less(1))
    qed
  qed
qed

text \<open>
  C20. A table read always returns: whatever the server answers, with a positive page size
  the loop ends, in a result or an error, and a result holds at most the requested limit of
  rows.
\<close>

theorem table_read_terminates:
  assumes "pc_page_size pc > 0"
  shows "\<exists>r s'. get_table_records_with_domain get table query flds pc ob nd s = Some (r, s')
    \<and> (\<forall>res l. r = Inr res \<longrightarrow> pc_limit pc = Some l \<longrightarrow> returned res \<le> l)"
proof -
  let ?q = "case ob of Some o' \<Rightarrow> Some (apply_to_query o' query) | None \<Rightarrow> query"
  obtain r0 s' where f: "fetch_pages get (table_path table) ?q flds nd (pc_limit pc)
      (pc_page_size pc) (pc_offset pc) [] None s = Some (r0, s')"
    using fetch_pages_returns [OF assms] by fastforce
  have "\<forall>rs tot' mm l. r0 = Inr (rs, tot', mm) \<longrightarrow> pc_limit pc = Some l \<longrightarrow> length rs \<le> l"
    using fetch_pages_limit [OF assms] f by fastforce
  with f show ?thesis
    by (cases r0) (auto simp: get_table_records_with_domain_def returned_def)
qed

text \<open>A server that always answers a full page keeps the default read going until the limit.\<close>

theorem table_read_terminates_witness:
  "\<exists>r s'. get_table_records_with_domain
      (\<lambda>p ps n. (Inr \<lparr>header_total = None, page_result = [n, n]\<rparr> :: string + nat page_response, Suc n))
      (TableName ''incident'') None None \<lparr>pc_limit = Some 3, pc_offset = 0, pc_page_size = 2\<rparr>
      None False 0 = Some (r, s')"
  using table_read_terminates [of "\<lparr>pc_limit = Some 3, pc_offset = 0, pc_page_size = 2\<rparr>"
      "\<lambda>p ps n. (Inr \<lparr>header_total = None, page_result = [n, n]\<rparr> :: string + nat page_response, Suc n)"
      "TableName ''incident''" None None None False 0]
  by auto

subsection \<open>The rows read are the rows of the table\<close>

text \<open>
  The documented behaviour of the Table API: a request for \<open>n\<close> rows at an offset answers those
  of the matching rows that exist, and every response carries the same total header.
\<close>

definition serves_rows ::
  "('s, 'e, 'r) page_get \<Rightarrow> string \<Rightarrow> string option \<Rightarrow> string option \<Rightarrow> bool
   \<Rightarrow> 'r list \<Rightarrow> string option \<Rightarrow> bool" where
  "serves_rows get path query flds nd rows header \<longleftrightarrow>
     (\<forall>n off s. n \<le> usize_max \<longrightarrow> off \<le> usize_max \<longrightarrow>
        get path (page_params query flds nd n off) s =
          (Inr \<lparr>header_total = header, page_result = take n (drop off rows)\<rparr>, s))"

definition take_limit :: "nat option \<Rightarrow> 'r list \<Rightarrow> 'r list" where
  "take_limit lim rs = (case lim of Some l \<Rightarrow> take l rs | None \<Rightarrow> rs)"

definition hits_limit :: "nat option \<Rightarrow> 'r list \<Rightarrow> bool" where
  "hits_limit lim rs = (case lim of Some l \<Rightarrow> l \<le> length rs | None \<Rightarrow> False)"

lemma read_total_idem [simp]: "read_total (read_total tot h) h = read_total tot h"
  by (auto simp: read_total_def split: option.splits)

lemma fetch_pages_exact:
  assumes srv: "serves_rows get path query flds nd rows header"
    and ps: "page_size > 0" and fits: "off + length rows + page_size \<le> usize_max"
  shows "\<lbrakk>k \<le> length (drop off rows); \<forall>l. lim = Some l \<longrightarrow> k \<le> l\<rbrakk> \<Longrightarrow>
    fetch_pages get path query flds nd lim page_size (off + k) (take k (drop off rows)) tot s =
      Some (Inr (take_limit lim (drop off rows), read_total tot header, hits_limit lim (drop off rows)), s)"
proof (induction "length (drop off rows) - k" arbitrary: k tot rule: less_induct)
  case less
  let ?R = "drop off rows"
  let ?n = "request_size_for lim page_size k"
  let ?page = "take ?n (drop (off + k) rows)"
  have k: "k \<le> length ?R" using less(2) .
  then have len: "length (take k ?R) = k" by simp
  have n: "?n \<le> page_size" by (auto simp: request_size_for_def split: option.split)
  have bounds: "?n \<le> usize_max" "off + k \<le> usize_max" using n fits k by auto
  have get: "get path (page_params query flds nd ?n (off + k)) s =
      (Inr \<lparr>header_total = header, page_result = ?page\<rparr>, s)"
    using srv bounds unfolding serves_rows_def by blast
  have all': "take k ?R @ ?page = take (k + ?n) ?R"
    by (simp add: take_add add.commute)
  have step: "fetch_pages get path query flds nd lim page_size (off + k) (take k ?R) tot s =
     (if lim \<noteq> None \<and> length (take (k + ?n) ?R) \<ge> the lim then
        Some (Inr (take (the lim) (take (k + ?n) ?R), read_total tot header,
          length (take (k + ?n) ?R) > the lim \<or> length ?page = ?n), s)
      else if length ?page < ?n then Some (Inr (take (k + ?n) ?R, read_total tot header, False), s)
      else if checked_add (off + k) ?n = None then Some (Inl OffsetOverflow, s)
      else fetch_pages get path query flds nd lim page_size (off + (k + ?n)) (take (k + ?n) ?R)
             (read_total tot header) s)"
    by (subst fetch_pages.simps) (simp only: len get all' Let_def prod.case sum.case
        page_response.simps add.assoc)
  have lp: "length ?page = min ?n (length ?R - k)" by simp
  show ?case
  proof (cases lim)
    case (Some l)
    then have n_eq: "?n = min page_size (l - k)" by (simp add: request_size_for_def)
    have kl: "k \<le> l" using less(3) Some by simp
    show ?thesis
    proof (cases "l \<le> length (take (k + ?n) ?R)")
      case True
      with n_eq kl have "k + ?n = l" by auto
      with True step Some lp kl show ?thesis
        by (auto simp: take_limit_def hits_limit_def)
    next
      case False
      show ?thesis
      proof (cases "length ?page < ?n")
        case True
        then have "length ?R < k + ?n" using lp by auto
        moreover have "k + ?n \<le> l" using n_eq kl by auto
        ultimately show ?thesis using True False step Some
          by (auto simp: take_limit_def hits_limit_def)
      next
        case mm: False
        then have "k + ?n \<le> length ?R" using lp k by linarith
        moreover have "?n > 0" using ps False n_eq kl k by (auto simp: min_def split: if_splits)
        moreover have "k + ?n \<le> l" using n_eq kl by auto
        moreover have "checked_add (off + k) ?n \<noteq> None"
          using \<open>k + ?n \<le> length ?R\<close> fits by (auto simp: checked_add_def)
        ultimately show ?thesis using less(1) [of "k + ?n" "read_total tot header"] False mm step Some
          by auto
      qed
    qed
  next
    case None
    then have n_eq: "?n = page_size" by (simp add: request_size_for_def)
    show ?thesis
    proof (cases "length ?page < ?n")
      case True
      with lp have "length ?R \<le> k + ?n" by auto
      with True step None show ?thesis by (auto simp: take_limit_def hits_limit_def)
    next
      case False
      then have "k + ?n \<le> length ?R" using lp k by linarith
      moreover have "checked_add (off + k) ?n \<noteq> None"
        using \<open>k + ?n \<le> length ?R\<close> fits by (auto simp: checked_add_def)
      ultimately show ?thesis
        using less(1) [of "k + ?n" "read_total tot header"] False step None n_eq ps by auto
    qed
  qed
qed

text \<open>
  C5. Against a server that pages through a list of matching rows, a read returns exactly the
  rows from the requested offset, up to the limit, whatever the page size; it reports the
  server's total, and it reports truncation exactly when rows after the returned ones exist,
  if the server sends a correct total and at least one row was returned. Without a total it
  reports truncation when the limit was reached.
\<close>

theorem table_read_exact:
  assumes "serves_rows get (table_path table)
      (case ob of Some o' \<Rightarrow> Some (apply_to_query o' query) | None \<Rightarrow> query) flds nd rows header"
    and "pc_page_size pc > 0" "pc_offset pc + length rows + pc_page_size pc \<le> usize_max"
    and "header = None \<or> header = Some (show_nat (length rows))"
  shows "get_table_records_with_domain get table query flds pc ob nd s =
    (let rs = take_limit (pc_limit pc) (drop (pc_offset pc) rows) in
     Some (Inr \<lparr>records = rs, result_offset = pc_offset pc,
                total = (if header = None then None else Some (length rows)),
                truncated = (if header = None then hits_limit (pc_limit pc) (drop (pc_offset pc) rows)
                             else rs \<noteq> [] \<and> pc_offset pc + length rs < length rows),
                fields_truncated = False\<rparr>, s))"
proof -
  let ?q = "case ob of Some o' \<Rightarrow> Some (apply_to_query o' query) | None \<Rightarrow> query"
  have f: "fetch_pages get (table_path table) ?q flds nd (pc_limit pc) (pc_page_size pc)
      (pc_offset pc) [] None s =
    Some (Inr (take_limit (pc_limit pc) (drop (pc_offset pc) rows), read_total None header,
      hits_limit (pc_limit pc) (drop (pc_offset pc) rows)), s)"
    using fetch_pages_exact [OF assms(1-3), of 0 "pc_limit pc" None s] by simp
  have rt: "read_total None header = (if header = None then None else Some (length rows))"
    using assms(3,4) by (auto simp: read_total_def trim_printable show_nat_bytes)
  have le: "length (take_limit (pc_limit pc) (drop (pc_offset pc) rows)) \<le> length rows"
    by (auto simp: take_limit_def split: option.split)
  then have "saturating_add (pc_offset pc) (length (take_limit (pc_limit pc) (drop (pc_offset pc) rows)))
      = pc_offset pc + length (take_limit (pc_limit pc) (drop (pc_offset pc) rows))"
    using assms(3) by (simp add: saturating_add_def)
  with f rt show ?thesis
    by (simp add: get_table_records_with_domain_def list_truncated_def Let_def)
qed

definition demo_rows_server :: "nat list \<Rightarrow> (unit, string, nat) page_get" where
  "demo_rows_server rows path params s =
     (case (map_of params ''sysparm_limit'', map_of params ''sysparm_offset'') of
        (Some n, Some off) \<Rightarrow>
          (case (parse_usize n, parse_usize off) of
             (Some n', Some off') \<Rightarrow>
               (Inr \<lparr>header_total = Some (show_nat (length rows)),
                     page_result = take n' (drop off' rows)\<rparr>, s)
           | _ \<Rightarrow> (Inl ''bad request'', s))
      | _ \<Rightarrow> (Inl ''bad request'', s))"

lemma demo_rows_server_serves:
  "serves_rows (demo_rows_server rows) path query flds nd rows (Some (show_nat (length rows)))"
  by (auto simp: serves_rows_def demo_rows_server_def page_params_def)

theorem table_read_exact_witness:
  "get_table_records_with_domain (demo_rows_server [1, 2, 3, 4, 5]) (TableName ''incident'') None None
     \<lparr>pc_limit = Some 3, pc_offset = 1, pc_page_size = 2\<rparr> None False () =
   Some (Inr \<lparr>records = [2, 3, 4], result_offset = 1, total = Some 5, truncated = True,
              fields_truncated = False\<rparr>, ())"
proof -
  let ?pc = "\<lparr>pc_limit = Some 3, pc_offset = 1, pc_page_size = 2\<rparr>"
  have "1 + length [1, 2, 3, 4, 5 :: nat] + 2 \<le> usize_max" by (simp add: usize_max_def)
  then show ?thesis
    using table_read_exact [OF demo_rows_server_serves, of ?pc "[1, 2, 3, 4, 5]"
        "TableName ''incident''" None None None False "()"]
    by (simp add: take_limit_def)
qed

text \<open>
  The next offset a truncated result advertises always makes progress and is exactly the
  index after the last returned row; a result that returned nothing advertises none.
\<close>

theorem next_offset_progress:
  "next_offset r = Some n \<longleftrightarrow>
     truncated r \<and> n = result_offset r + returned r \<and> 0 < returned r \<and> n \<le> usize_max"
  by (auto simp: next_offset_def checked_add_def)

end
