(* ===== verification/Hash_Map.thy ===== *)
theory Hash_Map
  imports Snow_Prelude "HOL-Library.AList" "HOL-Library.Multiset"
begin

text \<open>
  \<open>HashMap<String, V>\<close> and the interface the code uses it through. A map is an association list
  with distinct keys. The order in which the source iterates is not specified: code that takes
  a key from an iteration gets it through the argument \<open>iter\<close>, which permutes the keys.
\<close>

locale key_value_map =
  fixes empty :: 'm
    and get :: "'m \<Rightarrow> 'k \<Rightarrow> 'v option"
    and insert :: "'k \<Rightarrow> 'v \<Rightarrow> 'm \<Rightarrow> 'm"
    and remove :: "'k \<Rightarrow> 'm \<Rightarrow> 'm"
  assumes get_empty: "get empty k = None"
    and get_insert: "get (insert k v m) k' = (if k' = k then Some v else get m k')"
    and get_remove: "get (remove k m) k' = (if k' = k then None else get m k')"
begin

text \<open>The keys under which an entry is found.\<close>

definition key_set :: "'m \<Rightarrow> 'k set" where
  "key_set m = {k. get m k \<noteq> None}"

lemma key_set_empty: "key_set empty = {}"
  by (simp add: key_set_def get_empty)

lemma key_set_insert: "key_set (insert k v m) = Set.insert k (key_set m)"
  by (auto simp: key_set_def get_insert)

lemma key_set_remove: "key_set (remove k m) = key_set m - {k}"
  by (auto simp: key_set_def get_remove)

lemma get_fold_insert_other:
  "k \<notin> fst ` set kvs \<Longrightarrow> get (fold (\<lambda>(k, v). insert k v) kvs m) k = get m k"
  by (induction kvs arbitrary: m) (auto simp: get_insert)

text \<open>Inserting entries one by one, the last one for a key is the one found.\<close>

lemma get_fold_insert:
  "get (fold (\<lambda>(k, v). insert k v) kvs m) k =
     (case map_of (rev kvs) k of Some v \<Rightarrow> Some v | None \<Rightarrow> get m k)"
  by (induction kvs arbitrary: m)
    (auto simp: get_insert map_add_def split: option.splits)

lemma insert_after_remove: "get (insert k v (remove k m)) k' = get (insert k v m) k'"
  by (simp add: get_insert get_remove)

end

type_synonym 'v hash_map = "(string \<times> 'v) list"

definition hm_get :: "'v hash_map \<Rightarrow> string \<Rightarrow> 'v option" where
  "hm_get m k = map_of m k"

definition hm_insert :: "string \<Rightarrow> 'v \<Rightarrow> 'v hash_map \<Rightarrow> 'v hash_map" where
  "hm_insert k v m = AList.update k v m"

definition hm_remove :: "string \<Rightarrow> 'v hash_map \<Rightarrow> 'v hash_map" where
  "hm_remove k m = AList.delete k m"

definition hm_keys :: "'v hash_map \<Rightarrow> string list" where
  "hm_keys m = map fst m"

definition hm_contains_key :: "'v hash_map \<Rightarrow> string \<Rightarrow> bool" where
  "hm_contains_key m k \<longleftrightarrow> hm_get m k \<noteq> None"

interpretation hm: key_value_map "[]" hm_get hm_insert hm_remove
  by unfold_locales (auto simp: hm_get_def hm_insert_def hm_remove_def update_conv' AList.delete_conv')

text \<open>The order of an iteration: every key once.\<close>

definition iterates :: "(string list \<Rightarrow> string list) \<Rightarrow> bool" where
  "iterates iter \<longleftrightarrow> (\<forall>ks. mset (iter ks) = mset ks)"

lemma iterates_set: "iterates iter \<Longrightarrow> set (iter ks) = set ks"
  by (metis iterates_def set_mset_mset)

lemma iterates_Nil: "iterates iter \<Longrightarrow> iter ks = [] \<longleftrightarrow> ks = []"
  by (metis iterates_def mset_zero_iff)

lemma hm_keys_set: "set (hm_keys m) = hm.key_set m"
  by (auto simp: hm_keys_def hm.key_set_def hm_get_def map_of_eq_None_iff)

lemma hm_keys_Nil [simp]: "hm_keys m = [] \<longleftrightarrow> m = []"
  by (simp add: hm_keys_def)

lemma hm_contains_key_iff: "hm_contains_key m k \<longleftrightarrow> k \<in> hm.key_set m"
  by (simp add: hm_contains_key_def hm.key_set_def)

lemma hm_distinct [simp]:
  "distinct (hm_keys m) \<Longrightarrow> distinct (hm_keys (hm_insert k v m))"
  "distinct (hm_keys m) \<Longrightarrow> distinct (hm_keys (hm_remove k m))"
  by (simp_all add: hm_keys_def hm_insert_def hm_remove_def distinct_update distinct_delete)

lemma key_set_Nil_iff: "hm.key_set m = {} \<longleftrightarrow> m = []"
  by (metis hm_keys_Nil hm_keys_set set_empty)

end
