(* ===== verification/Json_Value.thy ===== *)
theory Json_Value
  imports Snow_Prelude "HOL-Library.AList"
begin

text \<open>
  \<open>serde_json::Value\<close> and the part of \<open>serde\<close>'s derived decoding the modelled code uses. An
  object is an association list with the lookups of the source's map; only lookups, and never
  its order, matter to the code modelled. A derived struct decoder reads an object by name and
  an array by position; a missing or null field of \<open>Option\<close> type is absent.
\<close>

datatype json_number = IntNumber int | FloatNumber string

datatype json =
    JNull
  | JBool bool
  | JNumber json_number
  | JString string
  | JArray "json list"
  | JObject "(string \<times> json) list"

definition json_get :: "string \<Rightarrow> json \<Rightarrow> json option" where
  "json_get k v = (case v of JObject m \<Rightarrow> map_of m k | _ \<Rightarrow> None)"

definition json_as_str :: "json \<Rightarrow> string option" where
  "json_as_str v = (case v of JString s \<Rightarrow> Some s | _ \<Rightarrow> None)"

definition json_as_array :: "json \<Rightarrow> json list option" where
  "json_as_array v = (case v of JArray vs \<Rightarrow> Some vs | _ \<Rightarrow> None)"

definition json_as_bool :: "json \<Rightarrow> bool option" where
  "json_as_bool v = (case v of JBool b \<Rightarrow> Some b | _ \<Rightarrow> None)"

text \<open>\<open>as_object_mut().insert(key, value)\<close>: no change when the value is not an object.\<close>

definition json_insert :: "string \<Rightarrow> json \<Rightarrow> json \<Rightarrow> json" where
  "json_insert k x v = (case v of JObject m \<Rightarrow> JObject (AList.update k x m) | _ \<Rightarrow> v)"

text \<open>\<open>Value::pointer\<close> on a path of object keys.\<close>

fun json_pointer :: "string list \<Rightarrow> json \<Rightarrow> json option" where
  "json_pointer [] v = Some v"
| "json_pointer (k # ks) v = (case json_get k v of None \<Rightarrow> None | Some w \<Rightarrow> json_pointer ks w)"

lemma json_get_insert:
  "json_get k (json_insert k' x (JObject m)) = (if k = k' then Some x else json_get k (JObject m))"
  by (simp add: json_get_def json_insert_def update_conv)

subsection \<open>Derived decoders\<close>

definition struct_fields :: "string list \<Rightarrow> json \<Rightarrow> (string \<times> json) list option" where
  "struct_fields names v = (case v of
      JObject m \<Rightarrow> Some m
    | JArray vs \<Rightarrow> if length vs \<le> length names then Some (zip names vs) else None
    | _ \<Rightarrow> None)"

definition required :: "(json \<Rightarrow> 'a option) \<Rightarrow> string \<Rightarrow> (string \<times> json) list \<Rightarrow> 'a option" where
  "required dec name m = Option.bind (map_of m name) dec"

definition optional :: "(json \<Rightarrow> 'a option) \<Rightarrow> string \<Rightarrow> (string \<times> json) list \<Rightarrow> 'a option option" where
  "optional dec name m = (case map_of m name of
      None \<Rightarrow> Some None
    | Some JNull \<Rightarrow> Some None
    | Some v \<Rightarrow> map_option Some (dec v))"

definition defaulted :: "'a \<Rightarrow> (json \<Rightarrow> 'a option) \<Rightarrow> string \<Rightarrow> (string \<times> json) list \<Rightarrow> 'a option" where
  "defaulted d dec name m = (case map_of m name of None \<Rightarrow> Some d | Some v \<Rightarrow> dec v)"

definition json_as_u64 :: "json \<Rightarrow> nat option" where
  "json_as_u64 v = (case v of
      JNumber (IntNumber i) \<Rightarrow> if 0 \<le> i \<and> i < 2 ^ 64 then Some (nat i) else None
    | _ \<Rightarrow> None)"

fun decode_all :: "(json \<Rightarrow> 'a option) \<Rightarrow> (string \<times> json) list \<Rightarrow> (string \<times> 'a) list option" where
  "decode_all dec [] = Some []"
| "decode_all dec ((k, v) # m) = (case (dec v, decode_all dec m) of
      (Some x, Some xs) \<Rightarrow> Some ((k, x) # xs) | _ \<Rightarrow> None)"

text \<open>\<open>HashMap<String, T>\<close>.\<close>

definition json_as_map :: "(json \<Rightarrow> 'a option) \<Rightarrow> json \<Rightarrow> (string \<times> 'a) list option" where
  "json_as_map dec v = (case v of JObject m \<Rightarrow> decode_all dec m | _ \<Rightarrow> None)"

text \<open>Encoding of an optional field that is skipped when absent.\<close>

definition skip_none :: "string \<Rightarrow> ('a \<Rightarrow> json) \<Rightarrow> 'a option \<Rightarrow> (string \<times> json) list" where
  "skip_none name enc x = (case x of None \<Rightarrow> [] | Some y \<Rightarrow> [(name, enc y)])"

end
