(* ===== verification/Snu_Protocol.thy ===== *)
theory Snu_Protocol
  imports Json_Value
begin

text \<open>
  Messages of the SN-Utils browser helper: \<open>src/snu/protocol.rs\<close>. The \<open>url\<close> crate's parser
  is the argument \<open>up\<close>, which gives the scheme, the host and the port (explicit or known for the
  scheme) of a string it accepts.
\<close>

record parsed_url =
  pu_scheme :: string
  pu_host :: "string option"
  pu_port :: "nat option"

type_synonym url_parser = "string \<Rightarrow> parsed_url option"

record snu_instance =
  inst_name :: string
  inst_url :: string
  g_ck :: "string option"
  inst_scope :: "string option"

record snu_message =
  action :: "string option"
  agent_request_id :: "string option"
  msg_instance :: "snu_instance option"
  success :: "bool option"
  msg_error :: "json option"
  extra :: "(string \<times> json) list"

definition snu_instance_from_json :: "json \<Rightarrow> snu_instance option" where
  "snu_instance_from_json v =
     (case struct_fields [''name'', ''url'', ''g_ck'', ''scope''] v of
        None \<Rightarrow> None
      | Some m \<Rightarrow>
          (case (required json_as_str ''name'' m, required json_as_str ''url'' m,
                 optional json_as_str ''g_ck'' m, optional json_as_str ''scope'' m) of
             (Some n, Some u, Some k, Some s) \<Rightarrow>
               Some \<lparr>inst_name = n, inst_url = u, g_ck = k, inst_scope = s\<rparr>
           | _ \<Rightarrow> None))"

definition snu_instance_to_json :: "snu_instance \<Rightarrow> json" where
  "snu_instance_to_json i = JObject
     ([(''name'', JString (inst_name i)), (''url'', JString (inst_url i))]
      @ skip_none ''g_ck'' JString (g_ck i) @ skip_none ''scope'' JString (inst_scope i))"

definition snu_message_keys :: "string list" where
  "snu_message_keys = [''action'', ''agentRequestId'', ''instance'', ''success'', ''error'']"

text \<open>\<open>SnuMessage::from_value\<close>; a flattened struct is read from an object only.\<close>

definition snu_message_from_value :: "json \<Rightarrow> snu_message option" where
  "snu_message_from_value v = (case v of
      JObject m \<Rightarrow>
        (case (optional json_as_str ''action'' m, optional json_as_str ''agentRequestId'' m,
               optional snu_instance_from_json ''instance'' m, optional json_as_bool ''success'' m,
               optional Some ''error'' m) of
           (Some a, Some r, Some i, Some ok, Some e) \<Rightarrow>
             Some \<lparr>action = a, agent_request_id = r, msg_instance = i, success = ok, msg_error = e,
                   extra = filter (\<lambda>(k, _). k \<notin> set snu_message_keys) m\<rparr>
         | _ \<Rightarrow> None)
    | _ \<Rightarrow> None)"

definition is_response_for :: "snu_message \<Rightarrow> string \<Rightarrow> bool" where
  "is_response_for msg correlation_id \<longleftrightarrow> agent_request_id msg = Some correlation_id"

definition option_or :: "'a option \<Rightarrow> 'a option \<Rightarrow> 'a option" where
  "option_or x y = (case x of None \<Rightarrow> y | Some _ \<Rightarrow> x)"

definition error_code :: "snu_message \<Rightarrow> string option" where
  "error_code msg =
     Option.bind (option_or (Option.bind (msg_error msg) (json_get ''code'')) (map_of (extra msg) ''code''))
       json_as_str"

text \<open>
  The text of the helper's error. The rendering of an error that is neither a string nor an
  object with a message is \<open>Value::to_string\<close>, the argument \<open>render\<close>.
\<close>

definition error_text :: "(json \<Rightarrow> string) \<Rightarrow> snu_message \<Rightarrow> string option" where
  "error_text render msg = (case msg_error msg of
      Some (JString t) \<Rightarrow> Some t
    | Some (JObject m) \<Rightarrow>
        option_or (Option.bind (option_or (map_of m ''message'') (map_of m ''detail'')) json_as_str)
          (Some (render (JObject m)))
    | Some other \<Rightarrow> Some (render other)
    | None \<Rightarrow> Option.bind (map_of (extra msg) ''error'') json_as_str)"

subsection \<open>Origins\<close>

definition format_origin :: "string \<Rightarrow> string \<Rightarrow> nat \<Rightarrow> string" where
  "format_origin scheme host port = scheme @ ''://'' @ host @ '':'' @ show_nat port"

definition normalize_origin :: "url_parser \<Rightarrow> string \<Rightarrow> string option" where
  "normalize_origin up url = (case up url of
      None \<Rightarrow> None
    | Some p \<Rightarrow> (case (pu_host p, pu_port p) of
        (Some host, Some port) \<Rightarrow> Some (format_origin (pu_scheme p) host port)
      | _ \<Rightarrow> None))"

definition resolve_origin :: "url_parser \<Rightarrow> string \<Rightarrow> string option" where
  "resolve_origin up input =
     (let t = trim input in
      if t = [] then None
      else (case normalize_origin up t of
              Some o' \<Rightarrow> Some o'
            | None \<Rightarrow> normalize_origin up (''https://'' @ t)))"

definition has_token :: "snu_instance \<Rightarrow> bool" where
  "has_token i \<longleftrightarrow> (case g_ck i of Some t \<Rightarrow> t \<noteq> [] | None \<Rightarrow> False)"

definition redact_session_for_output :: "snu_instance \<Rightarrow> json" where
  "redact_session_for_output i = JObject
     [(''name'', JString (inst_name i)), (''url'', JString (inst_url i)),
      (''has_g_ck'', JBool (has_token i)),
      (''scope'', (case inst_scope i of Some s \<Rightarrow> JString s | None \<Rightarrow> JNull))]"

text \<open>
  What the code relies on of the URL parser: the origin text it formats from a parsed URL is
  itself a URL, with the same scheme, host and port.
\<close>

definition parses_origins :: "url_parser \<Rightarrow> bool" where
  "parses_origins up \<longleftrightarrow> (\<forall>u p host port. up u = Some p \<longrightarrow> pu_host p = Some host \<longrightarrow> pu_port p = Some port \<longrightarrow>
     (\<exists>q. up (format_origin (pu_scheme p) host port) = Some q \<and> pu_scheme q = pu_scheme p
        \<and> pu_host q = Some host \<and> pu_port q = Some port))"

lemma normalize_origin_Some_iff:
  "normalize_origin up u = Some o' \<longleftrightarrow>
     (\<exists>p host port. up u = Some p \<and> pu_host p = Some host \<and> pu_port p = Some port
        \<and> o' = format_origin (pu_scheme p) host port)"
  by (auto simp: normalize_origin_def split: option.splits)

lemma normalize_origin_idem:
  "parses_origins up \<Longrightarrow> normalize_origin up u = Some o' \<Longrightarrow> normalize_origin up o' = Some o'"
  by (fastforce simp: normalize_origin_Some_iff parses_origins_def)

text \<open>A session survives its encoding, with or without a token and a scope.\<close>

lemma snu_instance_json_round_trip [simp]:
  "snu_instance_from_json (snu_instance_to_json i) = Some i"
  by (cases i) (auto simp: snu_instance_from_json_def snu_instance_to_json_def struct_fields_def
      required_def optional_def json_as_str_def skip_none_def split: option.splits)

text \<open>A redacted session depends on the token only through its presence.\<close>

lemma redact_hides_token:
  "has_token i = has_token (i\<lparr>g_ck := k\<rparr>) \<Longrightarrow>
     redact_session_for_output (i\<lparr>g_ck := k\<rparr>) = redact_session_for_output i"
  by (simp add: redact_session_for_output_def)

end
