(* ===== verification/Snu_Gates.thy ===== *)
theory Snu_Gates
  imports Snu_Protocol
begin

text \<open>
  The helper's per-instance security gates: \<open>src/snu/gates.rs\<close>. Snapshots are kept per
  normalized origin in an association list that stands for the source's hash map.
\<close>

datatype gate_mode = Off | Approve | AutoRun

datatype gate_name = BackgroundScripts | DeleteRecords | CreateArtifacts | RestRequest | BrowserDebugger

definition gate_name_str :: "gate_name \<Rightarrow> string" where
  "gate_name_str g = (case g of BackgroundScripts \<Rightarrow> ''backgroundScripts''
     | DeleteRecords \<Rightarrow> ''deleteRecords'' | CreateArtifacts \<Rightarrow> ''createArtifacts''
     | RestRequest \<Rightarrow> ''restRequest'' | BrowserDebugger \<Rightarrow> ''browserDebugger'')"

record instance_gates =
  background_scripts :: gate_mode
  delete_records :: gate_mode
  create_artifacts :: gate_mode
  rest_request :: gate_mode
  browser_debugger :: gate_mode

definition gates_mode :: "instance_gates \<Rightarrow> gate_name \<Rightarrow> gate_mode" where
  "gates_mode gs g = (case g of BackgroundScripts \<Rightarrow> background_scripts gs
     | DeleteRecords \<Rightarrow> delete_records gs | CreateArtifacts \<Rightarrow> create_artifacts gs
     | RestRequest \<Rightarrow> rest_request gs | BrowserDebugger \<Rightarrow> browser_debugger gs)"

record gate_snapshot =
  revision :: nat
  gates :: instance_gates

record helper_protocol_capabilities =
  protocol_version :: "nat option"
  command_review :: "nat option"
  rejection_feedback :: "nat option"
  instance_security_gates :: "nat option"

definition default_capabilities :: helper_protocol_capabilities where
  "default_capabilities = \<lparr>protocol_version = None, command_review = None,
     rejection_feedback = None, instance_security_gates = None\<rparr>"

record helper_build_info =
  extension_name :: string
  extension_version :: string
  debugger_available :: bool
  capabilities :: helper_protocol_capabilities

record helper_license_info =
  tier :: string
  pro_features :: bool

datatype helper_security_gate_support = UnknownSupport | LegacyUnrestrictedSupport | GatedSupport

record helper_status =
  hs_generation :: nat
  security_gate_support :: helper_security_gate_support
  build :: "helper_build_info option"
  license :: "helper_license_info option"
  instance_gates_of :: "(string \<times> gate_snapshot) list"

definition default_helper_status :: helper_status where
  "default_helper_status = \<lparr>hs_generation = 0, security_gate_support = UnknownSupport,
     build = None, license = None, instance_gates_of = []\<rparr>"

definition gates_advertised :: "helper_protocol_capabilities \<Rightarrow> bool" where
  "gates_advertised c \<longleftrightarrow> (case instance_security_gates c of Some n \<Rightarrow> n | None \<Rightarrow> 0) > 0"

definition advertises_instance_gates :: "helper_status \<Rightarrow> bool" where
  "advertises_instance_gates st = (case build st of
      Some b \<Rightarrow> gates_advertised (capabilities b) | None \<Rightarrow> False)"

definition apply_gate_snapshot :: "string \<Rightarrow> gate_snapshot \<Rightarrow> helper_status \<Rightarrow> helper_status" where
  "apply_gate_snapshot orig snapshot st =
     (let should_replace = (case map_of (instance_gates_of st) orig of
            None \<Rightarrow> True | Some current \<Rightarrow> revision snapshot > revision current) in
      if should_replace
      then st\<lparr>instance_gates_of := AList.update orig snapshot (instance_gates_of st)\<rparr>
      else st)"

datatype capability_negotiation = Legacy nat | Gated helper_status

datatype gate_decision = NotGated | LegacyUnrestricted | Blocked | ApprovalRequired | Automatic

record preflight_result =
  pr_generation :: "nat option"
  pr_origin :: "string option"
  pr_gate :: "gate_name option"
  pr_decision :: gate_decision

record helper_capabilities_report =
  report_protocol :: helper_protocol_capabilities
  report_instance_gates :: "(string \<times> gate_snapshot) list"

subsection \<open>Classifying an action\<close>

definition method_gate :: "string \<Rightarrow> gate_name option" where
  "method_gate method =
     (let m = to_ascii_uppercase method in
      if m = ''GET'' \<or> m = ''HEAD'' \<or> m = ''OPTIONS'' then None
      else if m = ''DELETE'' then Some DeleteRecords
      else Some RestRequest)"

definition gate_for_payload :: "json \<Rightarrow> gate_name option" where
  "gate_for_payload payload = (case Option.bind (json_get ''action'' payload) json_as_str of
      None \<Rightarrow> None
    | Some act \<Rightarrow>
        if act = ''executeBackgroundScript'' \<or> act = ''agentRunBackgroundScript''
        then Some BackgroundScripts
        else if act = ''createRecord'' \<or> act = ''uploadAttachment'' then Some CreateArtifacts
        else if act = ''takeScreenshot'' then Some BrowserDebugger
        else if act = ''agentRestApi'' then
          method_gate (case Option.bind (json_get ''method'' payload) json_as_str of
                         Some m \<Rightarrow> m | None \<Rightarrow> ''GET'')
        else if starts_with act ''agentCdp'' then Some BrowserDebugger
        else None)"

definition payload_origin :: "url_parser \<Rightarrow> json \<Rightarrow> string option" where
  "payload_origin up payload =
     Option.bind (Option.bind
       (option_or (json_pointer [''instance'', ''url''] payload) (json_get ''url'' payload))
       json_as_str) (normalize_origin up)"

subsection \<open>Decoding the helper's reports\<close>

definition gate_mode_named :: "string \<Rightarrow> gate_mode option" where
  "gate_mode_named s = (if s = ''off'' then Some Off else if s = ''approve'' then Some Approve
     else if s = ''auto'' then Some AutoRun else None)"

text \<open>A unit variant is its name, or an object with the name as its only key and null as value.\<close>

definition gate_mode_from_json :: "json \<Rightarrow> gate_mode option" where
  "gate_mode_from_json v = (case v of
      JString s \<Rightarrow> gate_mode_named s
    | JObject [(s, JNull)] \<Rightarrow> gate_mode_named s
    | _ \<Rightarrow> None)"

definition instance_gates_from_json :: "json \<Rightarrow> instance_gates option" where
  "instance_gates_from_json v =
     (case struct_fields [''backgroundScripts'', ''deleteRecords'', ''createArtifacts'',
             ''restRequest'', ''browserDebugger''] v of
        None \<Rightarrow> None
      | Some m \<Rightarrow>
          (case (required gate_mode_from_json ''backgroundScripts'' m,
                 required gate_mode_from_json ''deleteRecords'' m,
                 required gate_mode_from_json ''createArtifacts'' m,
                 required gate_mode_from_json ''restRequest'' m,
                 required gate_mode_from_json ''browserDebugger'' m) of
             (Some a, Some b, Some c, Some d, Some e) \<Rightarrow>
               Some \<lparr>background_scripts = a, delete_records = b, create_artifacts = c,
                     rest_request = d, browser_debugger = e\<rparr>
           | _ \<Rightarrow> None))"

definition gate_snapshot_from_json :: "json \<Rightarrow> gate_snapshot option" where
  "gate_snapshot_from_json v = (case struct_fields [''revision'', ''gates''] v of
      None \<Rightarrow> None
    | Some m \<Rightarrow> (case (required json_as_u64 ''revision'' m, required instance_gates_from_json ''gates'' m) of
        (Some r, Some g) \<Rightarrow> Some \<lparr>revision = r, gates = g\<rparr> | _ \<Rightarrow> None))"

definition capabilities_from_json :: "json \<Rightarrow> helper_protocol_capabilities option" where
  "capabilities_from_json v =
     (case struct_fields [''protocolVersion'', ''commandReview'', ''rejectionFeedback'',
             ''instanceSecurityGates''] v of
        None \<Rightarrow> None
      | Some m \<Rightarrow>
          (case (optional json_as_u64 ''protocolVersion'' m, optional json_as_u64 ''commandReview'' m,
                 optional json_as_u64 ''rejectionFeedback'' m,
                 optional json_as_u64 ''instanceSecurityGates'' m) of
             (Some a, Some b, Some c, Some d) \<Rightarrow>
               Some \<lparr>protocol_version = a, command_review = b, rejection_feedback = c,
                     instance_security_gates = d\<rparr>
           | _ \<Rightarrow> None))"

definition build_info_from_json :: "json \<Rightarrow> helper_build_info option" where
  "build_info_from_json v =
     (case struct_fields [''extensionName'', ''extensionVersion'', ''debuggerAvailable'', ''capabilities''] v of
        None \<Rightarrow> None
      | Some m \<Rightarrow>
          (case (required json_as_str ''extensionName'' m, required json_as_str ''extensionVersion'' m,
                 required json_as_bool ''debuggerAvailable'' m,
                 defaulted default_capabilities capabilities_from_json ''capabilities'' m) of
             (Some n, Some ver, Some d, Some c) \<Rightarrow>
               Some \<lparr>extension_name = n, extension_version = ver, debugger_available = d, capabilities = c\<rparr>
           | _ \<Rightarrow> None))"

definition license_info_from_json :: "json \<Rightarrow> helper_license_info option" where
  "license_info_from_json v = (case struct_fields [''tier'', ''proFeatures''] v of
      None \<Rightarrow> None
    | Some m \<Rightarrow> (case (required json_as_str ''tier'' m, required json_as_bool ''proFeatures'' m) of
        (Some t, Some p) \<Rightarrow> Some \<lparr>tier = t, pro_features = p\<rparr> | _ \<Rightarrow> None))"

text \<open>
  \<open>from_value\<close>: the origins of the report are normalized and those that are not URLs are
  dropped. Where two of them normalize to one origin, the source keeps the one its hash map
  iterates last; the order is that of the decoded list here.
\<close>

definition helper_capabilities_report_from_value ::
  "url_parser \<Rightarrow> json \<Rightarrow> helper_capabilities_report option" where
  "helper_capabilities_report_from_value up v =
     (case struct_fields [''capabilities'', ''instanceGates''] v of
        None \<Rightarrow> None
      | Some m \<Rightarrow>
          (case (defaulted default_capabilities capabilities_from_json ''capabilities'' m,
                 defaulted [] (json_as_map gate_snapshot_from_json) ''instanceGates'' m) of
             (Some c, Some gs) \<Rightarrow>
               Some \<lparr>report_protocol = c,
                     report_instance_gates =
                       fold (\<lambda>(orig, snap) acc. case normalize_origin up orig of
                               Some canon \<Rightarrow> AList.update canon snap acc | None \<Rightarrow> acc) gs []\<rparr>
           | _ \<Rightarrow> None))"

definition supports_instance_gates :: "helper_capabilities_report \<Rightarrow> bool" where
  "supports_instance_gates r = gates_advertised (report_protocol r)"

subsection \<open>Revisions\<close>

definition stored_revision :: "helper_status \<Rightarrow> string \<Rightarrow> nat option" where
  "stored_revision st orig = map_option revision (map_of (instance_gates_of st) orig)"

lemma apply_gate_snapshot_frame [simp]:
  "hs_generation (apply_gate_snapshot orig snapshot st) = hs_generation st"
  "security_gate_support (apply_gate_snapshot orig snapshot st) = security_gate_support st"
  "build (apply_gate_snapshot orig snapshot st) = build st"
  "license (apply_gate_snapshot orig snapshot st) = license st"
  by (simp_all add: apply_gate_snapshot_def Let_def)

lemma stored_revision_apply:
  "stored_revision (apply_gate_snapshot orig snapshot st) o' =
     (if o' = orig
      then Some (case stored_revision st orig of None \<Rightarrow> revision snapshot
                 | Some r \<Rightarrow> max r (revision snapshot))
      else stored_revision st o')"
  by (auto simp: stored_revision_def apply_gate_snapshot_def Let_def update_conv max_def
      split: option.splits)

fun apply_snapshots :: "(string \<times> gate_snapshot) list \<Rightarrow> helper_status \<Rightarrow> helper_status" where
  "apply_snapshots [] st = st"
| "apply_snapshots ((orig, snap) # rest) st = apply_snapshots rest (apply_gate_snapshot orig snap st)"

lemma apply_snapshots_frame [simp]:
  "hs_generation (apply_snapshots ss st) = hs_generation st"
  "security_gate_support (apply_snapshots ss st) = security_gate_support st"
  "build (apply_snapshots ss st) = build st"
  by (induction ss arbitrary: st) auto

lemma stored_revision_mono:
  "stored_revision st o' = Some r \<Longrightarrow> \<exists>r'. stored_revision (apply_snapshots ss st) o' = Some r' \<and> r \<le> r'"
proof (induction ss arbitrary: st r)
  case Nil
  then show ?case by simp
next
  case (Cons s ss)
  obtain orig snap where s: "s = (orig, snap)" by (cases s)
  have "\<exists>r1. stored_revision (apply_gate_snapshot orig snap st) o' = Some r1 \<and> r \<le> r1"
    using Cons.prems by (auto simp: stored_revision_apply)
  then obtain r1 where "stored_revision (apply_gate_snapshot orig snap st) o' = Some r1" "r \<le> r1"
    by blast
  with Cons.IH [of "apply_gate_snapshot orig snap st" r1] s show ?case by fastforce
qed

lemma stored_revision_received:
  "(orig, snap) \<in> set ss \<Longrightarrow> \<exists>r. stored_revision (apply_snapshots ss st) orig = Some r \<and> revision snap \<le> r"
proof (induction ss arbitrary: st)
  case Nil
  then show ?case by simp
next
  case (Cons s ss)
  show ?case
  proof (cases "s = (orig, snap)")
    case True
    have "\<exists>r. stored_revision (apply_gate_snapshot orig snap st) orig = Some r \<and> revision snap \<le> r"
      by (auto simp: stored_revision_apply split: option.split)
    then obtain r where "stored_revision (apply_gate_snapshot orig snap st) orig = Some r"
      "revision snap \<le> r" by blast
    with stored_revision_mono [of "apply_gate_snapshot orig snap st" orig r ss] True show ?thesis
      by fastforce
  next
    case False
    with Cons show ?thesis by (cases s) auto
  qed
qed

text \<open>
  C22. Gate state never goes back: after any sequence of pushed snapshots, the state kept for an
  origin is at least as recent as every snapshot received for it and as the one it held
  before, so a snapshot that arrives late cannot reopen a gate a newer one closed.
\<close>

theorem gate_state_is_monotone:
  "(orig, snap) \<in> set ss \<or> map_of (instance_gates_of st) orig = Some snap \<Longrightarrow>
     \<exists>kept. map_of (instance_gates_of (apply_snapshots ss st)) orig = Some kept
       \<and> revision snap \<le> revision kept"
  using stored_revision_received [of orig snap ss st]
    stored_revision_mono [of st orig "revision snap" ss]
  by (auto simp: stored_revision_def)

definition demo_gates :: instance_gates where
  "demo_gates = \<lparr>background_scripts = Off, delete_records = Off, create_artifacts = Approve,
     rest_request = AutoRun, browser_debugger = Off\<rparr>"

theorem gate_state_is_monotone_witness:
  "\<exists>kept. map_of (instance_gates_of (apply_snapshots
       [(''o'', \<lparr>revision = 7, gates = demo_gates\<rparr>), (''o'', \<lparr>revision = 3, gates = demo_gates\<rparr>)]
       default_helper_status)) ''o'' = Some kept \<and> 7 \<le> revision kept"
  using gate_state_is_monotone [of "''o''" "\<lparr>revision = 7, gates = demo_gates\<rparr>"
      "[(''o'', \<lparr>revision = 7, gates = demo_gates\<rparr>), (''o'', \<lparr>revision = 3, gates = demo_gates\<rparr>)]"]
  by simp

end
