(* ===== verification/Session_Store.thy ===== *)
theory Session_Store
  imports Hash_Map Snu_Gates "HOL-Library.List_Lexorder" "HOL-Library.Char_ord"
begin

text \<open>
  The broker's in-memory session cache and its snapshot on disk: \<open>BrokerState\<close>, its methods and
  the persistence functions of \<open>src/snu/broker.rs\<close>. The clock is an argument (seconds since the
  epoch), \<open>iter\<close> is the order in which a hash map gives its keys.
\<close>

record session_meta =
  captured_at :: "nat option"
  last_verified_at :: "nat option"

definition default_session_meta :: session_meta where
  "default_session_meta = \<lparr>captured_at = None, last_verified_at = None\<rparr>"

record broker_state =
  sessions_by_origin :: "snu_instance hash_map"
  meta_by_origin :: "session_meta hash_map"
  latest_origin :: "string option"
  last_activity :: nat
  active_clients :: nat
  in_flight :: nat
  shutdown :: bool
  idle_timeout :: nat

definition new_broker_state :: "nat \<Rightarrow> nat \<Rightarrow> broker_state" where
  "new_broker_state idle now = \<lparr>sessions_by_origin = [], meta_by_origin = [], latest_origin = None,
     last_activity = now, active_clients = 0, in_flight = 0, shutdown = False, idle_timeout = idle\<rparr>"

record instance_summary =
  sum_url :: string
  sum_origin :: string
  sum_has_g_ck :: bool
  sum_scope :: "string option"
  sum_is_latest :: bool
  sum_captured_at :: "nat option"
  sum_last_verified_at :: "nat option"

record broker_status =
  browser_connected :: bool
  helper :: helper_status
  session_count :: nat
  latest_instance_url :: "string option"
  status_instances :: "instance_summary list"
  idle_timeout_secs :: nat

definition touch :: "nat \<Rightarrow> broker_state \<Rightarrow> broker_state" where
  "touch now st = st\<lparr>last_activity := now\<rparr>"

definition remember_session ::
  "url_parser \<Rightarrow> nat \<Rightarrow> snu_instance \<Rightarrow> broker_state \<Rightarrow> broker_state" where
  "remember_session up now i st = (case normalize_origin up (inst_url i) of
      None \<Rightarrow> st
    | Some orig \<Rightarrow>
        (let token_changed = (case hm_get (sessions_by_origin st) orig of
               None \<Rightarrow> True | Some existing \<Rightarrow> g_ck existing \<noteq> g_ck i);
             st1 = (if token_changed
               then st\<lparr>meta_by_origin := hm_insert orig
                      \<lparr>captured_at = Some now, last_verified_at = None\<rparr> (meta_by_origin st)\<rparr>
               else st)
         in st1\<lparr>sessions_by_origin := hm_insert orig i (sessions_by_origin st1),
                latest_origin := Some orig\<rparr>))"

definition mark_verified :: "nat \<Rightarrow> string \<Rightarrow> broker_state \<Rightarrow> broker_state" where
  "mark_verified now orig st =
     (if hm_contains_key (sessions_by_origin st) orig
      then (let meta = (case hm_get (meta_by_origin st) orig of
                  Some m \<Rightarrow> m | None \<Rightarrow> default_session_meta)
            in st\<lparr>meta_by_origin := hm_insert orig (meta\<lparr>last_verified_at := Some now\<rparr>)
                    (meta_by_origin st)\<rparr>)
      else st)"

definition session_for_origin :: "broker_state \<Rightarrow> string \<Rightarrow> snu_instance option" where
  "session_for_origin st orig = hm_get (sessions_by_origin st) orig"

definition latest_session :: "broker_state \<Rightarrow> snu_instance option" where
  "latest_session st = Option.bind (latest_origin st) (hm_get (sessions_by_origin st))"

text \<open>The first key of an iteration, if there is one.\<close>

definition next_key :: "(string list \<Rightarrow> string list) \<Rightarrow> 'v hash_map \<Rightarrow> string option" where
  "next_key iter m = (case iter (hm_keys m) of [] \<Rightarrow> None | k # _ \<Rightarrow> Some k)"

definition clear_origin ::
  "(string list \<Rightarrow> string list) \<Rightarrow> string \<Rightarrow> broker_state \<Rightarrow> bool \<times> broker_state" where
  "clear_origin iter orig st =
     (let removed = hm_contains_key (sessions_by_origin st) orig;
          remaining = hm_remove orig (sessions_by_origin st)
      in (removed,
          st\<lparr>sessions_by_origin := remaining,
             meta_by_origin := hm_remove orig (meta_by_origin st),
             latest_origin := (if latest_origin st = Some orig then next_key iter remaining
                               else latest_origin st)\<rparr>))"

definition clear_all :: "(string list \<Rightarrow> string list) \<Rightarrow> broker_state \<Rightarrow> string list \<times> broker_state" where
  "clear_all iter st =
     (iter (hm_keys (sessions_by_origin st)),
      st\<lparr>sessions_by_origin := [], meta_by_origin := [], latest_origin := None\<rparr>)"

definition restore_sessions ::
  "(string list \<Rightarrow> string list) \<Rightarrow> snu_instance hash_map \<Rightarrow> string option \<Rightarrow> broker_state \<Rightarrow> broker_state" where
  "restore_sessions iter sessions latest st =
     (if sessions = [] then st
      else st\<lparr>latest_origin := option_or
                (case latest of Some orig \<Rightarrow> if hm_contains_key sessions orig then Some orig else None
                 | None \<Rightarrow> None)
                (next_key iter sessions),
              sessions_by_origin := sessions\<rparr>)"

definition instance_summary_of :: "broker_state \<Rightarrow> string \<Rightarrow> snu_instance \<Rightarrow> instance_summary" where
  "instance_summary_of st orig i =
     (let meta = (case hm_get (meta_by_origin st) orig of Some m \<Rightarrow> m | None \<Rightarrow> default_session_meta) in
      \<lparr>sum_url = inst_url i, sum_origin = orig, sum_has_g_ck = has_token i, sum_scope = inst_scope i,
       sum_is_latest = (latest_origin st = Some orig), sum_captured_at = captured_at meta,
       sum_last_verified_at = last_verified_at meta\<rparr>)"

definition status :: "(string list \<Rightarrow> string list) \<Rightarrow> bool \<Rightarrow> helper_status \<Rightarrow> broker_state \<Rightarrow> broker_status" where
  "status iter connected h st =
     \<lparr>browser_connected = connected, helper = h,
      session_count = length (sessions_by_origin st),
      latest_instance_url = map_option inst_url (latest_session st),
      status_instances = sort_key sum_origin
        (map (\<lambda>orig. instance_summary_of st orig (the (hm_get (sessions_by_origin st) orig)))
          (iter (hm_keys (sessions_by_origin st)))),
      idle_timeout_secs = idle_timeout st\<rparr>"

subsection \<open>The snapshot on disk\<close>

record persisted_sessions =
  saved_at :: nat
  persisted_latest :: "string option"
  persisted_map :: "snu_instance hash_map"

definition persisted_session_max_age_secs :: nat where
  "persisted_session_max_age_secs = 12 * 60 * 60"

definition session_snapshot_is_fresh :: "nat \<Rightarrow> nat \<Rightarrow> bool" where
  "session_snapshot_is_fresh saved now \<longleftrightarrow> saturating_sub now saved \<le> persisted_session_max_age_secs"

text \<open>
  The cache file is the JSON text of a snapshot; the serializer and the file system are taken
  at their word, so the file is the snapshot it decodes to.
\<close>

definition write_session_cache ::
  "snu_instance hash_map \<Rightarrow> string option \<Rightarrow> nat \<Rightarrow> persisted_sessions option" where
  "write_session_cache sessions latest now =
     (if sessions = [] then None
      else Some \<lparr>saved_at = now, persisted_latest = latest, persisted_map = sessions\<rparr>)"

definition load_persisted_sessions ::
  "bool \<Rightarrow> nat \<Rightarrow> persisted_sessions option \<Rightarrow> persisted_sessions option" where
  "load_persisted_sessions enabled now file =
     (if \<not> enabled then None
      else (case file of None \<Rightarrow> None
            | Some p \<Rightarrow> if session_snapshot_is_fresh (saved_at p) now then Some p else None))"

text \<open>What a broker does with the snapshot when it starts.\<close>

definition reload_sessions ::
  "(string list \<Rightarrow> string list) \<Rightarrow> bool \<Rightarrow> nat \<Rightarrow> persisted_sessions option \<Rightarrow> broker_state \<Rightarrow> broker_state" where
  "reload_sessions iter enabled now file st = (case load_persisted_sessions enabled now file of
      None \<Rightarrow> st
    | Some p \<Rightarrow> restore_sessions iter (persisted_map p) (persisted_latest p) st)"

text \<open>The idle check of the background task.\<close>

definition idle_check :: "nat \<Rightarrow> broker_state \<Rightarrow> broker_state" where
  "idle_check now st =
     (if shutdown st then st
      else if active_clients st = 0 \<and> in_flight st = 0 \<and> now - last_activity st \<ge> idle_timeout st
      then st\<lparr>shutdown := True\<rparr> else st)"

subsection \<open>The cache is consistent\<close>

definition store_wf :: "broker_state \<Rightarrow> bool" where
  "store_wf st \<longleftrightarrow>
     distinct (hm_keys (sessions_by_origin st))
     \<and> set (hm_keys (meta_by_origin st)) \<subseteq> set (hm_keys (sessions_by_origin st))
     \<and> (case latest_origin st of None \<Rightarrow> sessions_by_origin st = []
        | Some orig \<Rightarrow> hm_contains_key (sessions_by_origin st) orig)"

lemma store_wf_iff:
  "store_wf st \<longleftrightarrow> distinct (hm_keys (sessions_by_origin st))
     \<and> hm.key_set (meta_by_origin st) \<subseteq> hm.key_set (sessions_by_origin st)
     \<and> (case latest_origin st of None \<Rightarrow> sessions_by_origin st = []
        | Some orig \<Rightarrow> orig \<in> hm.key_set (sessions_by_origin st))"
  by (simp add: store_wf_def hm_keys_set hm_contains_key_iff split: option.split)

lemma new_broker_state_wf: "store_wf (new_broker_state idle now)"
  by (simp add: store_wf_def new_broker_state_def hm_keys_def)

lemma hm_insert_neq_Nil [simp]: "hm_insert k v m \<noteq> []"
  by (metis empty_iff hm.key_set_empty hm.key_set_insert insertI1)

lemma remember_session_wf: "store_wf st \<Longrightarrow> store_wf (remember_session up now i st)"
  by (auto simp: store_wf_iff remember_session_def Let_def hm.key_set_insert split: option.splits)

lemma mark_verified_wf: "store_wf st \<Longrightarrow> store_wf (mark_verified now orig st)"
  by (auto simp: store_wf_iff mark_verified_def Let_def hm.key_set_insert hm_contains_key_iff
      split: option.splits)

lemma next_key_None: "iterates iter \<Longrightarrow> next_key iter m = None \<longleftrightarrow> m = []"
  using iterates_Nil [of iter "hm_keys m"] by (auto simp: next_key_def split: list.splits)

lemma next_key_Some: "iterates iter \<Longrightarrow> next_key iter m = Some k \<Longrightarrow> k \<in> hm.key_set m"
  using iterates_set [of iter "hm_keys m"] by (auto simp: next_key_def hm_keys_set split: list.splits)

lemma clear_origin_wf: "iterates iter \<Longrightarrow> store_wf st \<Longrightarrow> store_wf (snd (clear_origin iter orig st))"
proof -
  assume it: "iterates iter" and wf: "store_wf st"
  let ?m = "hm_remove orig (sessions_by_origin st)"
  have "case next_key iter ?m of None \<Rightarrow> ?m = [] | Some k \<Rightarrow> k \<in> hm.key_set ?m"
    using next_key_None [OF it, of ?m] next_key_Some [OF it, of ?m] by (auto split: option.split)
  moreover have "hm.key_set ?m = {} \<longleftrightarrow> ?m = []" by (rule key_set_Nil_iff)
  moreover have "hm_remove orig [] = []" by (simp add: hm_remove_def)
  ultimately show ?thesis
    using wf by (auto simp: store_wf_iff clear_origin_def Let_def hm.key_set_remove split: option.splits)
qed

lemma clear_all_wf: "store_wf (snd (clear_all iter st))"
  by (simp add: store_wf_def clear_all_def hm_keys_def)

lemma touch_state_wf: "store_wf (touch now st) = store_wf st"
  by (simp add: store_wf_def touch_def split: option.split)

lemma restore_sessions_wf:
  assumes "iterates iter" "store_wf st" "sessions_by_origin st = []" "distinct (hm_keys sessions)"
  shows "store_wf (restore_sessions iter sessions latest st)"
proof (cases "sessions = []")
  case False
  have m: "hm.key_set (meta_by_origin st) = {}"
    using assms(2,3) by (simp add: store_wf_iff hm.key_set_empty)
  obtain k where k: "next_key iter sessions = Some k"
    using next_key_None [OF assms(1), of sessions] False by auto
  with False m assms(4) next_key_Some [OF assms(1) k] show ?thesis
    by (auto simp: store_wf_iff restore_sessions_def option_or_def hm_contains_key_iff
        split: option.splits)
qed (simp add: restore_sessions_def assms)

subsection \<open>Properties\<close>

lemma map_sort_key: "map f (sort_key f xs) = sort (map f xs)"
  by (rule sym, rule properties_for_sort) simp_all

lemma status_origins:
  "map sum_origin (status_instances (status iter connected h st))
     = sort (iter (hm_keys (sessions_by_origin st)))"
proof -
  have "map (sum_origin \<circ> (\<lambda>orig. instance_summary_of st orig (s orig))) ks = ks" for s ks
    by (induction ks) (simp_all add: instance_summary_of_def Let_def)
  then show ?thesis by (simp add: status_def map_sort_key)
qed

lemma status_latest:
  "x \<in> set (status_instances (status iter connected h st)) \<Longrightarrow>
     sum_is_latest x \<longleftrightarrow> latest_origin st = Some (sum_origin x)"
  "x \<in> set (status_instances (status iter connected h st)) \<Longrightarrow>
     sum_url x = inst_url (the (hm_get (sessions_by_origin st) (sum_origin x)))"
  by (auto simp: status_def instance_summary_of_def Let_def)

lemma length_filter_key:
  "distinct (map f xs) \<Longrightarrow> k \<in> f ` set xs \<Longrightarrow> length (filter (\<lambda>x. f x = k) xs) = 1"
proof (induction xs)
  case (Cons a xs)
  show ?case
  proof (cases "f a = k")
    case True
    with Cons.prems have "filter (\<lambda>x. f x = k) xs = []"
      by (simp add: filter_empty_conv) (metis imageI)
    with True show ?thesis by simp
  next
    case False
    with Cons show ?thesis by simp
  qed
qed simp

text \<open>
  The status report lists every cached session exactly once, in order of origin; the
  count agrees with the list; and exactly one entry is marked as the latest, the one whose URL
  the report gives as the latest instance, unless the cache is empty.
\<close>

theorem status_lists_every_session:
  assumes "iterates iter" "store_wf st"
  shows "map sum_origin (status_instances (status iter connected h st)) = sort (hm_keys (sessions_by_origin st))
    \<and> session_count (status iter connected h st) = length (status_instances (status iter connected h st))
    \<and> length (filter sum_is_latest (status_instances (status iter connected h st)))
        = (if sessions_by_origin st = [] then 0 else 1)
    \<and> (\<forall>x \<in> set (status_instances (status iter connected h st)). sum_is_latest x \<longrightarrow>
        latest_instance_url (status iter connected h st) = Some (sum_url x))"
proof (intro conjI ballI impI)
  let ?r = "status iter connected h st"
  let ?ks = "hm_keys (sessions_by_origin st)"
  have ms: "mset (iter ?ks) = mset ?ks" using assms(1) by (simp add: iterates_def)
  show o: "map sum_origin (status_instances ?r) = sort ?ks"
    unfolding status_origins using ms by (metis mset_sort properties_for_sort sorted_sort)
  have len: "length (status_instances ?r) = length ?ks" using arg_cong [OF o, of length] by simp
  then show "session_count ?r = length (status_instances ?r)" by (simp add: status_def hm_keys_def)
  have d: "distinct (map sum_origin (status_instances ?r))"
    and s: "sum_origin ` set (status_instances ?r) = set ?ks"
    using o assms(2) by (simp_all add: store_wf_def) (metis list.set_map set_sort)
  have f: "filter sum_is_latest (status_instances ?r)
      = filter (\<lambda>x. Some (sum_origin x) = latest_origin st) (status_instances ?r)"
    by (rule filter_cong) (auto simp: status_latest)
  show "length (filter sum_is_latest (status_instances ?r)) = (if sessions_by_origin st = [] then 0 else 1)"
  proof (cases "latest_origin st")
    case None
    with assms(2) len f show ?thesis by (simp add: store_wf_def)
  next
    case (Some k)
    with assms(2) have "k \<in> sum_origin ` set (status_instances ?r)"
      by (simp add: s hm_keys_set store_wf_iff)
    with length_filter_key [OF d] Some f assms(2) show ?thesis
      by (auto simp: store_wf_def hm_contains_key_def hm_get_def)
  qed
  fix x
  assume x: "x \<in> set (status_instances ?r)" "sum_is_latest x"
  with s have "sum_origin x \<in> hm.key_set (sessions_by_origin st)" by (auto simp: hm_keys_set)
  with x status_latest [OF x(1)] show "latest_instance_url ?r = Some (sum_url x)"
    by (auto simp: status_def latest_session_def hm.key_set_def)
qed

definition demo_instance :: "string \<Rightarrow> string \<Rightarrow> snu_instance" where
  "demo_instance url token = \<lparr>inst_name = url, inst_url = url, g_ck = Some token, inst_scope = None\<rparr>"

definition demo_url :: url_parser where
  "demo_url u = Some \<lparr>pu_scheme = ''https'', pu_host = Some u, pu_port = Some 443\<rparr>"

definition demo_store :: broker_state where
  "demo_store = remember_session demo_url 5 (demo_instance ''a'' ''t1'')
     (remember_session demo_url 4 (demo_instance ''b'' ''t2'') (new_broker_state 1800 0))"

lemma demo_store_wf: "store_wf demo_store"
  by (simp add: demo_store_def remember_session_wf new_broker_state_wf)

theorem status_lists_every_session_witness:
  "map sum_origin (status_instances (status rev True default_helper_status demo_store))
     = sort (hm_keys (sessions_by_origin demo_store))"
  using status_lists_every_session [of rev demo_store True default_helper_status]
  by (simp add: demo_store_wf iterates_def)

text \<open>
  C23. A restart keeps the cache: what one broker persists, a broker started within twelve hours
  reads back as the same sessions with the same latest one, and knows nothing of their age;
  a snapshot older than that, a disabled cache or an empty one leave it without sessions.
\<close>

theorem restart_restores_sessions:
  assumes "iterates iter" "store_wf st"
  shows "reload_sessions iter enabled later
      (write_session_cache (sessions_by_origin st) (latest_origin st) now) (new_broker_state idle later)
    = (if enabled \<and> later - now \<le> 12 * 60 * 60
       then (new_broker_state idle later)\<lparr>sessions_by_origin := sessions_by_origin st,
              latest_origin := latest_origin st\<rparr>
       else new_broker_state idle later)"
  using assms by (auto simp: reload_sessions_def write_session_cache_def load_persisted_sessions_def
      session_snapshot_is_fresh_def persisted_session_max_age_secs_def restore_sessions_def
      new_broker_state_def store_wf_def option_or_def hm_contains_key_def hm_get_def
      split: option.splits)

theorem restart_restores_sessions_witness:
  "latest_origin (reload_sessions rev True 3600
      (write_session_cache (sessions_by_origin demo_store) (latest_origin demo_store) 5)
      (new_broker_state 1800 3600)) = latest_origin demo_store"
  using restart_restores_sessions [of rev demo_store True 3600 5 1800]
  by (simp add: demo_store_wf iterates_def)

text \<open>A snapshot dated in the future passes the freshness check, however far ahead it is.\<close>

lemma future_snapshot_is_fresh: "now \<le> saved \<Longrightarrow> session_snapshot_is_fresh saved now"
  by (simp add: session_snapshot_is_fresh_def)

text \<open>
  Bookkeeping of freshness: remembering a session again with the token already cached keeps
  the time it was captured and verified; a new token starts with the time it arrived and is
  unverified; other origins are not touched.
\<close>

theorem remember_session_freshness:
  assumes "normalize_origin up (inst_url i) = Some orig"
  shows "session_for_origin (remember_session up now i st) orig = Some i
    \<and> latest_session (remember_session up now i st) = Some i
    \<and> hm_get (meta_by_origin (remember_session up now i st)) orig =
        (if map_option g_ck (session_for_origin st orig) = Some (g_ck i)
         then hm_get (meta_by_origin st) orig
         else Some \<lparr>captured_at = Some now, last_verified_at = None\<rparr>)
    \<and> (\<forall>other. other \<noteq> orig \<longrightarrow>
        session_for_origin (remember_session up now i st) other = session_for_origin st other
        \<and> hm_get (meta_by_origin (remember_session up now i st)) other = hm_get (meta_by_origin st) other)"
  using assms by (auto simp: remember_session_def session_for_origin_def latest_session_def Let_def
      hm.get_insert split: option.splits)

theorem remember_session_freshness_witness:
  "latest_session (remember_session demo_url 9 (demo_instance ''b'' ''t2'') demo_store)
     = Some (demo_instance ''b'' ''t2'')"
proof -
  have "normalize_origin demo_url (inst_url (demo_instance ''b'' ''t2'')) = Some ''https://b:443''"
    by code_simp
  then show ?thesis by (rule remember_session_freshness [THEN conjunct2, THEN conjunct1])
qed

end
