(* ===== verification/Bridge.thy ===== *)
theory Bridge
  imports Snu_Gates
begin

text \<open>
  The connection manager of \<open>src/snu/bridge.rs\<close>. The state is that of \<open>Inner\<close>: the active
  helper connection, the registered waiters, the negotiated helper status, the queued banner.
  A waiter's oneshot channel is a mailbox entry under the waiter's number, and every frame put
  on an outbound queue is recorded with the generation of its connection.

  What the program does not control (a tab connecting or going away, frames arriving, timers)
  is a list of events. A call that waits consumes events until its answer is there or its
  timer fires; an exhausted list is a timer that fires. Handlers are atomic: between two events
  a handler runs to its end. The third-party parts are fields of \<open>externals\<close>: the URL parser,
  \<open>Value::to_string\<close> and the UUID source.
\<close>

record externals =
  ext_url :: url_parser
  ext_render :: "json \<Rightarrow> string"
  ext_uuid :: "nat \<Rightarrow> string"

datatype bridge_error =
    NotConnected nat
  | Disconnected
  | Timeout nat string
  | ActionFailed string
  | Paused
  | GateStateUnavailable string
  | GateUnauthorized string
  | GateBlocked string string
  | ApprovalTimeout string string
  | PortConflict

definition bridge_error_code :: "bridge_error \<Rightarrow> string" where
  "bridge_error_code e = (case e of
      Paused \<Rightarrow> ''SNU_PAUSED''
    | GateStateUnavailable _ \<Rightarrow> ''SNU_GATE_STATE_UNAVAILABLE''
    | GateUnauthorized _ \<Rightarrow> ''SNU_GATE_UNAUTHORIZED''
    | GateBlocked _ _ \<Rightarrow> ''SNU_GATE_BLOCKED''
    | ApprovalTimeout _ _ \<Rightarrow> ''SNU_APPROVAL_TIMEOUT''
    | _ \<Rightarrow> ''SNU_BRIDGE_ERROR'')"

datatype matcher =
    Correlation string
  | MatchAction string
  | NextMessage
  | SessionPush "string option"

definition instance_matches_session :: "url_parser \<Rightarrow> snu_instance \<Rightarrow> string option \<Rightarrow> bool" where
  "instance_matches_session up i target \<longleftrightarrow>
     (if \<not> has_token i then False
      else (case target of Some t \<Rightarrow> normalize_origin up (inst_url i) = Some t | None \<Rightarrow> True))"

definition matches :: "url_parser \<Rightarrow> matcher \<Rightarrow> snu_message \<Rightarrow> bool" where
  "matches up m msg = (case m of
      Correlation i \<Rightarrow> is_response_for msg i
    | MatchAction a \<Rightarrow> action msg = Some a
    | NextMessage \<Rightarrow> True
    | SessionPush orig \<Rightarrow> (case msg_instance msg of
          Some i \<Rightarrow> instance_matches_session up i orig | None \<Rightarrow> False))"

definition describe :: "matcher \<Rightarrow> string" where
  "describe m = (case m of
      Correlation i \<Rightarrow> ''SN-Utils response '' @ i
    | MatchAction a \<Rightarrow> ''SN-Utils action '' @ a
    | NextMessage \<Rightarrow> ''SN-Utils response''
    | SessionPush (Some orig) \<Rightarrow> ''/token from SN-Utils for '' @ orig
    | SessionPush None \<Rightarrow> ''/token from SN-Utils'')"

definition checks_action_failure :: "matcher \<Rightarrow> bool" where
  "checks_action_failure m \<longleftrightarrow> (case m of Correlation _ \<Rightarrow> True | MatchAction _ \<Rightarrow> True | _ \<Rightarrow> False)"

record waiter =
  w_id :: nat
  w_generation :: "nat option"
  w_matcher :: matcher
  w_closed :: bool

datatype frame = HostHello | Banner string | Payload json | PongFrame | PingFrame

record conn =
  c_generation :: nat
  c_open :: bool \<comment> \<open>the writer task still drains the outbound queue\<close>
  c_last_seen :: nat

record bridge =
  b_connect_timeout :: nat \<comment> \<open>seconds\<close>
  b_heartbeat_interval :: nat
  b_now :: nat
  b_conn :: "conn option"
  b_connected :: bool
  b_waiters :: "waiter list"
  b_mailbox :: "(nat \<times> (bridge_error + snu_message)) list"
  b_next_waiter :: nat
  b_sessions :: "snu_instance list"
  b_ws_bound :: bool
  b_generation :: nat
  b_helper_status :: helper_status
  b_pending_banner :: "string option"
  b_sent :: "(nat \<times> frame) list"

definition new_bridge :: "nat \<Rightarrow> nat \<Rightarrow> bridge" where
  "new_bridge connect_timeout heartbeat =
     \<lparr>b_connect_timeout = connect_timeout, b_heartbeat_interval = heartbeat, b_now = 0,
      b_conn = None, b_connected = False, b_waiters = [], b_mailbox = [], b_next_waiter = 0,
      b_sessions = [], b_ws_bound = True, b_generation = 0,
      b_helper_status = default_helper_status, b_pending_banner = None, b_sent = []\<rparr>"

definition put_frame :: "nat \<Rightarrow> frame \<Rightarrow> bridge \<Rightarrow> bridge" where
  "put_frame gen f b = b\<lparr>b_sent := b_sent b @ [(gen, f)]\<rparr>"

subsection \<open>Connections\<close>

definition fail_waiters_for_generation :: "nat \<Rightarrow> bridge \<Rightarrow> bridge" where
  "fail_waiters_for_generation gen b =
     b\<lparr>b_waiters := filter (\<lambda>w. w_generation w \<noteq> Some gen) (b_waiters b),
       b_mailbox := b_mailbox b @ map (\<lambda>w. (w_id w, Inl Disconnected))
          (filter (\<lambda>w. w_generation w = Some gen) (b_waiters b))\<rparr>"

definition attach_connection :: "bridge \<Rightarrow> bridge" where
  "attach_connection b =
     (let gen = b_generation b + 1;
          previous = b_conn b;
          b1 = b\<lparr>b_generation := gen,
                 b_conn := Some \<lparr>c_generation = gen, c_open = True, c_last_seen = b_now b\<rparr>\<rparr>;
          b2 = (case previous of Some p \<Rightarrow> fail_waiters_for_generation (c_generation p) b1 | None \<Rightarrow> b1);
          b3 = b2\<lparr>b_helper_status := default_helper_status\<lparr>hs_generation := gen\<rparr>\<rparr>;
          b4 = put_frame gen HostHello b3;
          b5 = (case b_pending_banner b4 of
                  Some banner \<Rightarrow> put_frame gen (Banner banner) (b4\<lparr>b_pending_banner := None\<rparr>)
                | None \<Rightarrow> b4)
      in b5\<lparr>b_connected := True\<rparr>)"

definition detach_connection :: "nat \<Rightarrow> bridge \<Rightarrow> bridge" where
  "detach_connection gen b = (case b_conn b of
      Some c \<Rightarrow>
        if c_generation c = gen
        then fail_waiters_for_generation gen (b\<lparr>b_conn := None, b_connected := False\<rparr>)
        else b
    | None \<Rightarrow> b)"

subsection \<open>Messages\<close>

record gate_update =
  gu_origin :: string
  gu_revision :: nat
  gu_gates :: instance_gates

definition gate_update_from_json :: "json \<Rightarrow> gate_update option" where
  "gate_update_from_json v = (case struct_fields [''instanceOrigin'', ''revision'', ''gates''] v of
      None \<Rightarrow> None
    | Some m \<Rightarrow>
        (case (required json_as_str ''instanceOrigin'' m, required json_as_u64 ''revision'' m,
               required instance_gates_from_json ''gates'' m) of
           (Some o', Some r, Some g) \<Rightarrow> Some \<lparr>gu_origin = o', gu_revision = r, gu_gates = g\<rparr>
         | _ \<Rightarrow> None))"

definition capture_status :: "url_parser \<Rightarrow> snu_message \<Rightarrow> helper_status \<Rightarrow> helper_status" where
  "capture_status up msg st =
     (let value = JObject (extra msg) in
      case action msg of
        None \<Rightarrow> st
      | Some act \<Rightarrow>
          if act = ''helperBuildInfo'' then
            (case build_info_from_json value of
               Some bi \<Rightarrow>
                 (if gates_advertised (capabilities bi)
                  then st\<lparr>security_gate_support := GatedSupport\<rparr> else st)\<lparr>build := Some bi\<rparr>
             | None \<Rightarrow> st)
          else if act = ''helperLicenseInfo'' then
            (case license_info_from_json value of Some l \<Rightarrow> st\<lparr>license := Some l\<rparr> | None \<Rightarrow> st)
          else if act = ''helperGatesUpdated'' then
            (case gate_update_from_json value of
               Some u \<Rightarrow> (case normalize_origin up (gu_origin u) of
                   Some orig \<Rightarrow> apply_gate_snapshot orig
                     \<lparr>revision = gu_revision u, gates = gu_gates u\<rparr> st
                 | None \<Rightarrow> st)
             | None \<Rightarrow> st)
          else st)"

definition capture_helper_metadata :: "url_parser \<Rightarrow> snu_message \<Rightarrow> nat \<Rightarrow> bridge \<Rightarrow> bridge" where
  "capture_helper_metadata up msg gen b =
     (if hs_generation (b_helper_status b) \<noteq> gen then b
      else b\<lparr>b_helper_status := capture_status up msg (b_helper_status b)\<rparr>)"

definition fulfill_waiters :: "url_parser \<Rightarrow> snu_message \<Rightarrow> bridge \<Rightarrow> bridge" where
  "fulfill_waiters up msg b =
     b\<lparr>b_waiters := filter (\<lambda>w. \<not> matches up (w_matcher w) msg) (b_waiters b),
       b_mailbox := b_mailbox b @ map (\<lambda>w. (w_id w, Inr msg))
          (filter (\<lambda>w. matches up (w_matcher w) msg) (b_waiters b))\<rparr>"

definition capture_session :: "snu_message \<Rightarrow> bridge \<Rightarrow> bridge" where
  "capture_session msg b = (case msg_instance msg of
      Some i \<Rightarrow> if has_token i then b\<lparr>b_sessions := b_sessions b @ [i]\<rparr> else b
    | None \<Rightarrow> b)"

definition deliver_message :: "url_parser \<Rightarrow> snu_message \<Rightarrow> nat \<Rightarrow> bridge \<Rightarrow> bridge" where
  "deliver_message up msg gen b =
     fulfill_waiters up msg (capture_session msg (capture_helper_metadata up msg gen b))"

datatype inbound =
    TextFrame "json option" \<comment> \<open>the parsed text, if it is JSON\<close>
  | BinaryFrame "json option"
  | InPing
  | InPong
  | InClose

definition deliver_json :: "url_parser \<Rightarrow> json \<Rightarrow> nat \<Rightarrow> bridge \<Rightarrow> bridge" where
  "deliver_json up v gen b = (case snu_message_from_value v of
      Some msg \<Rightarrow> deliver_message up msg gen b | None \<Rightarrow> b)"

text \<open>One turn of \<open>reader_loop\<close> for the connection of a generation.\<close>

definition reader_frame :: "url_parser \<Rightarrow> nat \<Rightarrow> inbound \<Rightarrow> bridge \<Rightarrow> bridge" where
  "reader_frame up gen f b =
     (let b1 = (case b_conn b of
                  Some c \<Rightarrow> if c_generation c = gen
                            then b\<lparr>b_conn := Some (c\<lparr>c_last_seen := b_now b\<rparr>)\<rparr> else b
                | None \<Rightarrow> b)
      in case f of
           TextFrame (Some v) \<Rightarrow>
             (case json_as_array v of Some _ \<Rightarrow> b1 | None \<Rightarrow> deliver_json up v gen b1)
         | TextFrame None \<Rightarrow> b1
         | BinaryFrame (Some v) \<Rightarrow> deliver_json up v gen b1
         | BinaryFrame None \<Rightarrow> b1
         | InPing \<Rightarrow> put_frame gen PongFrame b1
         | InPong \<Rightarrow> b1
         | InClose \<Rightarrow> detach_connection gen b1)"

definition heartbeat :: "bridge \<Rightarrow> bridge" where
  "heartbeat b =
     (let b1 = b\<lparr>b_waiters := filter (\<lambda>w. \<not> w_closed w) (b_waiters b)\<rparr> in
      case b_conn b1 of
        None \<Rightarrow> b1
      | Some c \<Rightarrow>
          if b_now b1 - c_last_seen c > b_heartbeat_interval b1 * 2
          then detach_connection (c_generation c) b1
          else put_frame (c_generation c) PingFrame b1)"

subsection \<open>Requests\<close>

text \<open>
  The section of \<open>request_bound\<close> under the connection lock: the checks against the
  preflighted generation and support state, the registration of the waiter and the enqueue.
\<close>

definition register_and_send ::
  "json \<Rightarrow> matcher \<Rightarrow> nat option \<Rightarrow> helper_security_gate_support option \<Rightarrow> bridge
   \<Rightarrow> (bridge_error + nat) \<times> bridge" where
  "register_and_send payload m expected_generation expected_support b = (case b_conn b of
      None \<Rightarrow> (Inl Disconnected, b)
    | Some c \<Rightarrow>
        if (case expected_generation of Some e \<Rightarrow> e \<noteq> c_generation c | None \<Rightarrow> False)
        then (Inl Disconnected, b)
        else if (case expected_support of
                   Some support \<Rightarrow> hs_generation (b_helper_status b) \<noteq> c_generation c
                     \<or> security_gate_support (b_helper_status b) \<noteq> support
                 | None \<Rightarrow> False)
        then (Inl (GateStateUnavailable ''helper capability state changed after preflight''), b)
        else
          (let n = b_next_waiter b;
               w = \<lparr>w_id = n, w_generation = Some (c_generation c), w_matcher = m,
                    w_closed = \<not> c_open c\<rparr>;
               b1 = b\<lparr>b_waiters := b_waiters b @ [w], b_next_waiter := n + 1\<rparr>
           in if c_open c then (Inr n, put_frame (c_generation c) (Payload payload) b1)
              else (Inl Disconnected, b1)))"

datatype env_event =
    Connects
  | Inbound nat inbound
  | ReaderEnds nat
  | WriterEnds nat
  | HeartbeatTick
  | Elapses nat
  | PortBound bool
  | Concurrent json matcher "nat option" "helper_security_gate_support option"
      \<comment> \<open>another client's request\<close>
  | TimeUp

definition writer_ends :: "nat \<Rightarrow> bridge \<Rightarrow> bridge" where
  "writer_ends gen b = (case b_conn b of
      Some c \<Rightarrow> if c_generation c = gen then b\<lparr>b_conn := Some (c\<lparr>c_open := False\<rparr>)\<rparr> else b
    | None \<Rightarrow> b)"

definition bridge_event :: "url_parser \<Rightarrow> env_event \<Rightarrow> bridge \<Rightarrow> bridge" where
  "bridge_event up e b = (case e of
      Connects \<Rightarrow> attach_connection b
    | Inbound gen f \<Rightarrow> reader_frame up gen f b
    | ReaderEnds gen \<Rightarrow> detach_connection gen b
    | WriterEnds gen \<Rightarrow> writer_ends gen b
    | HeartbeatTick \<Rightarrow> heartbeat b
    | Elapses d \<Rightarrow> b\<lparr>b_now := b_now b + d\<rparr>
    | PortBound ok \<Rightarrow> b\<lparr>b_ws_bound := ok\<rparr>
    | Concurrent p m g support \<Rightarrow> snd (register_and_send p m g support b)
    | TimeUp \<Rightarrow> b)"

type_synonym world = "bridge \<times> env_event list"

text \<open>Waiting for the answer of a waiter; \<^term>\<open>None\<close> when the timer fires first.\<close>

fun await :: "url_parser \<Rightarrow> nat \<Rightarrow> env_event list \<Rightarrow> bridge
    \<Rightarrow> (bridge_error + snu_message) option \<times> world" where
  "await up n evs b = (case map_of (b_mailbox b) n of
      Some r \<Rightarrow> (Some r, b, evs)
    | None \<Rightarrow> (case evs of
        [] \<Rightarrow> (None, b, [])
      | e # es \<Rightarrow> if e = TimeUp then (None, b, es) else await up n es (bridge_event up e b)))"

declare await.simps [simp del]

definition close_receiver :: "nat \<Rightarrow> bridge \<Rightarrow> bridge" where
  "close_receiver n b =
     b\<lparr>b_waiters := map (\<lambda>w. if w_id w = n then w\<lparr>w_closed := True\<rparr> else w) (b_waiters b)\<rparr>"

fun run_until_connected :: "url_parser \<Rightarrow> env_event list \<Rightarrow> bridge \<Rightarrow> bool \<times> world" where
  "run_until_connected up evs b =
     (if b_connected b then (True, b, evs)
      else (case evs of
        [] \<Rightarrow> (False, b, [])
      | e # es \<Rightarrow> if e = TimeUp then (False, b, es)
                  else run_until_connected up es (bridge_event up e b)))"

declare run_until_connected.simps [simp del]

definition wait_connected :: "url_parser \<Rightarrow> nat \<Rightarrow> world \<Rightarrow> (bridge_error + unit) \<times> world" where
  "wait_connected up max_wait wd =
     (case wd of (b, evs) \<Rightarrow>
       if \<not> b_ws_bound b then (Inl PortConflict, b, evs)
       else (case run_until_connected up evs b of
          (True, wd') \<Rightarrow> (Inr (), wd')
        | (False, b', evs') \<Rightarrow>
            (Inl (if b_ws_bound b' then NotConnected max_wait else PortConflict), b', evs')))"

definition connect_budget :: "bridge \<Rightarrow> nat \<Rightarrow> nat" where
  "connect_budget b timeout_secs = min timeout_secs (max (b_connect_timeout b) 1)"

text \<open>The helper's \<open>success == false\<close> / \<open>error\<close> convention.\<close>

definition action_failure :: "(json \<Rightarrow> string) \<Rightarrow> matcher \<Rightarrow> snu_message \<Rightarrow> bridge_error option" where
  "action_failure render m msg =
     (if checks_action_failure m \<and> (success msg = Some False \<or> msg_error msg \<noteq> None)
      then if error_code msg = Some ''E_PAUSED'' then Some Paused
           else Some (ActionFailed (case error_text render msg of Some t \<Rightarrow> t | None \<Rightarrow> ''unknown error''))
      else None)"

definition request_bound ::
  "externals \<Rightarrow> json \<Rightarrow> matcher \<Rightarrow> nat \<Rightarrow> nat option \<Rightarrow> helper_security_gate_support option
   \<Rightarrow> world \<Rightarrow> (bridge_error + snu_message) \<times> world" where
  "request_bound ext payload m timeout_secs expected_generation expected_support wd =
     (case wait_connected (ext_url ext) (connect_budget (fst wd) timeout_secs) wd of
        (Inl e, wd1) \<Rightarrow> (Inl e, wd1)
      | (Inr _, b1, evs1) \<Rightarrow>
          (case register_and_send payload m expected_generation expected_support b1 of
             (Inl e, b2) \<Rightarrow> (Inl e, b2, evs1)
           | (Inr n, b2) \<Rightarrow>
               (case await (ext_url ext) n evs1 b2 of
                  (None, b3, evs3) \<Rightarrow>
                    (Inl (Timeout timeout_secs (describe m)), close_receiver n b3, evs3)
                | (Some (Inl e), wd3) \<Rightarrow> (Inl e, wd3)
                | (Some (Inr msg), wd3) \<Rightarrow>
                    (case action_failure (ext_render ext) m msg of
                       Some e \<Rightarrow> (Inl e, wd3) | None \<Rightarrow> (Inr msg, wd3)))))"

definition request ::
  "externals \<Rightarrow> json \<Rightarrow> matcher \<Rightarrow> nat \<Rightarrow> world \<Rightarrow> (bridge_error + snu_message) \<times> world" where
  "request ext payload m timeout_secs wd = request_bound ext payload m timeout_secs None None wd"

definition request_on_generation ::
  "externals \<Rightarrow> json \<Rightarrow> matcher \<Rightarrow> nat \<Rightarrow> nat option \<Rightarrow> world
   \<Rightarrow> (bridge_error + snu_message) \<times> world" where
  "request_on_generation ext payload m timeout_secs g wd =
     request_bound ext payload m timeout_secs g None wd"

definition request_on_generation_with_support ::
  "externals \<Rightarrow> json \<Rightarrow> matcher \<Rightarrow> nat \<Rightarrow> nat option \<Rightarrow> helper_security_gate_support \<Rightarrow> world
   \<Rightarrow> (bridge_error + snu_message) \<times> world" where
  "request_on_generation_with_support ext payload m timeout_secs g support wd =
     request_bound ext payload m timeout_secs g (Some support) wd"

subsection \<open>Sessions and banners\<close>

text \<open>
  \<open>wait_for_session\<close>. Its waiter outlives reconnects. The timer that fires is the connect
  budget as long as no tab has been connected since the call, and the request's own otherwise.
\<close>

fun await_session :: "url_parser \<Rightarrow> nat \<Rightarrow> bool \<Rightarrow> env_event list \<Rightarrow> bridge
    \<Rightarrow> (bridge_error + snu_message) option \<times> bool \<times> world" where
  "await_session up n seen evs b =
     (let seen' = (seen \<or> b_connected b) in
      case map_of (b_mailbox b) n of
        Some r \<Rightarrow> (Some r, seen', b, evs)
      | None \<Rightarrow> (case evs of
          [] \<Rightarrow> (None, seen', b, [])
        | e # es \<Rightarrow> if e = TimeUp then (None, seen', b, es)
                    else await_session up n seen' es (bridge_event up e b)))"

declare await_session.simps [simp del]

definition register_session_waiter :: "string option \<Rightarrow> bridge \<Rightarrow> bridge" where
  "register_session_waiter target b =
     (let n = b_next_waiter b;
          w = \<lparr>w_id = n, w_generation = None, w_matcher = SessionPush target, w_closed = False\<rparr>
      in b\<lparr>b_waiters := b_waiters b @ [w], b_next_waiter := n + 1\<rparr>)"

definition wait_for_session ::
  "externals \<Rightarrow> nat \<Rightarrow> string option \<Rightarrow> world \<Rightarrow> (bridge_error + snu_instance) \<times> world" where
  "wait_for_session ext timeout_secs target wd =
     (case wd of (b, evs) \<Rightarrow>
       if \<not> b_ws_bound b then (Inl PortConflict, b, evs)
       else
         (let n = b_next_waiter b
          in case await_session (ext_url ext) n False evs (register_session_waiter target b) of
               (None, seen, b2, evs2) \<Rightarrow>
                 (Inl (if seen then Timeout timeout_secs (describe (SessionPush target))
                       else NotConnected (connect_budget b timeout_secs)),
                  close_receiver n b2, evs2)
             | (Some (Inl e), _, wd2) \<Rightarrow> (Inl e, wd2)
             | (Some (Inr msg), _, wd2) \<Rightarrow>
                 (case msg_instance msg of
                    Some i \<Rightarrow> (Inr i, wd2) | None \<Rightarrow> (Inl Disconnected, wd2))))"

definition send_banner :: "string \<Rightarrow> bridge \<Rightarrow> bridge" where
  "send_banner message b = (case b_conn b of
      Some c \<Rightarrow> put_frame (c_generation c) (Banner message) b
    | None \<Rightarrow> b\<lparr>b_pending_banner := Some message\<rparr>)"

subsection \<open>Capability negotiation and preflight\<close>

definition capabilities_payload :: "string \<Rightarrow> json" where
  "capabilities_payload correlation_id = JObject
     [(''action'', JString ''agentGetCapabilities''), (''agentRequestId'', JString correlation_id),
      (''appName'', JString ''snow-cli'')]"

definition clamp :: "nat \<Rightarrow> nat \<Rightarrow> nat \<Rightarrow> nat" where
  "clamp lo hi x = max lo (min hi x)"

text \<open>The helper answered, or let the refresh time out, without security-gate support.\<close>

definition settle_legacy ::
  "helper_status \<Rightarrow> string \<Rightarrow> world \<Rightarrow> (bridge_error + capability_negotiation) \<times> world" where
  "settle_legacy earlier raced wd =
     (case wd of (b, evs) \<Rightarrow>
       let st = b_helper_status b in
       if hs_generation st \<noteq> hs_generation earlier then (Inl Disconnected, wd)
       else if advertises_instance_gates st \<or> security_gate_support st = GatedSupport
       then (Inl (GateStateUnavailable raced), wd)
       else (Inr (Legacy (hs_generation st)),
             b\<lparr>b_helper_status := st\<lparr>security_gate_support := LegacyUnrestrictedSupport\<rparr>\<rparr>, evs))"

definition settle_gated ::
  "helper_status \<Rightarrow> helper_capabilities_report \<Rightarrow> world
   \<Rightarrow> (bridge_error + capability_negotiation) \<times> world" where
  "settle_gated earlier report wd =
     (case wd of (b, evs) \<Rightarrow>
       let st = b_helper_status b in
       if hs_generation st \<noteq> hs_generation earlier then (Inl Disconnected, wd)
       else
         (let st' = apply_snapshots (report_instance_gates report)
                      (st\<lparr>security_gate_support := GatedSupport\<rparr>)
          in (Inr (Gated (st'\<lparr>instance_gates_of := report_instance_gates report\<rparr>)),
              b\<lparr>b_helper_status := st'\<rparr>, evs)))"

definition settle_report ::
  "url_parser \<Rightarrow> helper_status \<Rightarrow> snu_message \<Rightarrow> world
   \<Rightarrow> (bridge_error + capability_negotiation) \<times> world" where
  "settle_report up earlier response wd =
     (case helper_capabilities_report_from_value up (JObject (extra response)) of
        None \<Rightarrow> (Inl (GateStateUnavailable ''invalid SN-Utils helper capability response''), wd)
      | Some report \<Rightarrow>
          if \<not> supports_instance_gates report then
            (if advertises_instance_gates earlier \<or> security_gate_support earlier = GatedSupport
             then (Inl (GateStateUnavailable
                     ''helper advertised instance security gates but its capability refresh omitted them''), wd)
             else settle_legacy earlier
                    ''helper advertised instance security gates during capability refresh but its response omitted them''
                    wd)
          else settle_gated earlier report wd)"

definition settle_failure ::
  "helper_status \<Rightarrow> bridge_error \<Rightarrow> world \<Rightarrow> (bridge_error + capability_negotiation) \<times> world" where
  "settle_failure earlier e wd =
     (let after = b_helper_status (fst wd) in
      case e of
        Timeout _ _ \<Rightarrow>
          if hs_generation after \<noteq> hs_generation earlier then (Inl Disconnected, wd)
          else if advertises_instance_gates earlier \<or> advertises_instance_gates after
          then (Inl (GateStateUnavailable ''helper capability refresh timed out''), wd)
          else settle_legacy earlier
                 ''helper advertised instance security gates while capability refresh timed out'' wd
      | Paused \<Rightarrow> (Inl Paused, wd)
      | _ \<Rightarrow>
          if advertises_instance_gates earlier \<or> advertises_instance_gates after
          then (Inl (GateStateUnavailable ''helper capability refresh failed''), wd)
          else (Inl e, wd))"

definition negotiate_capabilities ::
  "externals \<Rightarrow> nat \<Rightarrow> world \<Rightarrow> (bridge_error + capability_negotiation) \<times> world" where
  "negotiate_capabilities ext timeout_secs wd =
     (case wait_connected (ext_url ext) (connect_budget (fst wd) timeout_secs) wd of
        (Inl e, wd1) \<Rightarrow> (Inl e, wd1)
      | (Inr _, wd1) \<Rightarrow>
          (let earlier = b_helper_status (fst wd1);
               correlation_id = ''snow_caps_'' @ ext_uuid ext (b_next_waiter (fst wd1));
               negotiation_timeout = clamp 1 2 timeout_secs
           in case request ext (capabilities_payload correlation_id) (Correlation correlation_id)
                     negotiation_timeout wd1 of
                (Inr response, wd2) \<Rightarrow> settle_report (ext_url ext) earlier response wd2
              | (Inl e, wd2) \<Rightarrow> settle_failure earlier e wd2))"

definition gate_decision_of :: "gate_mode \<Rightarrow> gate_decision" where
  "gate_decision_of m = (case m of Off \<Rightarrow> Blocked | Approve \<Rightarrow> ApprovalRequired | AutoRun \<Rightarrow> Automatic)"

definition preflight ::
  "externals \<Rightarrow> json \<Rightarrow> nat \<Rightarrow> world \<Rightarrow> (bridge_error + preflight_result) \<times> world" where
  "preflight ext payload timeout_secs wd = (case gate_for_payload payload of
      None \<Rightarrow> (Inr \<lparr>pr_generation = None, pr_origin = payload_origin (ext_url ext) payload,
                    pr_gate = None, pr_decision = NotGated\<rparr>, wd)
    | Some gate \<Rightarrow>
        (let orig = payload_origin (ext_url ext) payload in
         case negotiate_capabilities ext timeout_secs wd of
           (Inl e, wd1) \<Rightarrow> (Inl e, wd1)
         | (Inr (Legacy gen), wd1) \<Rightarrow>
             (Inr \<lparr>pr_generation = Some gen, pr_origin = orig, pr_gate = Some gate,
                   pr_decision = LegacyUnrestricted\<rparr>, wd1)
         | (Inr (Gated st), wd1) \<Rightarrow>
             (case orig of
                None \<Rightarrow> (Inl (GateStateUnavailable (''action requires '' @ gate_name_str gate @
                           '', but its instance origin is unknown'')), wd1)
              | Some o' \<Rightarrow>
                  (case map_of (instance_gates_of st) o' of
                     None \<Rightarrow> (Inl (GateUnauthorized o'), wd1)
                   | Some snapshot \<Rightarrow>
                       (Inr \<lparr>pr_generation = Some (hs_generation st), pr_origin = Some o',
                             pr_gate = Some gate,
                             pr_decision = gate_decision_of (gates_mode (gates snapshot) gate)\<rparr>, wd1)))))"

end
