(* ===== verification/Broker.thy ===== *)
theory Broker
  imports Session_Store Bridge
begin

text \<open>
  The broker's requests: \<open>dispatch\<close> and what it calls in \<open>src/snu/broker.rs\<close>. Every operation
  maps a broker to a result and the broker after it. What other clients and the broker's own
  background tasks do to the shared state is a list of sections for every time the state lock
  is taken; what happens on the helper's socket are the events of the connection manager.
\<close>

record broker_env =
  be_ext :: externals
  be_clock :: "nat \<Rightarrow> nat" \<comment> \<open>the wall clock, by the time the broker has run\<close>
  be_iter :: "string list \<Rightarrow> string list"
  be_persist :: bool
  be_disk_ok :: "nat \<Rightarrow> bool" \<comment> \<open>whether a write at that time succeeds\<close>

datatype state_section =
    Remembers snu_instance
  | DrainsSession
  | Persists
  | Verifies string
  | Clears "string option"
  | ClientEnters
  | ClientLeaves
  | RequestStarts
  | RequestFinishes
  | Stops
  | IdleCheck

record broker =
  br_state :: broker_state
  br_disk :: "persisted_sessions option"
  br_world :: world
  br_others :: "state_section list list"

abbreviation br_bridge :: "broker \<Rightarrow> bridge" where
  "br_bridge br \<equiv> fst (br_world br)"

abbreviation env_up :: "broker_env \<Rightarrow> url_parser" where
  "env_up env \<equiv> ext_url (be_ext env)"

definition epoch :: "broker_env \<Rightarrow> broker \<Rightarrow> nat" where
  "epoch env br = be_clock env (b_now (br_bridge br))"

datatype broker_error =
    FromBridge bridge_error
  | WithContext string broker_error
  | AclDenied string \<comment> \<open>the helper's text, before it is made safe to print\<close>
  | Bail string

fun bridge_error_of :: "broker_error \<Rightarrow> bridge_error option" where
  "bridge_error_of (FromBridge e) = Some e"
| "bridge_error_of (WithContext c e) = bridge_error_of e"
| "bridge_error_of (AclDenied t) = None"
| "bridge_error_of (Bail t) = None"

type_synonym 'a outcome = "(broker_error + 'a) \<times> broker"

subsection \<open>Shared state\<close>

definition update_state :: "(broker_state \<Rightarrow> broker_state) \<Rightarrow> broker \<Rightarrow> broker" where
  "update_state f br = br\<lparr>br_state := f (br_state br)\<rparr>"

definition write_snapshot :: "broker_env \<Rightarrow> broker \<Rightarrow> broker" where
  "write_snapshot env br =
     (if be_persist env \<and> be_disk_ok env (b_now (br_bridge br))
      then br\<lparr>br_disk := write_session_cache (sessions_by_origin (br_state br))
                (latest_origin (br_state br)) (epoch env br)\<rparr>
      else br)"

definition client_enters :: "nat \<Rightarrow> broker_state \<Rightarrow> broker_state" where
  "client_enters now st = touch now (st\<lparr>active_clients := active_clients st + 1\<rparr>)"

definition client_leaves :: "nat \<Rightarrow> broker_state \<Rightarrow> broker_state" where
  "client_leaves now st = touch now (st\<lparr>active_clients := saturating_sub (active_clients st) 1\<rparr>)"

definition request_starts :: "nat \<Rightarrow> broker_state \<Rightarrow> broker_state" where
  "request_starts now st = touch now (st\<lparr>in_flight := in_flight st + 1\<rparr>)"

definition request_finishes :: "nat \<Rightarrow> broker_state \<Rightarrow> broker_state" where
  "request_finishes now st = touch now (st\<lparr>in_flight := saturating_sub (in_flight st) 1\<rparr>)"

text \<open>The task that caches every session the socket carries, one session.\<close>

definition drain_session :: "broker_env \<Rightarrow> broker \<Rightarrow> broker" where
  "drain_session env br = (case b_sessions (br_bridge br) of
      [] \<Rightarrow> br
    | i # rest \<Rightarrow>
        (case br_world br of (b, evs) \<Rightarrow>
          update_state (remember_session (env_up env) (epoch env br) i)
            (br\<lparr>br_world := (b\<lparr>b_sessions := rest\<rparr>, evs)\<rparr>)))"

definition run_section :: "broker_env \<Rightarrow> state_section \<Rightarrow> broker \<Rightarrow> broker" where
  "run_section env s br =
     (let now = b_now (br_bridge br) in
      case s of
        Remembers i \<Rightarrow> update_state (remember_session (env_up env) (epoch env br) i) br
      | DrainsSession \<Rightarrow> drain_session env br
      | Persists \<Rightarrow> write_snapshot env br
      | Verifies orig \<Rightarrow> update_state (mark_verified (epoch env br) orig) br
      | Clears (Some orig) \<Rightarrow> update_state (\<lambda>st. snd (clear_origin (be_iter env) orig st)) br
      | Clears None \<Rightarrow> update_state (\<lambda>st. snd (clear_all (be_iter env) st)) br
      | ClientEnters \<Rightarrow> update_state (client_enters now) br
      | ClientLeaves \<Rightarrow> update_state (client_leaves now) br
      | RequestStarts \<Rightarrow> update_state (request_starts now) br
      | RequestFinishes \<Rightarrow> update_state (request_finishes now) br
      | Stops \<Rightarrow> update_state (\<lambda>st. st\<lparr>shutdown := True\<rparr>) br
      | IdleCheck \<Rightarrow> update_state (idle_check now) br)"

text \<open>\<open>state.lock().await\<close>: the others that hold the lock first do their sections.\<close>

definition lock_state :: "broker_env \<Rightarrow> broker \<Rightarrow> broker" where
  "lock_state env br = (case br_others br of
      [] \<Rightarrow> br
    | ss # rest \<Rightarrow> fold (run_section env) ss (br\<lparr>br_others := rest\<rparr>))"

definition persist_broker_sessions :: "broker_env \<Rightarrow> broker \<Rightarrow> broker" where
  "persist_broker_sessions env br =
     (if be_persist env then write_snapshot env (lock_state env br) else br)"

definition remember :: "broker_env \<Rightarrow> snu_instance \<Rightarrow> broker \<Rightarrow> broker" where
  "remember env i br = run_section env (Remembers i) (lock_state env br)"

definition on_bridge :: "(world \<Rightarrow> (bridge_error + 'a) \<times> world) \<Rightarrow> broker \<Rightarrow> 'a outcome" where
  "on_bridge f br = (case f (br_world br) of
      (Inl e, wd) \<Rightarrow> (Inl (FromBridge e), br\<lparr>br_world := wd\<rparr>)
    | (Inr x, wd) \<Rightarrow> (Inr x, br\<lparr>br_world := wd\<rparr>))"

text \<open>\<open>sleep(HELPER_SETTLE_DELAY)\<close>: the world goes on until the timer fires.\<close>

fun elapse :: "url_parser \<Rightarrow> env_event list \<Rightarrow> bridge \<Rightarrow> world" where
  "elapse up [] b = (b, [])"
| "elapse up (e # es) b = (if e = TimeUp then (b, es) else elapse up es (bridge_event up e b))"

definition helper_settle_delay :: "broker_env \<Rightarrow> broker \<Rightarrow> broker" where
  "helper_settle_delay env br =
     (case br_world br of (b, evs) \<Rightarrow> br\<lparr>br_world := elapse (env_up env) evs b\<rparr>)"

subsection \<open>Classifying the helper's error texts\<close>

text \<open>
  \<open>str::to_lowercase\<close>, as far as a search for ASCII text can see it: the only characters that
  are not ASCII and whose lower case is or contains an ASCII letter are the Kelvin sign (to k)
  and the dotted capital I (to i and a combining dot). Other characters lower to text without
  ASCII bytes and are kept.
\<close>

fun to_lowercase :: "string \<Rightarrow> string" where
  "to_lowercase [] = []"
| "to_lowercase (c # s) =
     (if byte_of c = 226 \<and> map byte_of (take 2 s) = [132, 170] then CHR ''k'' # to_lowercase (drop 2 s)
      else if byte_of c = 196 \<and> map byte_of (take 1 s) = [176]
      then CHR ''i'' # char_of (204::nat) # char_of (135::nat) # to_lowercase (drop 1 s)
      else to_ascii_lower c # to_lowercase s)"

definition is_transient_helper_text :: "string \<Rightarrow> bool" where
  "is_transient_helper_text text =
     (let t = to_lowercase text in
      str_contains t ''unexpected end of json input''
      \<or> str_contains t (''failed to execute '' @ [char_of (39::nat)] @ ''json'' @ [char_of (39::nat)])
      \<or> str_contains t ''failed to fetch''
      \<or> str_contains t ''networkerror'')"

definition is_probe_stale_token_text :: "string \<Rightarrow> bool" where
  "is_probe_stale_token_text text =
     (let t = to_lowercase text in
      str_contains t ''http 401'' \<or> str_contains t ''not authenticated''
      \<or> str_contains t ''unauthorized'')"

definition is_stale_token_text :: "string \<Rightarrow> bool" where
  "is_stale_token_text text =
     (let t = to_lowercase text in
      str_contains t ''http 401'' \<or> str_contains t ''http 403'' \<or> str_contains t ''not authenticated''
      \<or> str_contains t ''unauthorized'' \<or> str_contains t ''forbidden'')"

subsection \<open>Preflight, probe and refresh\<close>

definition preflight_for_dispatch ::
  "broker_env \<Rightarrow> json \<Rightarrow> nat \<Rightarrow> broker \<Rightarrow> preflight_result outcome" where
  "preflight_for_dispatch env payload t br =
     and_then (on_bridge (preflight (be_ext env) payload t) br) (\<lambda>pr br1.
       if pr_decision pr = Blocked
       then (Inl (FromBridge (GateBlocked
               (case pr_gate pr of Some g \<Rightarrow> gate_name_str g | None \<Rightarrow> ''unknown'')
               (case pr_origin pr of Some orig \<Rightarrow> orig | None \<Rightarrow> ''unknown instance''))), br1)
       else (Inr pr, br1))"

definition explain_approval_timeout ::
  "broker_error + snu_message \<Rightarrow> preflight_result \<Rightarrow> broker_error + snu_message" where
  "explain_approval_timeout result pr = (case result of
      Inl e \<Rightarrow>
        if pr_decision pr = ApprovalRequired
           \<and> (case bridge_error_of e of Some (Timeout _ _) \<Rightarrow> True | _ \<Rightarrow> False)
        then Inl (FromBridge (ApprovalTimeout
               (case pr_gate pr of Some g \<Rightarrow> gate_name_str g | None \<Rightarrow> ''unknown'')
               (case pr_origin pr of Some orig \<Rightarrow> orig | None \<Rightarrow> ''unknown instance'')))
        else Inl e
    | Inr msg \<Rightarrow> Inr msg)"

definition mark_payload_verified :: "broker_env \<Rightarrow> json \<Rightarrow> broker \<Rightarrow> broker" where
  "mark_payload_verified env payload br =
     (case Option.bind (Option.bind (Option.bind (json_get ''instance'' payload) (json_get ''url''))
             json_as_str) (normalize_origin (env_up env)) of
        Some orig \<Rightarrow> run_section env (Verifies orig) (lock_state env br)
      | None \<Rightarrow> br)"

definition probe_payload :: "string \<Rightarrow> snu_instance \<Rightarrow> json" where
  "probe_payload correlation_id i = JObject
     [(''action'', JString ''agentQueryRecords''), (''agentRequestId'', JString correlation_id),
      (''tableName'', JString ''sys_user''),
      (''queryString'', JString ''sysparm_fields=sys_id&sysparm_limit=1''),
      (''instance'', snu_instance_to_json i), (''appName'', JString ''snow-cli'')]"

definition probe_timeout_secs_max :: nat where "probe_timeout_secs_max = 15"

definition probe_session ::
  "broker_env \<Rightarrow> snu_instance \<Rightarrow> nat \<Rightarrow> broker \<Rightarrow> bool outcome" where
  "probe_session env i t br =
     (let correlation_id = ''snow_probe_'' @ ext_uuid (be_ext env) (b_next_waiter (br_bridge br)) in
      case on_bridge (request (be_ext env) (probe_payload correlation_id i) (Correlation correlation_id)
             (clamp 1 probe_timeout_secs_max t)) br of
        (Inr _, br1) \<Rightarrow> (Inr True, br1)
      | (Inl (FromBridge (ActionFailed text)), br1) \<Rightarrow>
          if is_probe_stale_token_text text then (Inr False, br1)
          else (Inl (FromBridge (ActionFailed text)), br1)
      | (Inl e, br1) \<Rightarrow> (Inl e, br1))"

definition token_expired_banner :: string where
  "token_expired_banner = ''snow-cli: ServiceNow rejected the saved session token. Run /token in a ServiceNow tab to refresh it.''"

definition refresh_session ::
  "broker_env \<Rightarrow> nat \<Rightarrow> string option \<Rightarrow> broker \<Rightarrow> snu_instance outcome" where
  "refresh_session env t target br =
     (let br1 = run_section env (Clears target) (lock_state env br);
          br2 = br1\<lparr>br_world := map_prod (send_banner token_expired_banner) id (br_world br1)\<rparr>
      in and_then (on_bridge (wait_for_session (be_ext env) t target) br2) (\<lambda>i br3.
           (Inr i, persist_broker_sessions env (remember env i br3))))"

definition refresh_payload_instance_from_cache :: "broker_env \<Rightarrow> json \<Rightarrow> broker \<Rightarrow> json \<times> broker" where
  "refresh_payload_instance_from_cache env payload br =
     (case Option.bind (Option.bind (json_pointer [''instance'', ''url''] payload) json_as_str)
             (normalize_origin (env_up env)) of
        None \<Rightarrow> (payload, br)
      | Some orig \<Rightarrow>
          (let br1 = lock_state env br in
           case session_for_origin (br_state br1) orig of
             Some current \<Rightarrow> (json_insert ''instance'' (snu_instance_to_json current) payload, br1)
           | None \<Rightarrow> (payload, br1)))"

subsection \<open>Sending an action\<close>

text \<open>
  The part the two send functions share: an authentication-like failure is probed before
  anything is evicted, and only a session the probe has proven dead is replaced. The result is
  the payload for the retry.
\<close>

definition recover_session ::
  "broker_env \<Rightarrow> string \<Rightarrow> json \<Rightarrow> string \<Rightarrow> nat \<Rightarrow> broker \<Rightarrow> json outcome" where
  "recover_session env probe_context payload text t br =
     (case (Option.bind (json_get ''instance'' payload) snu_instance_from_json, is_stale_token_text text) of
        (Some i, True) \<Rightarrow>
          (case probe_session env i t br of
             (Inl e, br1) \<Rightarrow> (Inl (WithContext probe_context e), br1)
           | (Inr True, br1) \<Rightarrow> (Inl (AclDenied text), br1)
           | (Inr False, br1) \<Rightarrow>
               and_then (refresh_session env t (normalize_origin (env_up env) (inst_url i)) br1)
                 (\<lambda>fresh br2. (Inr (json_insert ''instance'' (snu_instance_to_json fresh) payload),
                    helper_settle_delay env br2)))
      | _ \<Rightarrow> (Inl (FromBridge (ActionFailed text)), br))"

definition send_action_with_refresh ::
  "broker_env \<Rightarrow> json \<Rightarrow> string \<Rightarrow> nat \<Rightarrow> nat option \<Rightarrow> broker \<Rightarrow> snu_message outcome" where
  "send_action_with_refresh env payload correlation_id t expected br =
     (let attempt = (\<lambda>p g. on_bridge (request_on_generation (be_ext env) p (Correlation correlation_id) t g));
          retry = (\<lambda>p br1. and_then (preflight_for_dispatch env p t br1) (\<lambda>pr br2.
                     and_then (attempt p (pr_generation pr) br2) (\<lambda>msg br3.
                       (Inr msg, mark_payload_verified env p br3))))
      in case attempt payload expected br of
           (Inr msg, br1) \<Rightarrow> (Inr msg, mark_payload_verified env payload br1)
         | (Inl (FromBridge (ActionFailed text)), br1) \<Rightarrow>
             if is_transient_helper_text text then retry payload (helper_settle_delay env br1)
             else and_then (recover_session env
               ''could not verify the browser session after an authentication-like action failure; the cached session was preserved''
               payload text t br1) retry
         | (Inl e, br1) \<Rightarrow> (Inl e, br1))"

definition legacy_retry_refused :: "string \<Rightarrow> broker_error" where
  "legacy_retry_refused doing = Bail (''SN-Utils helper changed protocol generation while '' @ doing
     @ '' a legacy action; retry the command'')"

definition send_legacy_action_with_refresh ::
  "broker_env \<Rightarrow> json \<Rightarrow> string \<Rightarrow> nat \<Rightarrow> nat option \<Rightarrow> broker \<Rightarrow> snu_message outcome" where
  "send_legacy_action_with_refresh env payload expected_action t expected br =
     (let attempt = (\<lambda>p g. on_bridge (request_on_generation_with_support (be_ext env) p
                       (MatchAction expected_action) t g LegacyUnrestrictedSupport));
          retry = (\<lambda>doing p br1. and_then (preflight_for_dispatch env p t br1) (\<lambda>pr br2.
                     if pr_decision pr \<noteq> LegacyUnrestricted then (Inl (legacy_retry_refused doing), br2)
                     else and_then (attempt p (pr_generation pr) br2) (\<lambda>msg br3.
                       (Inr msg, mark_payload_verified env p br3))))
      in case attempt payload expected br of
           (Inr msg, br1) \<Rightarrow> (Inr msg, mark_payload_verified env payload br1)
         | (Inl (FromBridge (ActionFailed text)), br1) \<Rightarrow>
             if is_transient_helper_text text then retry ''retrying'' payload (helper_settle_delay env br1)
             else and_then (recover_session env
               ''could not verify the browser session after an authentication-like legacy action failure; the cached session was preserved''
               payload text t br1) (retry ''refreshing'')
         | (Inl e, br1) \<Rightarrow> (Inl e, br1))"

subsection \<open>Dispatch\<close>

datatype broker_request =
    Ping
  | Status
  | RefreshCapabilities nat
  | Stop
  | SendBanner string nat
  | WaitSession nat bool "string option"
  | SendAction json string nat
  | SendActionForAction json string nat
  | SendActionWithLegacyFallback json string json string nat
  | RefreshSession nat "string option"
  | ClearSessions "string option"
  | VerifySession nat "string option"

record broker_response =
  resp_ok :: bool
  resp_error_code :: "string option"
  resp_error :: "broker_error option"
  resp_message :: "snu_message option"
  resp_instance :: "snu_instance option"
  resp_status :: "broker_status option"
  resp_cleared :: "string list option"
  resp_token_valid :: "bool option"

definition ok_response :: broker_response where
  "ok_response = \<lparr>resp_ok = True, resp_error_code = None, resp_error = None, resp_message = None,
     resp_instance = None, resp_status = None, resp_cleared = None, resp_token_valid = None\<rparr>"

definition message_response :: "snu_message \<Rightarrow> broker_response" where
  "message_response msg = ok_response\<lparr>resp_message := Some msg\<rparr>"

definition selected_session :: "string option \<Rightarrow> broker_state \<Rightarrow> snu_instance option" where
  "selected_session target st = (case target of
      Some orig \<Rightarrow> session_for_origin st orig | None \<Rightarrow> latest_session st)"

definition report_status :: "broker_env \<Rightarrow> broker \<Rightarrow> broker_response outcome" where
  "report_status env br =
     (let connected = b_connected (br_bridge br);
          h = b_helper_status (br_bridge br);
          br1 = lock_state env br
      in (Inr (ok_response\<lparr>resp_status := Some (status (be_iter env) connected h (br_state br1))\<rparr>), br1))"

definition respond_explained ::
  "preflight_result \<Rightarrow> snu_message outcome \<Rightarrow> broker_response outcome" where
  "respond_explained pr rb = (case rb of (r, br) \<Rightarrow>
     (map_sum id message_response (explain_approval_timeout r pr), br))"

definition dispatch :: "broker_env \<Rightarrow> broker_request \<Rightarrow> broker \<Rightarrow> broker_response outcome" where
  "dispatch env req br = (case req of
      Ping \<Rightarrow> (Inr ok_response, br)
    | Status \<Rightarrow> report_status env br
    | RefreshCapabilities t \<Rightarrow>
        and_then (on_bridge (negotiate_capabilities (be_ext env) t) br) (\<lambda>_ br1. report_status env br1)
    | Stop \<Rightarrow> (Inr ok_response, run_section env Stops (lock_state env br))
    | SendBanner message t \<Rightarrow>
        (Inr ok_response, br\<lparr>br_world := map_prod (send_banner message) id (br_world br)\<rparr>)
    | WaitSession t fresh target \<Rightarrow>
        (let br1 = (if fresh then br else lock_state env br);
             cached = (if fresh then None else selected_session target (br_state br1))
         in and_then (case cached of
                Some i \<Rightarrow> (Inr i, br1)
              | None \<Rightarrow> on_bridge (wait_for_session (be_ext env) t target) br1) (\<lambda>i br2.
              (Inr (ok_response\<lparr>resp_instance := Some i\<rparr>),
               persist_broker_sessions env (remember env i br2))))
    | SendAction payload correlation_id t \<Rightarrow>
        and_then (preflight_for_dispatch env payload t br) (\<lambda>pr br1.
          respond_explained pr (send_action_with_refresh env payload correlation_id t (pr_generation pr) br1))
    | SendActionForAction payload expected_action t \<Rightarrow>
        and_then (preflight_for_dispatch env payload t br) (\<lambda>pr br1.
          respond_explained pr (on_bridge (request_on_generation (be_ext env) payload
            (MatchAction expected_action) t (pr_generation pr)) br1))
    | SendActionWithLegacyFallback current_payload correlation_id legacy_payload legacy_expected_action t \<Rightarrow>
        and_then (preflight_for_dispatch env current_payload t br) (\<lambda>pr br1.
          respond_explained pr
            (if pr_decision pr = LegacyUnrestricted
             then (case refresh_payload_instance_from_cache env legacy_payload br1 of (p, br2) \<Rightarrow>
                     send_legacy_action_with_refresh env p legacy_expected_action t (pr_generation pr) br2)
             else send_action_with_refresh env current_payload correlation_id t (pr_generation pr) br1))
    | RefreshSession t target \<Rightarrow>
        and_then (refresh_session env t target br) (\<lambda>i br1.
          (Inr (ok_response\<lparr>resp_instance := Some i\<rparr>), br1))
    | VerifySession t target \<Rightarrow>
        (let br1 = lock_state env br in
         case selected_session target (br_state br1) of
           None \<Rightarrow> (Inl (Bail ''no SN-Utils browser session to verify. Run /token in a ServiceNow tab first.''), br1)
         | Some i \<Rightarrow>
             and_then (probe_session env i t br1) (\<lambda>valid br2.
               (Inr (ok_response\<lparr>resp_token_valid := Some valid\<rparr>),
                (case (valid, normalize_origin (env_up env) (inst_url i)) of
                   (True, Some orig) \<Rightarrow> run_section env (Verifies orig) (lock_state env br2)
                 | _ \<Rightarrow> br2))))
    | ClearSessions target \<Rightarrow>
        (let br1 = lock_state env br;
             cleared = (case target of
               Some orig \<Rightarrow> if fst (clear_origin (be_iter env) orig (br_state br1)) then [orig] else []
             | None \<Rightarrow> fst (clear_all (be_iter env) (br_state br1)))
         in (Inr (ok_response\<lparr>resp_cleared := Some cleared\<rparr>),
             persist_broker_sessions env (run_section env (Clears target) br1))))"

definition process_request :: "broker_env \<Rightarrow> broker_request \<Rightarrow> broker \<Rightarrow> broker_response outcome" where
  "process_request env req br =
     (case dispatch env req (run_section env RequestStarts (lock_state env br)) of
        (r, br1) \<Rightarrow> (r, run_section env RequestFinishes (lock_state env br1)))"

text \<open>The answer on the wire: an error keeps the code of the bridge error it stems from.\<close>

definition error_code_of :: "broker_error \<Rightarrow> string" where
  "error_code_of e = (case bridge_error_of e of
      Some b \<Rightarrow> bridge_error_code b | None \<Rightarrow> ''SNU_BROKER_ERROR'')"

definition wire_response :: "broker_error + broker_response \<Rightarrow> broker_response" where
  "wire_response r = (case r of
      Inr response \<Rightarrow> response
    | Inl e \<Rightarrow> ok_response\<lparr>resp_ok := False, resp_error_code := Some (error_code_of e),
                 resp_error := Some e\<rparr>)"

text \<open>
  \<open>handle_client\<close>, for the line a client sent: \<^term>\<open>None\<close> when it is blank or cannot be read or
  decoded, in which case nothing is answered.
\<close>

definition handle_client ::
  "broker_env \<Rightarrow> broker_request option \<Rightarrow> broker \<Rightarrow> broker_response option \<times> broker" where
  "handle_client env line br =
     (let br1 = run_section env ClientEnters (lock_state env br);
          (answer, br2) = (case line of
              None \<Rightarrow> (None, br1)
            | Some req \<Rightarrow> (case process_request env req br1 of (r, br') \<Rightarrow> (Some (wire_response r), br')))
      in (answer, run_section env ClientLeaves (lock_state env br2)))"

end
