(* ===== verification/Bridge_Invariants.thy ===== *)
theory Bridge_Invariants
  imports Bridge
begin

text \<open>
  What holds in every state of the connection manager. \<open>bridge_step\<close> collects everything that
  changes the state: the events from outside, and each section of a request that runs under a
  lock. \<open>bridge_wf\<close> is preserved by every step, and every operation of the theory \<open>Bridge\<close> is a
  sequence of steps.
\<close>

named_theorems bridge_frame \<open>the parts of the state an operation leaves alone\<close>

subsection \<open>Steps\<close>

inductive bridge_step :: "url_parser \<Rightarrow> bridge \<Rightarrow> bridge \<Rightarrow> bool" for up where
  env: "bridge_step up b (bridge_event up e b)"
| register: "bridge_step up b (snd (register_and_send p m g s b))"
| session: "bridge_step up b (register_session_waiter target b)"
| receiver: "bridge_step up b (close_receiver n b)"
| banner: "bridge_step up b (send_banner text b)"
| legacy: "bridge_step up b (fst (snd (settle_legacy earlier raced (b, evs))))"
| gated: "bridge_step up b (fst (snd (settle_gated earlier report (b, evs))))"

abbreviation bridge_steps :: "url_parser \<Rightarrow> bridge \<Rightarrow> bridge \<Rightarrow> bool" where
  "bridge_steps up \<equiv> (bridge_step up)\<^sup>*\<^sup>*"

inductive_cases bridge_stepE: "bridge_step up b b'"

subsection \<open>Well-formed states\<close>

definition conn_wf :: "bridge \<Rightarrow> bool" where
  "conn_wf b \<longleftrightarrow> (\<forall>c. b_conn b = Some c \<longrightarrow> c_generation c = b_generation b \<and> c_last_seen c \<le> b_now b)
     \<and> (b_connected b \<longleftrightarrow> b_conn b \<noteq> None)
     \<and> (\<forall>gf \<in> set (b_sent b). snd gf \<noteq> PongFrame \<longrightarrow> fst gf \<le> b_generation b)"

definition live_waiters :: "bridge \<Rightarrow> bool" where
  "live_waiters b \<longleftrightarrow> (\<forall>w \<in> set (b_waiters b). \<forall>g. w_generation w = Some g \<longrightarrow>
     (\<exists>c. b_conn b = Some c \<and> c_generation c = g))"

definition mailbox_wf :: "bridge \<Rightarrow> bool" where
  "mailbox_wf b \<longleftrightarrow> distinct (map w_id (b_waiters b) @ map fst (b_mailbox b))
     \<and> (\<forall>n \<in> set (map w_id (b_waiters b) @ map fst (b_mailbox b)). n < b_next_waiter b)"

definition status_wf :: "bridge \<Rightarrow> bool" where
  "status_wf b \<longleftrightarrow> hs_generation (b_helper_status b) = b_generation b
     \<and> (advertises_instance_gates (b_helper_status b) \<longrightarrow>
          security_gate_support (b_helper_status b) = GatedSupport)"

definition bridge_wf :: "bridge \<Rightarrow> bool" where
  "bridge_wf b \<longleftrightarrow> conn_wf b \<and> live_waiters b \<and> mailbox_wf b \<and> status_wf b"

lemmas bridge_wf_defs = conn_wf_def live_waiters_def mailbox_wf_def status_wf_def

lemma new_bridge_wf: "bridge_wf (new_bridge timeout interval)"
  by (simp add: bridge_wf_def bridge_wf_defs new_bridge_def default_helper_status_def
      advertises_instance_gates_def)

lemma bridge_wfI:
  "conn_wf b \<Longrightarrow> live_waiters b \<Longrightarrow> mailbox_wf b \<Longrightarrow> status_wf b \<Longrightarrow> bridge_wf b"
  by (simp add: bridge_wf_def)

text \<open>An update of a field a part of the invariant does not read keeps that part.\<close>

lemma conn_wf_frame [simp]:
  "conn_wf (b\<lparr>b_waiters := ws\<rparr>) = conn_wf b"
  "conn_wf (b\<lparr>b_mailbox := mb\<rparr>) = conn_wf b"
  "conn_wf (b\<lparr>b_next_waiter := n\<rparr>) = conn_wf b"
  "conn_wf (b\<lparr>b_sessions := ss\<rparr>) = conn_wf b"
  "conn_wf (b\<lparr>b_ws_bound := x\<rparr>) = conn_wf b"
  "conn_wf (b\<lparr>b_helper_status := st\<rparr>) = conn_wf b"
  "conn_wf (b\<lparr>b_pending_banner := pb\<rparr>) = conn_wf b"
  by (simp_all add: conn_wf_def)

lemma live_waiters_frame [simp]:
  "live_waiters (b\<lparr>b_mailbox := mb\<rparr>) = live_waiters b"
  "live_waiters (b\<lparr>b_next_waiter := n\<rparr>) = live_waiters b"
  "live_waiters (b\<lparr>b_sessions := ss\<rparr>) = live_waiters b"
  "live_waiters (b\<lparr>b_ws_bound := x\<rparr>) = live_waiters b"
  "live_waiters (b\<lparr>b_helper_status := st\<rparr>) = live_waiters b"
  "live_waiters (b\<lparr>b_pending_banner := pb\<rparr>) = live_waiters b"
  "live_waiters (b\<lparr>b_sent := fs\<rparr>) = live_waiters b"
  "live_waiters (b\<lparr>b_now := t\<rparr>) = live_waiters b"
  "live_waiters (b\<lparr>b_connected := y\<rparr>) = live_waiters b"
  "live_waiters (b\<lparr>b_generation := g\<rparr>) = live_waiters b"
  by (simp_all add: live_waiters_def)

lemma mailbox_wf_frame [simp]:
  "mailbox_wf (b\<lparr>b_conn := c\<rparr>) = mailbox_wf b"
  "mailbox_wf (b\<lparr>b_sessions := ss\<rparr>) = mailbox_wf b"
  "mailbox_wf (b\<lparr>b_ws_bound := x\<rparr>) = mailbox_wf b"
  "mailbox_wf (b\<lparr>b_helper_status := st\<rparr>) = mailbox_wf b"
  "mailbox_wf (b\<lparr>b_pending_banner := pb\<rparr>) = mailbox_wf b"
  "mailbox_wf (b\<lparr>b_sent := fs\<rparr>) = mailbox_wf b"
  "mailbox_wf (b\<lparr>b_now := t\<rparr>) = mailbox_wf b"
  "mailbox_wf (b\<lparr>b_connected := y\<rparr>) = mailbox_wf b"
  "mailbox_wf (b\<lparr>b_generation := g\<rparr>) = mailbox_wf b"
  by (simp_all add: mailbox_wf_def)

lemma status_wf_frame [simp]:
  "status_wf (b\<lparr>b_conn := c\<rparr>) = status_wf b"
  "status_wf (b\<lparr>b_waiters := ws\<rparr>) = status_wf b"
  "status_wf (b\<lparr>b_mailbox := mb\<rparr>) = status_wf b"
  "status_wf (b\<lparr>b_next_waiter := n\<rparr>) = status_wf b"
  "status_wf (b\<lparr>b_sessions := ss\<rparr>) = status_wf b"
  "status_wf (b\<lparr>b_ws_bound := x\<rparr>) = status_wf b"
  "status_wf (b\<lparr>b_pending_banner := pb\<rparr>) = status_wf b"
  "status_wf (b\<lparr>b_sent := fs\<rparr>) = status_wf b"
  "status_wf (b\<lparr>b_now := t\<rparr>) = status_wf b"
  "status_wf (b\<lparr>b_connected := y\<rparr>) = status_wf b"
  by (simp_all add: status_wf_def)

subsection \<open>Preservation, operation by operation\<close>

text \<open>Answering the waiters of a set moves them into the mailbox.\<close>

lemma mailbox_wf_answer:
  assumes "mailbox_wf b"
  shows "mailbox_wf (b\<lparr>b_waiters := filter (\<lambda>w. \<not> P w) (b_waiters b),
     b_mailbox := b_mailbox b @ map (\<lambda>w. (w_id w, f w)) (filter P (b_waiters b))\<rparr>)"
proof -
  have d: "distinct (map w_id (b_waiters b))" "distinct (map fst (b_mailbox b))"
      "w_id ` set (b_waiters b) \<inter> fst ` set (b_mailbox b) = {}"
    and lt: "\<forall>n \<in> w_id ` set (b_waiters b) \<union> fst ` set (b_mailbox b). n < b_next_waiter b"
    using assms by (auto simp: mailbox_wf_def)
  have inj: "inj_on w_id (set (b_waiters b))" using d(1) by (simp add: distinct_map)
  have "distinct (map w_id (filter P (b_waiters b)))"
       "distinct (map w_id (filter (\<lambda>w. \<not> P w) (b_waiters b)))"
    using d(1) by (simp_all add: distinct_map_filter)
  moreover have "w_id ` set (filter P (b_waiters b)) \<inter> w_id ` set (filter (\<lambda>w. \<not> P w) (b_waiters b)) = {}"
    using inj by (auto simp: inj_on_def)
  ultimately show ?thesis
    using d lt by (auto simp: mailbox_wf_def o_def)
qed

lemma fail_waiters_wf:
  "conn_wf (fail_waiters_for_generation gen b) = conn_wf b"
  "status_wf (fail_waiters_for_generation gen b) = status_wf b"
  "mailbox_wf b \<Longrightarrow> mailbox_wf (fail_waiters_for_generation gen b)"
  using mailbox_wf_answer [where b = b and P = "\<lambda>w. w_generation w = Some gen" and f = "\<lambda>_. Inl Disconnected"]
  by (simp_all add: fail_waiters_for_generation_def)

lemma fulfill_waiters_wf:
  "conn_wf (fulfill_waiters up msg b) = conn_wf b"
  "status_wf (fulfill_waiters up msg b) = status_wf b"
  "mailbox_wf b \<Longrightarrow> mailbox_wf (fulfill_waiters up msg b)"
  "live_waiters b \<Longrightarrow> live_waiters (fulfill_waiters up msg b)"
  using mailbox_wf_answer [where b = b and P = "\<lambda>w. matches up (w_matcher w) msg" and f = "\<lambda>_. Inr msg"]
  by (auto simp: fulfill_waiters_def live_waiters_def)

lemma put_frame_wf [simp]:
  "live_waiters (put_frame g f b) = live_waiters b"
  "mailbox_wf (put_frame g f b) = mailbox_wf b"
  "status_wf (put_frame g f b) = status_wf b"
  "conn_wf b \<Longrightarrow> g \<le> b_generation b \<or> f = PongFrame \<Longrightarrow> conn_wf (put_frame g f b)"
  by (auto simp: put_frame_def conn_wf_def)

lemma put_frame_bridge_wf:
  "bridge_wf b \<Longrightarrow> bridge_wf (put_frame g PongFrame b)"
  "bridge_wf b \<Longrightarrow> b_conn b = Some c \<Longrightarrow> bridge_wf (put_frame (c_generation c) f b)"
  by (simp_all add: bridge_wf_def) (simp add: conn_wf_def [of b])

lemma attach_connection_wf: "bridge_wf b \<Longrightarrow> bridge_wf (attach_connection b)"
proof (rule bridge_wfI)
  assume wf: "bridge_wf b"
  note parts = wf [unfolded bridge_wf_def]
  show "conn_wf (attach_connection b)"
    using parts by (auto simp: conn_wf_def attach_connection_def Let_def put_frame_def
        fail_waiters_for_generation_def split: option.splits)
  show "live_waiters (attach_connection b)"
    using parts by (auto simp: live_waiters_def attach_connection_def Let_def put_frame_def
        fail_waiters_for_generation_def split: option.splits)
  show "mailbox_wf (attach_connection b)"
    using parts by (auto simp: attach_connection_def Let_def fail_waiters_wf split: option.splits)
  show "status_wf (attach_connection b)"
    using parts by (auto simp: status_wf_def attach_connection_def Let_def put_frame_def
        fail_waiters_for_generation_def advertises_instance_gates_def default_helper_status_def
        split: option.splits)
qed

lemma detach_connection_wf: "bridge_wf b \<Longrightarrow> bridge_wf (detach_connection gen b)"
proof (rule bridge_wfI)
  assume wf: "bridge_wf b"
  note parts = wf [unfolded bridge_wf_def]
  show "conn_wf (detach_connection gen b)"
    using parts by (auto simp: conn_wf_def detach_connection_def
        fail_waiters_for_generation_def split: option.splits)
  show "live_waiters (detach_connection gen b)"
    using parts by (cases "b_conn b"; auto simp: live_waiters_def detach_connection_def
        fail_waiters_for_generation_def; metis not_None_eq)
  show "mailbox_wf (detach_connection gen b)"
    using parts by (auto simp: detach_connection_def fail_waiters_wf split: option.splits)
  show "status_wf (detach_connection gen b)"
    using parts by (auto simp: detach_connection_def fail_waiters_wf split: option.splits)
qed

lemma apply_gate_snapshot_advertises [simp]:
  "advertises_instance_gates (apply_gate_snapshot orig snapshot st) = advertises_instance_gates st"
  by (simp add: advertises_instance_gates_def)

lemma advertises_frame [simp]:
  "advertises_instance_gates (st\<lparr>license := l\<rparr>) = advertises_instance_gates st"
  "advertises_instance_gates (st\<lparr>security_gate_support := s\<rparr>) = advertises_instance_gates st"
  "advertises_instance_gates (st\<lparr>build := Some bi\<rparr>) = gates_advertised (capabilities bi)"
  by (simp_all add: advertises_instance_gates_def)

text \<open>The three shapes of \<open>capture_status\<close>: unchanged, a new build, a new license, a snapshot.\<close>

lemma capture_status_cases:
  obtains "capture_status up msg st = st"
  | bi where "capture_status up msg st = (if gates_advertised (capabilities bi)
       then st\<lparr>security_gate_support := GatedSupport\<rparr> else st)\<lparr>build := Some bi\<rparr>"
  | l where "capture_status up msg st = st\<lparr>license := Some l\<rparr>"
  | orig snap where "capture_status up msg st = apply_gate_snapshot orig snap st"
proof (cases "action msg")
  case None
  then show ?thesis using that(1) by (simp add: capture_status_def)
next
  case (Some act)
  let ?v = "JObject (extra msg)"
  consider "act = ''helperBuildInfo''" | "act = ''helperLicenseInfo''" | "act = ''helperGatesUpdated''"
    | "act \<noteq> ''helperBuildInfo''" "act \<noteq> ''helperLicenseInfo''" "act \<noteq> ''helperGatesUpdated''"
    by blast
  then show ?thesis
  proof cases
    case 1
    with Some that(1,2) show ?thesis
      by (cases "build_info_from_json ?v") (simp_all add: capture_status_def)
  next
    case 2
    with Some that(1,3) show ?thesis
      by (cases "license_info_from_json ?v") (simp_all add: capture_status_def)
  next
    case 3
    show ?thesis
    proof (cases "gate_update_from_json ?v")
      case None
      with 3 Some that(1) show ?thesis by (simp add: capture_status_def)
    next
      case u: (Some u)
      with 3 Some that(1,4) show ?thesis
        by (cases "normalize_origin up (gu_origin u)") (simp_all add: capture_status_def)
    qed
  next
    case 4
    with Some that(1) show ?thesis by (simp add: capture_status_def)
  qed
qed

lemma capture_status_wf:
  "hs_generation (capture_status up msg st) = hs_generation st"
  "(advertises_instance_gates st \<longrightarrow> security_gate_support st = GatedSupport) \<Longrightarrow>
   advertises_instance_gates (capture_status up msg st) \<Longrightarrow>
   security_gate_support (capture_status up msg st) = GatedSupport"
  "security_gate_support st = GatedSupport \<Longrightarrow> security_gate_support (capture_status up msg st) = GatedSupport"
  by (rule capture_status_cases [of up msg st]; simp split: if_splits)+

lemma deliver_message_wf: "bridge_wf b \<Longrightarrow> bridge_wf (deliver_message up msg gen b)"
proof -
  assume wf: "bridge_wf b"
  have "bridge_wf (capture_helper_metadata up msg gen b)"
    using wf by (auto simp: bridge_wf_def capture_helper_metadata_def status_wf_def capture_status_wf)
  then have "bridge_wf (capture_session msg (capture_helper_metadata up msg gen b))"
    by (auto simp: bridge_wf_def capture_session_def split: option.split)
  then show ?thesis
    by (simp add: deliver_message_def bridge_wf_def fulfill_waiters_wf)
qed

lemma deliver_json_wf: "bridge_wf b \<Longrightarrow> bridge_wf (deliver_json up v gen b)"
  by (simp add: deliver_json_def deliver_message_wf split: option.split)

lemma touch_wf:
  assumes "bridge_wf b" "b_conn b = Some c" "c' = c\<lparr>c_last_seen := b_now b\<rparr> \<or> c' = c\<lparr>c_open := x\<rparr>"
  shows "bridge_wf (b\<lparr>b_conn := Some c'\<rparr>)"
  using assms by (auto simp: bridge_wf_def conn_wf_def live_waiters_def)


lemma reader_frame_wf: "bridge_wf b \<Longrightarrow> bridge_wf (reader_frame up gen f b)"
proof -
  assume wf: "bridge_wf b"
  let ?b1 = "case b_conn b of
      Some c \<Rightarrow> if c_generation c = gen then b\<lparr>b_conn := Some (c\<lparr>c_last_seen := b_now b\<rparr>)\<rparr> else b
    | None \<Rightarrow> b"
  have b1: "bridge_wf ?b1"
    using wf by (auto intro: touch_wf split: option.split)
  define b1 where "b1 = ?b1"
  note b1 = b1 [folded b1_def]
  have "bridge_wf (reader_frame up gen f b)" if "f = TextFrame x \<or> f = BinaryFrame x" for x
    using that b1 by (cases x) (auto simp: reader_frame_def b1_def [symmetric] deliver_json_wf
        split: option.split)
  moreover have "bridge_wf (reader_frame up gen f b)" if "f \<in> {InPing, InPong, InClose}"
    using that b1 by (auto simp: reader_frame_def b1_def [symmetric] detach_connection_wf put_frame_bridge_wf)
  ultimately show ?thesis by (cases f) auto
qed

lemma heartbeat_wf: "bridge_wf b \<Longrightarrow> bridge_wf (heartbeat b)"
proof -
  assume wf: "bridge_wf b"
  let ?b1 = "b\<lparr>b_waiters := filter (\<lambda>w. \<not> w_closed w) (b_waiters b)\<rparr>"
  have b1: "bridge_wf ?b1"
    using wf by (auto simp: bridge_wf_def live_waiters_def mailbox_wf_def distinct_map_filter)
  have "bridge_wf (put_frame (c_generation c) PingFrame ?b1)" if "b_conn ?b1 = Some c" for c
    using b1 that by (rule put_frame_bridge_wf(2))
  with b1 show ?thesis
    by (simp add: heartbeat_def Let_def detach_connection_wf split: option.split)
qed

lemma register_waiter_wf:
  assumes "bridge_wf b" "\<forall>g. w_generation w = Some g \<longrightarrow> (\<exists>c. b_conn b = Some c \<and> c_generation c = g)"
    "w_id w = b_next_waiter b"
  shows "bridge_wf (b\<lparr>b_waiters := b_waiters b @ [w], b_next_waiter := b_next_waiter b + 1\<rparr>)"
proof -
  have "mailbox_wf (b\<lparr>b_waiters := b_waiters b @ [w], b_next_waiter := b_next_waiter b + 1\<rparr>)"
  proof -
    have lt: "\<forall>n \<in> w_id ` set (b_waiters b) \<union> fst ` set (b_mailbox b). n < b_next_waiter b"
      and d: "distinct (map w_id (b_waiters b) @ map fst (b_mailbox b))"
      using assms(1) by (simp_all add: bridge_wf_def mailbox_wf_def)
    have "b_next_waiter b \<notin> w_id ` set (b_waiters b) \<union> fst ` set (b_mailbox b)"
      using lt by blast
    with lt d assms(3) show ?thesis
      by (simp add: mailbox_wf_def) (metis UnI1 UnI2 less_Suc_eq)
  qed
  with assms show ?thesis by (auto simp: bridge_wf_def live_waiters_def)
qed

lemma register_and_send_wf: "bridge_wf b \<Longrightarrow> bridge_wf (snd (register_and_send p m g s b))"
proof -
  assume wf: "bridge_wf b"
  have r: "bridge_wf (b\<lparr>b_waiters := b_waiters b @ [\<lparr>w_id = b_next_waiter b,
       w_generation = Some (c_generation c), w_matcher = m, w_closed = x\<rparr>],
       b_next_waiter := b_next_waiter b + 1\<rparr>)" if "b_conn b = Some c" for c x
    using register_waiter_wf [OF wf] that by simp
  show ?thesis
  proof (cases "b_conn b")
    case None
    with wf show ?thesis by (simp add: register_and_send_def)
  next
    case (Some c)
    have "bridge_wf (put_frame (c_generation c) (Payload p) (b\<lparr>b_waiters := b_waiters b @
       [\<lparr>w_id = b_next_waiter b, w_generation = Some (c_generation c), w_matcher = m, w_closed = x\<rparr>],
       b_next_waiter := b_next_waiter b + 1\<rparr>))" for x
      using r [OF Some] by (rule put_frame_bridge_wf(2)) (simp add: Some)
    with r [OF Some] wf Some show ?thesis
      by (simp add: register_and_send_def Let_def)
  qed
qed

lemma close_receiver_wf: "bridge_wf b \<Longrightarrow> bridge_wf (close_receiver n b)"
proof -
  assume wf: "bridge_wf b"
  let ?f = "\<lambda>w. if w_id w = n then w\<lparr>w_closed := True\<rparr> else w"
  have ids: "w_id (?f w) = w_id w" "w_generation (?f w) = w_generation w" for w by simp_all
  then have m: "map w_id (map ?f ws) = map w_id ws" for ws by simp
  have "b_waiters (close_receiver n b) = map ?f (b_waiters b)"
    "b_mailbox (close_receiver n b) = b_mailbox b"
    "b_next_waiter (close_receiver n b) = b_next_waiter b"
    by (simp_all add: close_receiver_def)
  then have "mailbox_wf (close_receiver n b) = mailbox_wf b"
    unfolding mailbox_wf_def by (simp only: m)
  moreover have "live_waiters b \<Longrightarrow> live_waiters (close_receiver n b)"
    using ids by (auto simp: close_receiver_def live_waiters_def)
  ultimately show ?thesis
    using wf by (simp add: bridge_wf_def) (simp add: close_receiver_def)
qed

lemma register_session_waiter_wf: "bridge_wf b \<Longrightarrow> bridge_wf (register_session_waiter target b)"
  unfolding register_session_waiter_def Let_def by (rule register_waiter_wf) simp_all

lemma send_banner_wf: "bridge_wf b \<Longrightarrow> bridge_wf (send_banner text b)"
proof (cases "b_conn b")
  case (Some c)
  then show "bridge_wf b \<Longrightarrow> ?thesis" by (simp add: send_banner_def put_frame_bridge_wf)
qed (simp add: send_banner_def bridge_wf_def)

lemma settle_legacy_wf: "bridge_wf b \<Longrightarrow> bridge_wf (fst (snd (settle_legacy earlier raced (b, evs))))"
  by (auto simp: settle_legacy_def Let_def bridge_wf_def status_wf_def)

lemma apply_snapshots_advertises [simp]:
  "advertises_instance_gates (apply_snapshots ss st) = advertises_instance_gates st"
  by (simp add: advertises_instance_gates_def)

lemma settle_gated_wf: "bridge_wf b \<Longrightarrow> bridge_wf (fst (snd (settle_gated earlier report (b, evs))))"
  by (auto simp: settle_gated_def Let_def bridge_wf_def status_wf_def)

lemma bridge_event_wf: "bridge_wf b \<Longrightarrow> bridge_wf (bridge_event up e b)"
  by (cases e) (auto simp: bridge_event_def attach_connection_wf reader_frame_wf
      detach_connection_wf heartbeat_wf register_and_send_wf writer_ends_def
      intro: touch_wf split: option.split,
      auto simp: bridge_wf_def conn_wf_def)

lemma bridge_step_wf: "bridge_step up b b' \<Longrightarrow> bridge_wf b \<Longrightarrow> bridge_wf b'"
  by (erule bridge_stepE) (simp_all add: bridge_event_wf register_and_send_wf
      register_session_waiter_wf close_receiver_wf send_banner_wf settle_legacy_wf settle_gated_wf)

interpretation consistent: transition_invariant "bridge_step up" bridge_wf for up
  by unfold_locales (rule bridge_step_wf)

lemmas bridge_steps_wf = consistent.run_inv



end
