(* ===== verification/Bridge_Requests.thy ===== *)
theory Bridge_Requests
  imports Bridge_Invariants
begin

text \<open>
  What a request to the helper gives its caller. The waiters and their mailbox are abstracted to
  a table with five operations; every step of the connection manager is one of them or leaves
  the table alone, and what holds of answers is proved on the table.
\<close>

subsection \<open>The waiter table\<close>

type_synonym waiter_table = "waiter list \<times> (nat \<times> (bridge_error + snu_message)) list \<times> nat"

definition table :: "bridge \<Rightarrow> waiter_table" where
  "table b = (b_waiters b, b_mailbox b, b_next_waiter b)"

inductive table_step :: "url_parser \<Rightarrow> waiter_table \<Rightarrow> waiter_table \<Rightarrow> bool" for up where
  keep: "table_step up t t"
| fail: "table_step up (ws, mb, n) (filter (\<lambda>w. w_generation w \<noteq> Some g) ws,
    mb @ map (\<lambda>w. (w_id w, Inl Disconnected)) (filter (\<lambda>w. w_generation w = Some g) ws), n)"
| answer: "table_step up (ws, mb, n) (filter (\<lambda>w. \<not> matches up (w_matcher w) msg) ws,
    mb @ map (\<lambda>w. (w_id w, Inr msg)) (filter (\<lambda>w. matches up (w_matcher w) msg) ws), n)"
| sweep: "table_step up (ws, mb, n) (filter (\<lambda>w. \<not> w_closed w) ws, mb, n)"
| add: "w_id w = n \<Longrightarrow> table_step up (ws, mb, n) (ws @ [w], mb, n + 1)"

inductive_cases table_stepE: "table_step up t t'"

abbreviation table_steps :: "url_parser \<Rightarrow> waiter_table \<Rightarrow> waiter_table \<Rightarrow> bool" where
  "table_steps up \<equiv> (table_step up)\<^sup>*\<^sup>*"

lemma table_frame [bridge_frame]:
  "table (b\<lparr>b_conn := c\<rparr>) = table b" "table (b\<lparr>b_sessions := ss\<rparr>) = table b"
  "table (b\<lparr>b_ws_bound := x\<rparr>) = table b" "table (b\<lparr>b_helper_status := st\<rparr>) = table b"
  "table (b\<lparr>b_pending_banner := pb\<rparr>) = table b" "table (b\<lparr>b_sent := fs\<rparr>) = table b"
  "table (b\<lparr>b_now := t\<rparr>) = table b" "table (b\<lparr>b_connected := y\<rparr>) = table b"
  "table (b\<lparr>b_generation := g\<rparr>) = table b" "table (put_frame g f b) = table b"
  by (simp_all add: table_def put_frame_def)

lemma table_fail: "table_step up (table b) (table (fail_waiters_for_generation g b))"
  using table_step.fail [of up "b_waiters b" "b_mailbox b" "b_next_waiter b" g]
  by (simp add: table_def fail_waiters_for_generation_def)

lemma table_fulfill: "table_step up (table b) (table (fulfill_waiters up msg b))"
  using table_step.answer [of up "b_waiters b" "b_mailbox b" "b_next_waiter b" msg]
  by (simp add: table_def fulfill_waiters_def)

lemma table_attach: "table_step up (table b) (table (attach_connection b))"
  using table_fail [where b = "b\<lparr>b_generation := g, b_conn := c\<rparr>" for g c]
  by (auto simp: attach_connection_def Let_def bridge_frame intro: table_step.keep split: option.split)

lemma table_detach: "table_step up (table b) (table (detach_connection g b))"
  using table_fail [where b = "b\<lparr>b_conn := None, b_connected := False\<rparr>"]
  by (auto simp: detach_connection_def bridge_frame intro: table_step.keep split: option.split)

lemma table_deliver_json: "table_step up (table b) (table (deliver_json up v g b))"
proof -
  have "table (capture_session msg (capture_helper_metadata up msg g b)) = table b" for msg
    by (simp add: capture_session_def capture_helper_metadata_def bridge_frame split: option.split)
  then show ?thesis
    using table_fulfill [where b = "capture_session msg (capture_helper_metadata up msg g b)" for msg]
    by (auto simp: deliver_json_def deliver_message_def intro: table_step.keep split: option.split)
qed

lemma table_reader_frame: "table_step up (table b) (table (reader_frame up g f b))"
proof -
  define b1 where "b1 = (case b_conn b of
      Some c \<Rightarrow> if c_generation c = g then b\<lparr>b_conn := Some (c\<lparr>c_last_seen := b_now b\<rparr>)\<rparr> else b
    | None \<Rightarrow> b)"
  have "table b1 = table b" by (simp add: b1_def bridge_frame split: option.split)
  then have "table_step up (table b) (table b1)" "table_step up (table b) (table (deliver_json up v g b1))"
    "table_step up (table b) (table (detach_connection g b1))" for v
    using table_deliver_json [of up b1 v g] table_detach [of up b1 g] by (simp_all add: table_step.keep)
  then show ?thesis
    by (simp add: reader_frame_def b1_def [symmetric] bridge_frame split: inbound.split option.split)
qed

text \<open>A heartbeat is two operations: the sweep of abandoned waiters, then the reaping.\<close>

lemma table_heartbeat: "table_steps up (table b) (table (heartbeat b))"
proof -
  let ?b1 = "b\<lparr>b_waiters := filter (\<lambda>w. \<not> w_closed w) (b_waiters b)\<rparr>"
  have "table_step up (table b) (table ?b1)"
    using table_step.sweep [of up "b_waiters b" "b_mailbox b" "b_next_waiter b"] by (simp add: table_def)
  moreover have "table_step up (table ?b1) (table (heartbeat b))"
    using table_detach [of up ?b1] table_step.keep [of up "table ?b1"]
    by (simp add: heartbeat_def Let_def bridge_frame split: option.split)
  ultimately show ?thesis by (blast intro: rtranclp_trans)
qed

lemma table_register: "table_step up (table b) (table (snd (register_and_send p m g s b)))"
proof (cases "b_conn b")
  case None
  then show ?thesis by (simp add: register_and_send_def table_step.keep)
next
  case (Some c)
  then show ?thesis
    using table_step.add [of "\<lparr>w_id = b_next_waiter b, w_generation = Some (c_generation c),
        w_matcher = m, w_closed = \<not> c_open c\<rparr>" "b_next_waiter b" up "b_waiters b" "b_mailbox b"]
    by (cases "c_open c"; simp add: register_and_send_def Let_def bridge_frame table_step.keep; simp add: table_def)
qed

text \<open>The simulation: an event is a few operations of the table.\<close>

lemma table_event: "table_steps up (table b) (table (bridge_event up e b))"
proof -
  note step = r_into_rtranclp [of "table_step up"]
  note facts = table_attach [THEN step] table_reader_frame [THEN step] table_detach [THEN step]
    table_heartbeat table_register [THEN step]
  have "table (writer_ends g b) = table b" for g
    by (simp add: writer_ends_def bridge_frame split: option.split)
  with facts show ?thesis
    by (cases e) (simp_all add: bridge_event_def bridge_frame)
qed


subsection \<open>Answers\<close>

text \<open>What a waiter was promised: only answers its matcher accepts.\<close>

definition promised :: "url_parser \<Rightarrow> nat \<Rightarrow> matcher \<Rightarrow> waiter_table \<Rightarrow> bool" where
  "promised up i m t \<longleftrightarrow> (case t of (ws, mb, n) \<Rightarrow>
     (\<forall>w \<in> set ws. w_id w = i \<longrightarrow> w_matcher w = m)
     \<and> (\<forall>e. (i, Inl e) \<in> set mb \<longrightarrow> e = Disconnected)
     \<and> (\<forall>msg. (i, Inr msg) \<in> set mb \<longrightarrow> matches up m msg) \<and> i < n)"

lemma promised_step: "table_step up t t' \<Longrightarrow> promised up i m t \<Longrightarrow> promised up i m t'"
  by (erule table_stepE) (auto simp: promised_def)

interpretation promise: transition_invariant "table_step up" "promised up i m" for up i m
  by unfold_locales (rule promised_step)

lemma promised_event: "promised up i m (table b) \<Longrightarrow> promised up i m (table (bridge_event up e b))"
  using table_event by (rule promise.run_inv)

text \<open>An event keeps an open waiter, or answers it.\<close>

definition pending :: "nat \<Rightarrow> matcher \<Rightarrow> waiter_table \<Rightarrow> bool" where
  "pending i m t \<longleftrightarrow> (case t of (ws, mb, n) \<Rightarrow>
     (\<exists>w \<in> set ws. w_id w = i \<and> w_matcher w = m \<and> \<not> w_closed w) \<or> i \<in> fst ` set mb)"

lemma pending_step: "table_step up t t' \<Longrightarrow> pending i m t \<Longrightarrow> pending i m t'"
  by (erule table_stepE) (auto simp: pending_def image_Un image_image)

interpretation waiting: transition_invariant "table_step up" "pending i m" for up i m
  by unfold_locales (rule pending_step)

lemma pending_event: "pending i m (table b) \<Longrightarrow> pending i m (table (bridge_event up e b))"
  using table_event by (rule waiting.run_inv)

text \<open>A frame that a pending waiter's matcher accepts answers it, whatever else it does.\<close>

lemma pending_answered:
  assumes "pending i m (table b)" "snu_message_from_value v = Some msg" "matches up m msg"
    "json_as_array v = None"
  shows "i \<in> fst ` set (b_mailbox (bridge_event up (Inbound g (TextFrame (Some v))) b))"
proof -
  define b1 where "b1 = (case b_conn b of
      Some c \<Rightarrow> if c_generation c = g then b\<lparr>b_conn := Some (c\<lparr>c_last_seen := b_now b\<rparr>)\<rparr> else b
    | None \<Rightarrow> b)"
  define b2 where "b2 = capture_session msg (capture_helper_metadata up msg g b1)"
  have "table b2 = table b"
    by (simp add: b1_def b2_def capture_session_def capture_helper_metadata_def bridge_frame
        split: option.split)
  with assms have "i \<in> fst ` set (b_mailbox (fulfill_waiters up msg b2))"
    by (auto simp: pending_def table_def fulfill_waiters_def image_Un image_image)
  with assms show ?thesis
    by (simp add: bridge_event_def reader_frame_def b1_def [symmetric] b2_def deliver_json_def
        deliver_message_def)
qed

subsection \<open>Waiting\<close>

lemma await_unfold:
  "map_of (b_mailbox b) n = Some r \<Longrightarrow> await up n evs b = (Some r, b, evs)"
  "map_of (b_mailbox b) n = None \<Longrightarrow> await up n [] b = (None, b, [])"
  "map_of (b_mailbox b) n = None \<Longrightarrow> await up n (TimeUp # es) b = (None, b, es)"
  "map_of (b_mailbox b) n = None \<Longrightarrow> e \<noteq> TimeUp \<Longrightarrow>
     await up n (e # es) b = await up n es (bridge_event up e b)"
  by (subst await.simps, simp)+

lemma run_until_connected_unfold:
  "b_connected b \<Longrightarrow> run_until_connected up evs b = (True, b, evs)"
  "\<not> b_connected b \<Longrightarrow> run_until_connected up [] b = (False, b, [])"
  "\<not> b_connected b \<Longrightarrow> run_until_connected up (TimeUp # es) b = (False, b, es)"
  "\<not> b_connected b \<Longrightarrow> e \<noteq> TimeUp \<Longrightarrow>
     run_until_connected up (e # es) b = run_until_connected up es (bridge_event up e b)"
  by (subst run_until_connected.simps, simp)+

lemma await_invariant:
  assumes "\<And>e b. I b \<Longrightarrow> I (bridge_event up e b)"
  shows "await up n evs b = (r, b', evs') \<Longrightarrow> I b \<Longrightarrow> I b'"
proof (induction evs arbitrary: b)
  case Nil
  then show ?case by (cases "map_of (b_mailbox b) n") (simp_all add: await_unfold)
next
  case (Cons e es)
  then show ?case
    using assms by (cases "map_of (b_mailbox b) n"; cases "e = TimeUp") (auto simp: await_unfold)
qed

lemma await_answer:
  "await up n evs b = (Some r, b', evs') \<Longrightarrow> map_of (b_mailbox b') n = Some r"
proof (induction evs arbitrary: b)
  case Nil
  then show ?case by (cases "map_of (b_mailbox b) n") (auto simp: await_unfold)
next
  case (Cons e es)
  then show ?case
    by (cases "map_of (b_mailbox b) n"; cases "e = TimeUp") (auto simp: await_unfold)
qed

lemma run_until_connected_invariant:
  assumes "\<And>e b. I b \<Longrightarrow> I (bridge_event up e b)"
  shows "run_until_connected up evs b = (x, b', evs') \<Longrightarrow> I b \<Longrightarrow> I b'"
proof (induction evs arbitrary: b)
  case Nil
  then show ?case by (cases "b_connected b") (simp_all add: run_until_connected_unfold)
next
  case (Cons e es)
  then show ?case
    using assms by (cases "b_connected b"; cases "e = TimeUp") (auto simp: run_until_connected_unfold)
qed

text \<open>The operations as sequences of steps.\<close>

lemma await_steps: "await up n evs b = (r, b', evs') \<Longrightarrow> bridge_steps up b b'"
  by (rule await_invariant [where I = "bridge_steps up b"])
    (auto intro: rtranclp.rtrancl_into_rtrancl bridge_step.env)

lemma wait_connected_steps: "wait_connected up t (b, evs) = (r, b', evs') \<Longrightarrow> bridge_steps up b b'"
proof -
  have "run_until_connected up evs b = (x, b', evs') \<Longrightarrow> bridge_steps up b b'" for x
    by (rule run_until_connected_invariant [where I = "bridge_steps up b"])
      (auto intro: rtranclp.rtrancl_into_rtrancl bridge_step.env)
  then show "wait_connected up t (b, evs) = (r, b', evs') \<Longrightarrow> bridge_steps up b b'"
    by (auto simp: wait_connected_def split: if_splits prod.splits bool.splits)
qed

lemma request_bound_cases:
  assumes "request_bound ext payload m t g s (b, evs) = (r, b', evs')"
  obtains e where "r = Inl e" "wait_connected (ext_url ext) (connect_budget b t) (b, evs) = (Inl e, b', evs')"
  | b1 e where "r = Inl e" "wait_connected (ext_url ext) (connect_budget b t) (b, evs) = (Inr (), b1, evs')"
      "register_and_send payload m g s b1 = (Inl e, b')"
  | b1 evs1 n b2 b3 where "r = Inl (Timeout t (describe m))"
      "wait_connected (ext_url ext) (connect_budget b t) (b, evs) = (Inr (), b1, evs1)"
      "register_and_send payload m g s b1 = (Inr n, b2)"
      "await (ext_url ext) n evs1 b2 = (None, b3, evs')" "b' = close_receiver n b3"
  | b1 evs1 n b2 e where "r = Inl e"
      "wait_connected (ext_url ext) (connect_budget b t) (b, evs) = (Inr (), b1, evs1)"
      "register_and_send payload m g s b1 = (Inr n, b2)"
      "await (ext_url ext) n evs1 b2 = (Some (Inl e), b', evs')"
  | b1 evs1 n b2 msg e where "r = Inl e" "action_failure (ext_render ext) m msg = Some e"
      "wait_connected (ext_url ext) (connect_budget b t) (b, evs) = (Inr (), b1, evs1)"
      "register_and_send payload m g s b1 = (Inr n, b2)"
      "await (ext_url ext) n evs1 b2 = (Some (Inr msg), b', evs')"
  | b1 evs1 n b2 msg where "r = Inr msg" "action_failure (ext_render ext) m msg = None"
      "wait_connected (ext_url ext) (connect_budget b t) (b, evs) = (Inr (), b1, evs1)"
      "register_and_send payload m g s b1 = (Inr n, b2)"
      "await (ext_url ext) n evs1 b2 = (Some (Inr msg), b', evs')"
  using assms unfolding request_bound_def
  by (auto split: prod.splits sum.splits option.splits)

lemma request_bound_steps:
  assumes "request_bound ext payload m t g s (b, evs) = (r, b', evs')"
  shows "bridge_steps (ext_url ext) b b'"
proof -
  note w = wait_connected_steps [of "ext_url ext" "connect_budget b t" b evs]
  have reg: "register_and_send payload m g s b1 = (x, b2) \<Longrightarrow> bridge_step (ext_url ext) b1 b2" for b1 x b2
    using bridge_step.register [of "ext_url ext" b1 payload m g s] by simp
  from assms show ?thesis
  proof (cases rule: request_bound_cases)
    case 1
    then show ?thesis using w by blast
  next
    case 2
    then show ?thesis using w reg by (meson rtranclp.rtrancl_into_rtrancl)
  next
    case 3
    then show ?thesis
      using w reg await_steps bridge_step.receiver by (meson rtranclp.rtrancl_into_rtrancl rtranclp_trans)
  next
    case 4
    then show ?thesis using w reg await_steps by (meson rtranclp.rtrancl_into_rtrancl rtranclp_trans)
  next
    case 5
    then show ?thesis using w reg await_steps by (meson rtranclp.rtrancl_into_rtrancl rtranclp_trans)
  next
    case 6
    then show ?thesis using w reg await_steps by (meson rtranclp.rtrancl_into_rtrancl rtranclp_trans)
  qed
qed

lemmas request_bound_wf = request_bound_steps [THEN bridge_steps_wf]


subsection \<open>The answer of a request\<close>

lemma register_promises:
  assumes "bridge_wf b" "register_and_send p m g s b = (Inr n, b')"
  shows "promised up n m (table b')" "pending n m (table b')"
    "\<exists>c. b_conn b = Some c \<and> (\<forall>e. g = Some e \<longrightarrow> c_generation c = e)
       \<and> (\<forall>x. s = Some x \<longrightarrow> security_gate_support (b_helper_status b) = x)
       \<and> b_sent b' = b_sent b @ [(c_generation c, Payload p)]"
proof -
  obtain c where c: "b_conn b = Some c" "c_open c" "n = b_next_waiter b"
    "b' = put_frame (c_generation c) (Payload p) (b\<lparr>b_waiters := b_waiters b @
       [\<lparr>w_id = n, w_generation = Some (c_generation c), w_matcher = m, w_closed = False\<rparr>],
       b_next_waiter := n + 1\<rparr>)"
    "\<forall>e. g = Some e \<longrightarrow> c_generation c = e"
    "\<forall>x. s = Some x \<longrightarrow> security_gate_support (b_helper_status b) = x"
  proof (cases "b_conn b")
    case None
    with assms(2) show ?thesis by (simp add: register_and_send_def)
  next
    case (Some c)
    show ?thesis
    proof (rule that [OF Some])
      show "c_open c" "n = b_next_waiter b"
        using assms(2) Some by (simp_all add: register_and_send_def Let_def split: if_splits)
      show "\<forall>e. g = Some e \<longrightarrow> c_generation c = e"
        "\<forall>x. s = Some x \<longrightarrow> security_gate_support (b_helper_status b) = x"
        using assms(2) Some by (simp_all add: register_and_send_def split: if_splits option.splits)
      show "b' = put_frame (c_generation c) (Payload p) (b\<lparr>b_waiters := b_waiters b @
         [\<lparr>w_id = n, w_generation = Some (c_generation c), w_matcher = m, w_closed = False\<rparr>],
         b_next_waiter := n + 1\<rparr>)"
        using assms(2) Some by (auto simp: register_and_send_def Let_def split: if_splits)
    qed
  qed
  have lt: "\<forall>n \<in> set (map w_id (b_waiters b) @ map fst (b_mailbox b)). n < b_next_waiter b"
    using assms(1) by (simp add: bridge_wf_def mailbox_wf_def)
  have "w_id w < n" if "w \<in> set (b_waiters b)" for w using lt that c(3) by simp
  then have ne: "w_id w \<noteq> n" if "w \<in> set (b_waiters b)" for w using that by blast
  have "i < n" if "(i, x) \<in> set (b_mailbox b)" for i x
    using lt that c(3) by (metis fst_conv imageI list.set_map set_append UnI2)
  then have me: "(n, x) \<notin> set (b_mailbox b)" for x by blast
  show "promised up n m (table b')"
    unfolding c(4) promised_def table_def put_frame_def using ne me by (simp add: c(3))
  show "pending n m (table b')"
    unfolding c(4) by (simp add: pending_def table_def put_frame_def)
  show "\<exists>c. b_conn b = Some c \<and> (\<forall>e. g = Some e \<longrightarrow> c_generation c = e)
       \<and> (\<forall>x. s = Some x \<longrightarrow> security_gate_support (b_helper_status b) = x)
       \<and> b_sent b' = b_sent b @ [(c_generation c, Payload p)]"
    using c by (simp add: put_frame_def)
qed

lemma request_reply_matches:
  assumes "bridge_wf b" "request_bound ext payload m t g s (b, evs) = (Inr msg, b', evs')"
  shows "matches (ext_url ext) m msg
    \<and> (checks_action_failure m \<longrightarrow> success msg \<noteq> Some False \<and> msg_error msg = None)"
  using assms(2)
proof (cases rule: request_bound_cases)
  case (6 b1 evs1 n b2 msg')
  have "bridge_wf b1" using wait_connected_steps [OF 6(3)] assms(1) by (rule bridge_steps_wf)
  then have "promised (ext_url ext) n m (table b2)" using 6(4) by (rule register_promises(1))
  then have "promised (ext_url ext) n m (table b')"
    using await_invariant [where I = "\<lambda>b. promised (ext_url ext) n m (table b)", OF _ 6(5)]
      promised_event by blast
  moreover have "(n, Inr msg') \<in> set (b_mailbox b')"
    using await_answer [OF 6(5)] by (rule map_of_SomeD)
  ultimately have "matches (ext_url ext) m msg'" by (auto simp: promised_def table_def)
  with 6(1,2) show ?thesis by (auto simp: action_failure_def split: if_splits)
qed auto

text \<open>
  C14. The reply a request returns is one its matcher accepts: it carries the request's own
  correlation id, or its action, and it does not report a failure. A reply to another request,
  a push or a failure report never reaches the caller as a result.
\<close>

theorem request_returns_its_own_reply:
  assumes "bridge_wf b" "request_bound ext payload m t g s (b, evs) = (Inr msg, b', evs')"
  shows "matches (ext_url ext) m msg
    \<and> (checks_action_failure m \<longrightarrow> success msg \<noteq> Some False \<and> msg_error msg = None)"
  using assms by (rule request_reply_matches)

definition demo_ext :: externals where
  "demo_ext = \<lparr>ext_url = (\<lambda>u. Some \<lparr>pu_scheme = ''https'', pu_host = Some u, pu_port = Some 443\<rparr>),
     ext_render = (\<lambda>_. ''''), ext_uuid = show_nat\<rparr>"

definition demo_bridge :: bridge where
  "demo_bridge = attach_connection (new_bridge 15 20)"

definition demo_reply :: "string \<Rightarrow> env_event" where
  "demo_reply i = Inbound 1 (TextFrame (Some (JObject [(''agentRequestId'', JString i)])))"

lemma demo_bridge_wf: "bridge_wf demo_bridge"
  by (simp add: demo_bridge_def attach_connection_wf new_bridge_wf)

theorem request_returns_its_own_reply_witness:
  "\<exists>msg. fst (request_bound demo_ext (JObject []) (Correlation ''r2'') 5 None None
       (demo_bridge, [demo_reply ''r1'', demo_reply ''r2''])) = Inr msg
     \<and> matches (ext_url demo_ext) (Correlation ''r2'') msg"
proof -
  let ?r = "request_bound demo_ext (JObject []) (Correlation ''r2'') 5 None None
       (demo_bridge, [demo_reply ''r1'', demo_reply ''r2''])"
  have "\<not> isl (fst ?r)" by code_simp
  then obtain msg b' evs' where eq: "?r = (Inr msg, b', evs')"
    by (cases ?r; cases "fst ?r") auto
  from request_returns_its_own_reply [OF demo_bridge_wf eq] eq show ?thesis by simp
qed

subsection \<open>Replies arrive\<close>

lemma await_pending:
  assumes "pending n m (table b)" "TimeUp \<notin> set pre" "snu_message_from_value v = Some msg"
    "matches up m msg" "json_as_array v = None"
  shows "\<exists>r b' evs'. await up n (pre @ Inbound g (TextFrame (Some v)) # post) b = (Some r, b', evs')"
  using assms(1,2)
proof (induction pre arbitrary: b)
  case Nil
  have "\<exists>r. map_of (b_mailbox (bridge_event up (Inbound g (TextFrame (Some v))) b)) n = Some r"
    using pending_answered [OF Nil(1) assms(3,4,5), of g]
    by (metis domD dom_map_of_conv_image_fst)
  then show ?case
    by (cases "map_of (b_mailbox b) n") (auto simp: await_unfold)
next
  case (Cons e es)
  show ?case
  proof (cases "map_of (b_mailbox b) n")
    case None
    with Cons show ?thesis by (auto simp: await_unfold pending_event)
  qed (simp add: await_unfold)
qed

text \<open>
  C15. A reply in time is not lost: when the helper is connected and the checks of the request
  pass, a frame its matcher accepts that arrives before the timer ends the wait, whatever
  frames, reconnects and other requests come between: the outcome is a reply, a failure the
  helper reports or a lost connection, never a time-out.
\<close>

theorem reply_in_time_is_delivered:
  assumes "bridge_wf b" "b_ws_bound b" "b_conn b = Some c" "c_open c"
    "\<forall>e. g = Some e \<longrightarrow> e = c_generation c"
    "\<forall>x. s = Some x \<longrightarrow> x = security_gate_support (b_helper_status b)"
    "TimeUp \<notin> set pre" "snu_message_from_value v = Some msg" "matches (ext_url ext) m msg"
  shows "fst (request_bound ext payload m t g s (b, pre @ Inbound h (TextFrame (Some v)) # post))
    \<in> range Inr \<union> {Inl Disconnected, Inl Paused} \<union> Inl ` range ActionFailed"
proof -
  let ?evs = "pre @ Inbound h (TextFrame (Some v)) # post"
  have conn: "b_connected b" "hs_generation (b_helper_status b) = c_generation c"
    using assms(1,3) by (auto simp: bridge_wf_def conn_wf_def status_wf_def)
  have w: "wait_connected (ext_url ext) d (b, ?evs) = (Inr (), b, ?evs)" for d
    using conn assms(2) by (simp add: wait_connected_def run_until_connected_unfold)
  have "isl (fst (register_and_send payload m g s b)) = False"
    using assms(3-6) conn by (auto simp: register_and_send_def Let_def split: option.splits)
  then obtain n b2 where r: "register_and_send payload m g s b = (Inr n, b2)"
    by (cases "register_and_send payload m g s b"; cases "fst (register_and_send payload m g s b)") auto
  have arr: "json_as_array v = None"
    using assms(8) by (cases v) (simp_all add: snu_message_from_value_def json_as_array_def)
  have p: "promised (ext_url ext) n m (table b2)" "pending n m (table b2)"
    using register_promises(1,2) [OF assms(1) r] .
  obtain x b3 evs3 where a: "await (ext_url ext) n ?evs b2 = (Some x, b3, evs3)"
    using await_pending [OF p(2) assms(7,8,9) arr] by blast
  have "promised (ext_url ext) n m (table b3)"
    using await_invariant [where I = "\<lambda>b. promised (ext_url ext) n m (table b)", OF _ a p(1)]
      promised_event by blast
  then have "x = Inl e \<Longrightarrow> e = Disconnected" for e
    using map_of_SomeD [OF await_answer [OF a]] by (auto simp: promised_def table_def)
  then show ?thesis
    using w r a by (auto simp: request_bound_def action_failure_def split: sum.splits option.splits)
qed

theorem reply_in_time_is_delivered_witness:
  "fst (request_bound demo_ext (JObject []) (Correlation ''r2'') 5 (Some 1) None
       (demo_bridge, [HeartbeatTick, demo_reply ''r1'', demo_reply ''r2'']))
     \<in> range Inr \<union> {Inl Disconnected, Inl Paused} \<union> Inl ` range ActionFailed"
  using reply_in_time_is_delivered [of demo_bridge "\<lparr>c_generation = 1, c_open = True, c_last_seen = 0\<rparr>"
      "Some 1" None "[HeartbeatTick, demo_reply ''r1'']" "JObject [(''agentRequestId'', JString ''r2'')]"
      _ demo_ext "Correlation ''r2''" "JObject []" 5 1 "[]"]
  by (simp add: demo_bridge_wf demo_reply_def) (simp add: demo_bridge_def attach_connection_def
      new_bridge_def put_frame_def snu_message_from_value_def optional_def json_as_str_def
      matches_def is_response_for_def demo_ext_def)

end
