(* ===== verification/Gate_Negotiation.thy ===== *)
theory Gate_Negotiation
  imports Bridge_Requests
begin

text \<open>
  The capability negotiation and the preflight fail closed: a connection known to be gated is
  never taken for a legacy one, and an authorization comes from a fresh report only.
\<close>

subsection \<open>Within a generation, gated stays gated\<close>

definition gated_since :: "nat \<Rightarrow> bridge \<Rightarrow> bool" where
  "gated_since g b \<longleftrightarrow> g \<le> b_generation b \<and>
     (b_generation b = g \<longrightarrow> security_gate_support (b_helper_status b) = GatedSupport)"

lemma gated_since_frame [bridge_frame]:
  "gated_since g (b\<lparr>b_conn := c\<rparr>) = gated_since g b"
  "gated_since g (b\<lparr>b_connected := y\<rparr>) = gated_since g b"
  "gated_since g (b\<lparr>b_waiters := ws\<rparr>) = gated_since g b"
  "gated_since g (b\<lparr>b_mailbox := mb\<rparr>) = gated_since g b"
  "gated_since g (b\<lparr>b_next_waiter := n\<rparr>) = gated_since g b"
  "gated_since g (b\<lparr>b_sessions := ss\<rparr>) = gated_since g b"
  "gated_since g (b\<lparr>b_ws_bound := x\<rparr>) = gated_since g b"
  "gated_since g (b\<lparr>b_pending_banner := pb\<rparr>) = gated_since g b"
  "gated_since g (b\<lparr>b_now := t\<rparr>) = gated_since g b"
  "gated_since g (put_frame h f b) = gated_since g b"
  "gated_since g (fail_waiters_for_generation h b) = gated_since g b"
  "gated_since g (fulfill_waiters up msg b) = gated_since g b"
  "gated_since g (close_receiver n b) = gated_since g b"
  "gated_since g (register_session_waiter target b) = gated_since g b"
  by (simp_all add: gated_since_def put_frame_def fail_waiters_for_generation_def fulfill_waiters_def
      close_receiver_def register_session_waiter_def Let_def)

lemma gated_since_attach: "gated_since g b \<Longrightarrow> gated_since g (attach_connection b)"
  by (simp add: attach_connection_def Let_def bridge_frame split: option.split)
    (simp add: gated_since_def fail_waiters_for_generation_def)

lemma gated_since_detach: "gated_since g (detach_connection h b) = gated_since g b"
  by (simp add: detach_connection_def bridge_frame split: option.split)

lemma gated_since_deliver: "gated_since g b \<Longrightarrow> gated_since g (deliver_json up v h b)"
  by (simp add: deliver_json_def deliver_message_def bridge_frame capture_session_def split: option.split)
    (simp add: gated_since_def capture_helper_metadata_def capture_status_wf(3))

lemma gated_since_register: "gated_since g (snd (register_and_send p m e s b)) = gated_since g b"
  by (simp add: register_and_send_def Let_def bridge_frame split: option.split)

lemma gated_since_reader: "gated_since g b \<Longrightarrow> gated_since g (reader_frame up h f b)"
proof -
  assume g: "gated_since g b"
  define b1 where "b1 = (case b_conn b of
      Some c \<Rightarrow> if c_generation c = h then b\<lparr>b_conn := Some (c\<lparr>c_last_seen := b_now b\<rparr>)\<rparr> else b
    | None \<Rightarrow> b)"
  have "gated_since g b1" using g by (simp add: b1_def bridge_frame split: option.split)
  then show ?thesis
    by (simp add: reader_frame_def b1_def [symmetric] bridge_frame gated_since_deliver
        gated_since_detach split: inbound.split option.split)
qed

lemma gated_since_event: "gated_since g b \<Longrightarrow> gated_since g (bridge_event up e b)"
  by (cases e) (simp_all add: bridge_event_def gated_since_attach gated_since_reader gated_since_detach
      heartbeat_def Let_def writer_ends_def gated_since_register bridge_frame split: option.split)

lemma gated_since_step: "bridge_step up b b' \<Longrightarrow> gated_since g b \<Longrightarrow> gated_since g b'"
proof (erule bridge_stepE)
  fix earlier raced evs
  assume "b' = fst (snd (settle_legacy earlier raced (b, evs)))"
  then show "gated_since g b \<Longrightarrow> gated_since g b'"
    by (auto simp: settle_legacy_def Let_def gated_since_def)
next
  fix earlier report evs
  assume "b' = fst (snd (settle_gated earlier report (b, evs)))"
  then show "gated_since g b \<Longrightarrow> gated_since g b'"
    by (auto simp: settle_gated_def Let_def gated_since_def)
qed (simp_all add: gated_since_event gated_since_register send_banner_def bridge_frame split: option.split)

interpretation gated: transition_invariant "bridge_step up" "gated_since g" for up g
  by unfold_locales (rule gated_since_step)

lemmas gated_since_steps = gated.run_inv

subsection \<open>The outcomes of the negotiation\<close>

lemma settle_report_legacy:
  assumes "settle_report up earlier response (b, evs) = (Inr (Legacy g), b', evs')"
  shows "settle_legacy earlier
      ''helper advertised instance security gates during capability refresh but its response omitted them''
      (b, evs) = (Inr (Legacy g), b', evs')"
  using assms by (auto simp: settle_report_def settle_gated_def Let_def split: option.splits if_splits)

lemma settle_failure_legacy:
  assumes "settle_failure earlier e (b, evs) = (Inr (Legacy g), b', evs')"
  shows "settle_legacy earlier
      ''helper advertised instance security gates while capability refresh timed out''
      (b, evs) = (Inr (Legacy g), b', evs')"
  using assms by (auto simp: settle_failure_def Let_def split: bridge_error.splits if_splits)

lemma settle_legacy_result:
  assumes "settle_legacy earlier raced (b, evs) = (Inr (Legacy g), b', evs')"
  shows "hs_generation (b_helper_status b) = g" "g = hs_generation earlier"
    "security_gate_support (b_helper_status b) \<noteq> GatedSupport"
    "\<not> advertises_instance_gates (b_helper_status b)"
    "b' = b\<lparr>b_helper_status := (b_helper_status b)\<lparr>security_gate_support := LegacyUnrestrictedSupport\<rparr>\<rparr>"
  using assms by (auto simp: settle_legacy_def Let_def split: if_splits)

lemma negotiate_legacy_cases:
  assumes "negotiate_capabilities ext t (b, evs) = (Inr (Legacy g), b', evs')"
  obtains earlier raced b2 evs2 where "bridge_steps (ext_url ext) b b2"
    "settle_legacy earlier raced (b2, evs2) = (Inr (Legacy g), b', evs')"
proof -
  obtain b1 evs1 where w: "wait_connected (ext_url ext) (connect_budget b t) (b, evs) = (Inr (), b1, evs1)"
    using assms by (auto simp: negotiate_capabilities_def split: prod.splits sum.splits)
  let ?i = "''snow_caps_'' @ ext_uuid ext (b_next_waiter b1)"
  obtain x b2 evs2 where r: "request ext (capabilities_payload ?i) (Correlation ?i) (clamp 1 2 t)
      (b1, evs1) = (x, b2, evs2)" by (rule prod_cases3)
  have s: "bridge_steps (ext_url ext) b b2"
    using wait_connected_steps [OF w] request_bound_steps [OF r [unfolded request_def]] by auto
  show thesis
  proof (cases x)
    case (Inl e)
    with assms w r have "settle_failure (b_helper_status b1) e (b2, evs2) = (Inr (Legacy g), b', evs')"
      by (simp add: negotiate_capabilities_def Let_def)
    from s settle_failure_legacy [OF this] show thesis by (rule that)
  next
    case (Inr response)
    with assms w r have "settle_report (ext_url ext) (b_helper_status b1) response (b2, evs2)
        = (Inr (Legacy g), b', evs')"
      by (simp add: negotiate_capabilities_def Let_def)
    from s settle_report_legacy [OF this] show thesis by (rule that)
  qed
qed

lemma negotiate_legacy_status:
  assumes "bridge_wf b" "negotiate_capabilities ext t (b, evs) = (Inr (Legacy g), b', evs')"
  shows "b_generation b' = g \<and> security_gate_support (b_helper_status b') = LegacyUnrestrictedSupport
    \<and> \<not> advertises_instance_gates (b_helper_status b')
    \<and> (b_generation b = g \<longrightarrow> security_gate_support (b_helper_status b) \<noteq> GatedSupport)"
proof -
  obtain earlier raced b2 evs2 where s: "bridge_steps (ext_url ext) b b2"
    and l: "settle_legacy earlier raced (b2, evs2) = (Inr (Legacy g), b', evs')"
    using negotiate_legacy_cases [OF assms(2)] .
  have g2: "b_generation b2 = g"
    using bridge_steps_wf [OF s assms(1)] settle_legacy_result(1) [OF l]
    by (simp add: bridge_wf_def status_wf_def)
  have "gated_since g b \<Longrightarrow> gated_since g b2" by (rule gated_since_steps [OF s])
  with g2 settle_legacy_result [OF l] show ?thesis by (auto simp: gated_since_def)
qed

text \<open>
  C7. No downgrade: when the negotiation takes the helper for a legacy one, unrestricted by
  gates, then the status it leaves behind belongs to the generation it reports, advertises no
  gates, and no state since that generation was attached had been marked gated.
\<close>

theorem gated_helper_is_never_legacy:
  assumes "bridge_wf b" "negotiate_capabilities ext t (b, evs) = (Inr (Legacy g), b', evs')"
  shows "b_generation b' = g \<and> security_gate_support (b_helper_status b') = LegacyUnrestrictedSupport
    \<and> \<not> advertises_instance_gates (b_helper_status b')
    \<and> (b_generation b = g \<longrightarrow> security_gate_support (b_helper_status b) \<noteq> GatedSupport)"
  using assms by (rule negotiate_legacy_status)

theorem gated_helper_is_never_legacy_witness:
  "fst (negotiate_capabilities demo_ext 5 (demo_bridge, [TimeUp])) = Inr (Legacy 1)
   \<and> b_generation (fst (snd (negotiate_capabilities demo_ext 5 (demo_bridge, [TimeUp])))) = 1"
proof -
  let ?r = "negotiate_capabilities demo_ext 5 (demo_bridge, [TimeUp])"
  have f: "fst ?r = Inr (Legacy 1)" by code_simp
  then have "?r = (Inr (Legacy 1), fst (snd ?r), snd (snd ?r))" by (metis prod.collapse)
  from gated_helper_is_never_legacy [OF demo_bridge_wf this] f show ?thesis by simp
qed

subsection \<open>Authorizations are fresh\<close>

definition fresh_report :: "externals \<Rightarrow> snu_message \<Rightarrow> helper_capabilities_report \<Rightarrow> bool" where
  "fresh_report ext response report \<longleftrightarrow>
     (\<exists>k. agent_request_id response = Some (''snow_caps_'' @ ext_uuid ext k))
     \<and> success response \<noteq> Some False \<and> msg_error response = None
     \<and> helper_capabilities_report_from_value (ext_url ext) (JObject (extra response)) = Some report
     \<and> supports_instance_gates report"

lemma settle_gated_result:
  assumes "settle_gated earlier report (b, evs) = (Inr (Gated st), b', evs')"
  shows "instance_gates_of st = report_instance_gates report"
    "hs_generation st = hs_generation (b_helper_status b')"
    "security_gate_support (b_helper_status b') = GatedSupport"
  using assms by (auto simp: settle_gated_def Let_def split: if_splits)

lemma settle_report_gated:
  assumes "settle_report up earlier response (b, evs) = (Inr (Gated st), b', evs')"
  shows "\<exists>report. helper_capabilities_report_from_value up (JObject (extra response)) = Some report
    \<and> supports_instance_gates report \<and> settle_gated earlier report (b, evs) = (Inr (Gated st), b', evs')"
  using assms by (auto simp: settle_report_def settle_legacy_def Let_def split: option.splits if_splits)

lemma settle_failure_never_gated:
  "fst (settle_failure earlier e wd) \<noteq> Inr (Gated st)"
  by (auto simp: settle_failure_def settle_legacy_def Let_def split: bridge_error.splits prod.split)

lemma negotiate_gated_fresh:
  assumes "bridge_wf b" "negotiate_capabilities ext t (b, evs) = (Inr (Gated st), b', evs')"
  shows "\<exists>response report. fresh_report ext response report
    \<and> instance_gates_of st = report_instance_gates report \<and> hs_generation st = b_generation b'"
proof -
  obtain b1 evs1 where w: "wait_connected (ext_url ext) (connect_budget b t) (b, evs) = (Inr (), b1, evs1)"
    using assms(2) by (auto simp: negotiate_capabilities_def split: prod.splits sum.splits)
  let ?i = "''snow_caps_'' @ ext_uuid ext (b_next_waiter b1)"
  obtain x b2 evs2 where r: "request ext (capabilities_payload ?i) (Correlation ?i) (clamp 1 2 t)
      (b1, evs1) = (x, b2, evs2)" by (rule prod_cases3)
  note r' = r [unfolded request_def]
  have wf1: "bridge_wf b1" using wait_connected_steps [OF w] assms(1) by (rule bridge_steps_wf)
  have wf2: "bridge_wf b2" using r' wf1 by (rule request_bound_wf)
  obtain response where x: "x = Inr response"
    using assms(2) w r settle_failure_never_gated [of "b_helper_status b1" _ "(b2, evs2)" st]
    by (cases x) (auto simp: negotiate_capabilities_def Let_def dest: arg_cong [of _ _ fst])
  with assms(2) w r have "settle_report (ext_url ext) (b_helper_status b1) response (b2, evs2)
      = (Inr (Gated st), b', evs')"
    by (simp add: negotiate_capabilities_def Let_def)
  from settle_report_gated [OF this] obtain report where
    rep: "helper_capabilities_report_from_value (ext_url ext) (JObject (extra response)) = Some report"
      "supports_instance_gates report"
      and sg: "settle_gated (b_helper_status b1) report (b2, evs2) = (Inr (Gated st), b', evs')"
    by blast
  have own: "matches (ext_url ext) (Correlation ?i) response
    \<and> (checks_action_failure (Correlation ?i) \<longrightarrow> success response \<noteq> Some False \<and> msg_error response = None)"
    using r' x by (intro request_reply_matches [OF wf1]) simp
  have "fresh_report ext response report"
    using own rep by (auto simp: fresh_report_def matches_def is_response_for_def checks_action_failure_def)
  moreover have "bridge_wf b'"
    using settle_gated_wf [OF wf2, of "b_helper_status b1" report evs2] sg by simp
  ultimately show ?thesis
    using settle_gated_result [OF sg] by (auto simp: bridge_wf_def status_wf_def)
qed


definition demo_gates_report :: "string \<Rightarrow> json" where
  "demo_gates_report i = JObject [(''agentRequestId'', JString i),
     (''capabilities'', JObject [(''instanceSecurityGates'', JNumber (IntNumber 1))]),
     (''instanceGates'', JObject [(''dev'', JObject [(''revision'', JNumber (IntNumber 1)),
        (''gates'', JObject [(''backgroundScripts'', JString ''off''), (''deleteRecords'', JString ''off''),
          (''createArtifacts'', JString ''approve''), (''restRequest'', JString ''auto''),
          (''browserDebugger'', JString ''off'')])])])]"

definition demo_payload :: json where
  "demo_payload = JObject [(''action'', JString ''createRecord''), (''url'', JString ''dev'')]"

definition demo_refresh :: env_event where
  "demo_refresh = Inbound 1 (TextFrame (Some (demo_gates_report (''snow_caps_'' @ show_nat 0))))"


end
