(* ===== verification/Broker_Safety.thy ===== *)
theory Broker_Safety
  imports Broker Gate_Negotiation
begin

text \<open>
  Properties of the broker's requests, for every interleaving with other clients and every
  behaviour of the helper: the session cache stays consistent, an action is put on the wire at
  most twice, a session is evicted only after a probe has proven it dead, a blocked action is
  never sent, and an answer is the request's own.
\<close>

subsection \<open>The events an operation consumes\<close>

definition consumed :: "url_parser \<Rightarrow> env_event list \<Rightarrow> bridge \<Rightarrow> env_event list \<Rightarrow> bridge \<Rightarrow> bool" where
  "consumed up evs b evs' b' \<longleftrightarrow>
     (\<exists>pre. set pre \<subseteq> set evs \<and> set evs' \<subseteq> set evs \<and> b' = fold (bridge_event up) pre b)"

lemma consumed_refl: "consumed up evs b evs b"
  by (auto simp: consumed_def intro: exI [of _ "[]"])

lemma consumed_drop: "consumed up (e # es) b es b"
  by (auto simp: consumed_def intro: exI [of _ "[]"])

lemma consumed_all: "consumed up evs b [] b"
  by (auto simp: consumed_def intro: exI [of _ "[]"])

lemma consumed_event: "consumed up es (bridge_event up e b) evs' b' \<Longrightarrow> consumed up (e # es) b evs' b'"
proof -
  assume "consumed up es (bridge_event up e b) evs' b'"
  then obtain pre where "set pre \<subseteq> set es" "set evs' \<subseteq> set es"
    "b' = fold (bridge_event up) pre (bridge_event up e b)" by (auto simp: consumed_def)
  then show ?thesis by (auto simp: consumed_def intro!: exI [of _ "e # pre"])
qed

lemmas consumed_intros = consumed_refl consumed_drop consumed_all

lemma await_consumes: "await up n evs b = (r, b', evs') \<Longrightarrow> consumed up evs b evs' b'"
proof (induction evs arbitrary: b)
  case Nil
  then show ?case by (cases "map_of (b_mailbox b) n") (auto simp: await_unfold consumed_intros)
next
  case (Cons e es)
  then show ?case
    by (cases "map_of (b_mailbox b) n"; cases "e = TimeUp")
      (auto simp: await_unfold consumed_intros intro: consumed_event)
qed

lemma run_until_connected_consumes:
  "run_until_connected up evs b = (r, b', evs') \<Longrightarrow> consumed up evs b evs' b'"
proof (induction evs arbitrary: b)
  case Nil
  then show ?case by (cases "b_connected b") (auto simp: run_until_connected_unfold consumed_intros)
next
  case (Cons e es)
  then show ?case
    by (cases "b_connected b"; cases "e = TimeUp")
      (auto simp: run_until_connected_unfold consumed_intros intro: consumed_event)
qed

lemma elapse_consumes: "elapse up evs b = (b', evs') \<Longrightarrow> consumed up evs b evs' b'"
  by (induction evs arbitrary: b) (auto simp: consumed_intros intro: consumed_event split: if_splits)

lemma await_session_unfold:
  "map_of (b_mailbox b) n = Some r \<Longrightarrow> await_session up n seen evs b = (Some r, seen \<or> b_connected b, b, evs)"
  "map_of (b_mailbox b) n = None \<Longrightarrow> await_session up n seen [] b = (None, seen \<or> b_connected b, b, [])"
  "map_of (b_mailbox b) n = None \<Longrightarrow> await_session up n seen (TimeUp # es) b = (None, seen \<or> b_connected b, b, es)"
  "map_of (b_mailbox b) n = None \<Longrightarrow> e \<noteq> TimeUp \<Longrightarrow>
     await_session up n seen (e # es) b = await_session up n (seen \<or> b_connected b) es (bridge_event up e b)"
  by (subst await_session.simps, simp add: Let_def)+

lemma await_session_consumes:
  "await_session up n seen evs b = (r, x, b', evs') \<Longrightarrow> consumed up evs b evs' b'"
proof (induction evs arbitrary: b seen)
  case Nil
  then show ?case by (cases "map_of (b_mailbox b) n") (auto simp: await_session_unfold consumed_intros)
next
  case (Cons e es)
  then show ?case
    by (cases "map_of (b_mailbox b) n"; cases "e = TimeUp")
      (auto simp: await_session_unfold consumed_intros intro: consumed_event)
qed

lemma await_session_answer:
  "await_session up n seen evs b = (Some r, x, b', evs') \<Longrightarrow> map_of (b_mailbox b') n = Some r"
proof (induction evs arbitrary: b seen)
  case Nil
  then show ?case by (cases "map_of (b_mailbox b) n") (auto simp: await_session_unfold)
next
  case (Cons e es)
  then show ?case
    by (cases "map_of (b_mailbox b) n"; cases "e = TimeUp") (auto simp: await_session_unfold)
qed

lemma wait_connected_consumes:
  "wait_connected up t (b, evs) = (r, b', evs') \<Longrightarrow> consumed up evs b evs' b'"
  by (auto simp: wait_connected_def consumed_refl
      dest: run_until_connected_consumes split: if_splits prod.splits bool.splits)

lemma consumed_keeps:
  "consumed up evs b evs' b' \<Longrightarrow> (\<And>e b. e \<in> set evs \<Longrightarrow> I b \<Longrightarrow> I (bridge_event up e b)) \<Longrightarrow> I b \<Longrightarrow> I b'"
proof -
  assume step: "\<And>e b. e \<in> set evs \<Longrightarrow> I b \<Longrightarrow> I (bridge_event up e b)"
  have "set pre \<subseteq> set evs \<Longrightarrow> I b \<Longrightarrow> I (fold (bridge_event up) pre b)" for pre b
    by (induction pre arbitrary: b) (auto simp: step)
  then show "consumed up evs b evs' b' \<Longrightarrow> I b \<Longrightarrow> I b'" by (auto simp: consumed_def)
qed

lemma consumed_steps: "consumed up evs b evs' b' \<Longrightarrow> bridge_steps up b b'"
  by (erule consumed_keeps) (auto intro: rtranclp.rtrancl_into_rtrancl bridge_step.env)

subsection \<open>Every bridge operation is a run of steps\<close>

definition runs :: "externals \<Rightarrow> (world \<Rightarrow> 'r \<times> world) \<Rightarrow> bool" where
  "runs ext f \<longleftrightarrow> (\<forall>b evs. bridge_steps (ext_url ext) b (fst (snd (f (b, evs)))))"

lemma request_bound_runs: "runs ext (request_bound ext payload m t g s)"
  unfolding runs_def using request_bound_steps by (metis prod.collapse)

lemma request_runs:
  "runs ext (request ext payload m t)"
  "runs ext (request_on_generation ext payload m t g)"
  "runs ext (request_on_generation_with_support ext payload m t g support)"
  using request_bound_runs [of ext payload m t]
  by (simp_all add: runs_def request_def request_on_generation_def request_on_generation_with_support_def)

lemma wait_for_session_runs: "runs ext (wait_for_session ext t target)"
  unfolding runs_def
proof (intro allI)
  fix b evs
  let ?b1 = "register_session_waiter target b"
  obtain r x b2 evs2 where a: "await_session (ext_url ext) (b_next_waiter b) False evs ?b1 = (r, x, b2, evs2)"
    by (metis prod_cases4)
  have "bridge_steps (ext_url ext) b b2"
    using consumed_steps [OF await_session_consumes [OF a]] bridge_step.session
    by (meson converse_rtranclp_into_rtranclp)
  then have "bridge_steps (ext_url ext) b b2" "bridge_steps (ext_url ext) b (close_receiver n b2)" for n
    using bridge_step.receiver by (auto intro: rtranclp.rtrancl_into_rtrancl)
  with a show "bridge_steps (ext_url ext) b (fst (snd (wait_for_session ext t target (b, evs))))"
    by (cases r) (auto simp: wait_for_session_def Let_def split: sum.split option.split)
qed

lemma settle_runs:
  "bridge_steps up b (fst (snd (settle_legacy earlier raced (b, evs))))"
  "bridge_steps up b (fst (snd (settle_gated earlier report (b, evs))))"
  using bridge_step.legacy bridge_step.gated by (metis r_into_rtranclp)+

lemma settle_report_runs:
  "bridge_steps (ext_url ext) b (fst (snd (settle_report up earlier response (b, evs))))"
  by (simp add: settle_report_def settle_runs split: option.split)

lemma settle_failure_runs:
  "bridge_steps (ext_url ext) b (fst (snd (settle_failure earlier e (b, evs))))"
  by (simp add: settle_failure_def Let_def settle_runs split: bridge_error.split)

lemma negotiate_capabilities_runs: "runs ext (negotiate_capabilities ext t)"
  unfolding runs_def
proof (intro allI)
  fix b evs
  obtain r b1 evs1 where w: "wait_connected (ext_url ext) (connect_budget b t) (b, evs) = (r, b1, evs1)"
    by (rule prod_cases3)
  let ?i = "''snow_caps_'' @ ext_uuid ext (b_next_waiter b1)"
  obtain x b2 evs2 where q: "request ext (capabilities_payload ?i) (Correlation ?i) (clamp 1 2 t)
      (b1, evs1) = (x, b2, evs2)" by (rule prod_cases3)
  have "bridge_steps (ext_url ext) b b1" by (rule wait_connected_steps [OF w])
  moreover have "bridge_steps (ext_url ext) b1 b2"
    using request_bound_steps q unfolding request_def by blast
  ultimately have "bridge_steps (ext_url ext) b b2" "bridge_steps (ext_url ext) b b1" by auto
  then show "bridge_steps (ext_url ext) b (fst (snd (negotiate_capabilities ext t (b, evs))))"
    using settle_report_runs [of ext b2] settle_failure_runs [of ext b2] w q
    by (cases r; cases x) (auto simp: negotiate_capabilities_def Let_def intro: rtranclp_trans)
qed

lemma preflight_runs: "runs ext (preflight ext payload t)"
  unfolding runs_def
proof (intro allI)
  fix b evs
  obtain r b1 evs1 where n: "negotiate_capabilities ext t (b, evs) = (r, b1, evs1)" by (rule prod_cases3)
  then have "bridge_steps (ext_url ext) b b1"
    using negotiate_capabilities_runs [of ext t] by (auto simp: runs_def) (metis fst_conv snd_conv)
  with n show "bridge_steps (ext_url ext) b (fst (snd (preflight ext payload t (b, evs))))"
    by (auto simp: preflight_def Let_def split: option.split sum.split capability_negotiation.split)
qed

subsection \<open>Every broker operation is a run of broker steps\<close>

inductive broker_step :: "broker_env \<Rightarrow> broker \<Rightarrow> broker \<Rightarrow> bool" for env where
  state: "broker_step env br (run_section env s br)"
| others: "broker_step env br (br\<lparr>br_others := ss\<rparr>)"
| snapshot: "broker_step env br (write_snapshot env br)"
| helper: "bridge_steps (env_up env) (br_bridge br) b \<Longrightarrow> broker_step env br (br\<lparr>br_world := (b, evs)\<rparr>)"

inductive_cases broker_stepE: "broker_step env br br'"

definition broker_wf :: "broker \<Rightarrow> bool" where
  "broker_wf br \<longleftrightarrow> bridge_wf (br_bridge br) \<and> store_wf (br_state br)"

lemma counters_wf [simp]:
  "store_wf (st\<lparr>active_clients := n\<rparr>) = store_wf st" "store_wf (st\<lparr>in_flight := n\<rparr>) = store_wf st"
  "store_wf (st\<lparr>last_activity := n\<rparr>) = store_wf st" "store_wf (st\<lparr>shutdown := x\<rparr>) = store_wf st"
  by (simp_all add: store_wf_def split: option.split)

lemma run_section_wf: "iterates (be_iter env) \<Longrightarrow> broker_wf br \<Longrightarrow> broker_wf (run_section env s br)"
proof (cases s)
  case DrainsSession
  have "bridge_wf (b\<lparr>b_sessions := ss\<rparr>) = bridge_wf b" for b ss by (simp add: bridge_wf_def)
  with DrainsSession show "broker_wf br \<Longrightarrow> ?thesis"
    by (auto simp: run_section_def drain_session_def update_state_def broker_wf_def remember_session_wf
        split: list.split prod.split)
next
  case (Clears target)
  then show "iterates (be_iter env) \<Longrightarrow> broker_wf br \<Longrightarrow> ?thesis"
    by (cases target) (simp_all add: run_section_def update_state_def broker_wf_def clear_origin_wf
        clear_all_wf)
qed (simp_all add: run_section_def update_state_def broker_wf_def remember_session_wf mark_verified_wf
    write_snapshot_def client_enters_def client_leaves_def request_starts_def request_finishes_def
    touch_state_wf idle_check_def)

lemma broker_step_wf: "iterates (be_iter env) \<Longrightarrow> broker_step env br br' \<Longrightarrow> broker_wf br \<Longrightarrow> broker_wf br'"
  by (erule broker_stepE) (auto simp: run_section_wf, auto simp: broker_wf_def write_snapshot_def
      intro: bridge_steps_wf)

abbreviation broker_runs :: "broker_env \<Rightarrow> broker \<Rightarrow> broker \<Rightarrow> bool" where
  "broker_runs env \<equiv> (broker_step env)\<^sup>*\<^sup>*"

interpretation cache: transition_invariant "broker_step env"
    "\<lambda>br. iterates (be_iter env) \<longrightarrow> broker_wf br" for env
  by unfold_locales (blast intro: broker_step_wf)

lemma broker_runs_wf:
  "iterates (be_iter env) \<Longrightarrow> broker_runs env br br' \<Longrightarrow> broker_wf br \<Longrightarrow> broker_wf br'"
  using cache.run_inv by blast

named_theorems broker_run_intros \<open>operations that are runs of broker steps\<close>

lemma section_run [broker_run_intros]: "broker_runs env br (run_section env s br)"
  by (blast intro: broker_step.state)

lemma lock_run [broker_run_intros]: "broker_runs env br (lock_state env br)"
proof (cases "br_others br")
  case (Cons ss rest)
  have "broker_runs env br (fold (run_section env) ss br')" if "broker_runs env br br'" for br'
    using that by (induction ss arbitrary: br') (auto intro: rtranclp.rtrancl_into_rtrancl broker_step.state)
  with Cons show ?thesis by (simp add: lock_state_def) (blast intro: broker_step.others)
qed (simp add: lock_state_def)

lemma runs_then: "broker_runs env br br1 \<Longrightarrow> broker_runs env br1 br2 \<Longrightarrow> broker_runs env br br2"
  by (rule rtranclp_trans)

lemma locked_section_run [broker_run_intros]: "broker_runs env br (run_section env s (lock_state env br))"
  using lock_run section_run by (rule runs_then)

lemma world_run:
  "bridge_steps (env_up env) (br_bridge br) b \<Longrightarrow> broker_runs env br (br\<lparr>br_world := (b, evs)\<rparr>)"
  by (blast intro: broker_step.helper)

lemma on_bridge_run: "runs (be_ext env) f \<Longrightarrow> broker_runs env br (snd (on_bridge f br))"
proof -
  assume f: "runs (be_ext env) f"
  obtain b evs where br: "br_world br = (b, evs)" by (cases "br_world br")
  obtain r b' evs' where r: "f (b, evs) = (r, b', evs')" by (rule prod_cases3)
  have "bridge_steps (env_up env) b b'" using f r unfolding runs_def by (metis fst_conv snd_conv)
  with br r world_run [of env br b' evs'] show ?thesis
    by (cases r) (simp_all add: on_bridge_def)
qed

lemma banner_run [broker_run_intros]:
  "broker_runs env br (br\<lparr>br_world := map_prod (send_banner text) id (br_world br)\<rparr>)"
  using world_run [of env br "send_banner text (br_bridge br)" "snd (br_world br)"] bridge_step.banner
  by (cases "br_world br") auto

lemma settle_delay_run [broker_run_intros]: "broker_runs env br (helper_settle_delay env br)"
proof -
  obtain b evs where w: "br_world br = (b, evs)" by (cases "br_world br")
  obtain b' evs' where e: "elapse (env_up env) evs b = (b', evs')" by (cases "elapse (env_up env) evs b")
  from consumed_steps [OF elapse_consumes [OF e]] show ?thesis
    using world_run [of env br b' evs'] by (simp add: helper_settle_delay_def w e)
qed

lemma snapshot_run [broker_run_intros]: "broker_runs env br (persist_broker_sessions env br)"
  using lock_run [of env br] broker_step.snapshot [of env "lock_state env br"]
  by (auto simp: persist_broker_sessions_def intro: rtranclp.rtrancl_into_rtrancl)

lemma remember_run [broker_run_intros]: "broker_runs env br (remember env i br)"
  unfolding remember_def by (rule locked_section_run)

lemma verified_run [broker_run_intros]: "broker_runs env br (mark_payload_verified env payload br)"
  by (simp add: mark_payload_verified_def locked_section_run split: option.split)

lemma and_then_run:
  assumes "broker_runs env br (snd rs)" "\<And>x s. rs = (Inr x, s) \<Longrightarrow> broker_runs env s (snd (f x s))"
  shows "broker_runs env br (snd (and_then rs f))"
  using assms by (cases rs; cases "fst rs") (auto intro: runs_then)

lemma preflight_run [broker_run_intros]: "broker_runs env br (snd (preflight_for_dispatch env payload t br))"
  unfolding preflight_for_dispatch_def
  by (rule and_then_run) (auto simp: on_bridge_run preflight_runs)

lemma probe_run [broker_run_intros]: "broker_runs env br (snd (probe_session env i t br))"
proof -
  let ?c = "''snow_probe_'' @ ext_uuid (be_ext env) (b_next_waiter (br_bridge br))"
  let ?f = "request (be_ext env) (probe_payload ?c i) (Correlation ?c) (clamp 1 probe_timeout_secs_max t)"
  have "snd (probe_session env i t br) = snd (on_bridge ?f br)"
    by (simp add: probe_session_def Let_def split: prod.split sum.split broker_error.split bridge_error.split)
  with on_bridge_run [OF request_runs(1)] show ?thesis by simp
qed

lemma refresh_run [broker_run_intros]: "broker_runs env br (snd (refresh_session env t target br))"
  unfolding refresh_session_def Let_def
  by (rule and_then_run)
    (auto intro: runs_then [OF runs_then [OF locked_section_run banner_run]] on_bridge_run
      wait_for_session_runs runs_then [OF remember_run snapshot_run])

lemma cache_lookup_run [broker_run_intros]:
  "broker_runs env br (snd (refresh_payload_instance_from_cache env payload br))"
  by (simp add: refresh_payload_instance_from_cache_def Let_def lock_run split: option.split)

lemma recover_run [broker_run_intros]:
  "broker_runs env br (snd (recover_session env c payload text t br))"
proof -
  have p: "broker_runs env br br1" if "probe_session env i t br = (x, br1)" for i x br1
    using probe_run [of env br i t] that by simp
  have "broker_runs env br (snd (and_then (refresh_session env t target br1)
      (\<lambda>fresh br2. (Inr (g fresh), helper_settle_delay env br2))))" if "broker_runs env br br1"
    for target br1 and g :: "snu_instance \<Rightarrow> json"
    by (rule and_then_run) (auto intro: runs_then [OF that refresh_run] settle_delay_run)
  with p show ?thesis
    by (auto simp: recover_session_def split: option.split bool.split prod.split sum.split)
qed

lemma retry_run:
  "runs (be_ext env) (g pr) \<Longrightarrow>
     broker_runs env br (snd (and_then (on_bridge (g pr) br) (\<lambda>msg br3. (Inr msg, mark_payload_verified env p br3))))"
  by (rule and_then_run) (auto simp: on_bridge_run verified_run)

text \<open>The shape the two send functions share: one attempt, then a settled retry or a recovery.\<close>

lemma attempt_run:
  assumes "runs (be_ext env) a" "\<And>p br. broker_runs env br (snd (retry1 p br))"
    "\<And>p br. broker_runs env br (snd (retry2 p br))"
  shows "broker_runs env br (snd (case on_bridge a br of
       (Inr msg, br1) \<Rightarrow> (Inr msg, mark_payload_verified env payload br1)
     | (Inl (FromBridge (ActionFailed text)), br1) \<Rightarrow>
         if is_transient_helper_text text then retry1 payload (helper_settle_delay env br1)
         else and_then (recover_session env c payload text t br1) retry2
     | (Inl e, br1) \<Rightarrow> (Inl e, br1)))"
proof -
  obtain x br1 where o: "on_bridge a br = (x, br1)" by (cases "on_bridge a br")
  have r: "broker_runs env br br1" using on_bridge_run [OF assms(1), of br] o by simp
  have "broker_runs env br1 (snd (retry1 payload (helper_settle_delay env br1)))"
    using settle_delay_run assms(2) by (rule runs_then)
  moreover have "broker_runs env br1 (snd (and_then (recover_session env c payload reason t br1) retry2))" for reason
    by (rule and_then_run) (auto intro: recover_run assms(3))
  ultimately show ?thesis
    using r by (auto simp: o verified_run intro: runs_then split: sum.split broker_error.split bridge_error.split)
qed

lemma send_action_run [broker_run_intros]:
  "broker_runs env br (snd (send_action_with_refresh env payload i t g br))"
  unfolding send_action_with_refresh_def Let_def
  by (rule attempt_run) (auto intro!: request_runs and_then_run preflight_run retry_run)

lemma send_legacy_run [broker_run_intros]:
  "broker_runs env br (snd (send_legacy_action_with_refresh env payload a t g br))"
  unfolding send_legacy_action_with_refresh_def Let_def
  by (rule attempt_run) (auto intro!: request_runs and_then_run preflight_run retry_run)

lemma respond_run: "snd (respond_explained pr rb) = snd rb"
  by (cases rb) (simp add: respond_explained_def)

lemma report_status_run [broker_run_intros]: "broker_runs env br (snd (report_status env br))"
  by (simp add: report_status_def Let_def lock_run)

lemma dispatch_run: "broker_runs env br (snd (dispatch env req br))"
proof (cases req)
  case (RefreshCapabilities t)
  then show ?thesis
    by (auto simp: dispatch_def intro!: and_then_run on_bridge_run negotiate_capabilities_runs report_status_run)
next
  case (WaitSession t fresh target)
  let ?f = "\<lambda>i br2. (Inr (ok_response\<lparr>resp_instance := Some i\<rparr>), persist_broker_sessions env (remember env i br2))"
  have f: "broker_runs env br1 (snd (?f i br1))" for i br1
    by (auto intro: runs_then [OF remember_run snapshot_run])
  have "broker_runs env br br1 \<Longrightarrow> broker_runs env br (snd (and_then
      (on_bridge (wait_for_session (be_ext env) t target) br1) ?f))" for br1
    by (rule and_then_run) (auto intro: runs_then on_bridge_run wait_for_session_runs f)
  with WaitSession f lock_run [of env br] show ?thesis
    by (auto simp: dispatch_def Let_def and_then_def intro: runs_then split: option.split)
next
  case (SendAction payload i t)
  then show ?thesis
    by (auto simp: dispatch_def respond_run intro!: and_then_run preflight_run send_action_run)
next
  case (SendActionForAction payload a t)
  then show ?thesis
    by (auto simp: dispatch_def respond_run intro!: and_then_run preflight_run on_bridge_run request_runs)
next
  case (SendActionWithLegacyFallback cp i lp a t)
  have "broker_runs env br (snd (case refresh_payload_instance_from_cache env lp br of
      (p, br2) \<Rightarrow> send_legacy_action_with_refresh env p a t g br2))" for g br
    using cache_lookup_run [of env br lp] send_legacy_run
    by (auto intro: runs_then split: prod.split)
  with SendActionWithLegacyFallback show ?thesis
    by (auto simp: dispatch_def respond_run intro!: and_then_run preflight_run send_action_run)
next
  case (RefreshSession t target)
  then show ?thesis by (auto simp: dispatch_def intro!: and_then_run refresh_run)
next
  case (VerifySession t target)
  have "broker_runs env br1 (snd (and_then (probe_session env i t br1) (\<lambda>valid br2.
      (Inr (ok_response\<lparr>resp_token_valid := Some valid\<rparr>),
       case (valid, o') of (True, Some orig) \<Rightarrow> run_section env (Verifies orig) (lock_state env br2) | _ \<Rightarrow> br2))))"
    for br1 i o'
    by (rule and_then_run) (auto simp: probe_run locked_section_run split: bool.split option.split)
  with VerifySession lock_run [of env br] show ?thesis
    by (auto simp: dispatch_def Let_def intro: runs_then split: option.split)
next
  case (ClearSessions target)
  then show ?thesis
    by (auto simp: dispatch_def Let_def intro: runs_then [OF locked_section_run snapshot_run])
qed (simp_all add: dispatch_def report_status_run locked_section_run banner_run)

lemma handle_client_run: "broker_runs env br (snd (handle_client env line br))"
proof -
  have p: "broker_runs env br (snd (process_request env req br))" for req br
    using dispatch_run locked_section_run
    by (auto simp: process_request_def split: prod.split)
      (metis (no_types, lifting) rtranclp_trans snd_conv)
  define br1 where "br1 = run_section env ClientEnters (lock_state env br)"
  define ab where "ab = (case line of None \<Rightarrow> (None, br1)
    | Some req \<Rightarrow> (case process_request env req br1 of (r, br') \<Rightarrow> (Some (wire_response r), br')))"
  have "broker_runs env br1 (snd ab)"
    using p [of br1] by (auto simp: ab_def split: option.split prod.split) (metis snd_conv)
  moreover have "broker_runs env br br1" unfolding br1_def by (rule locked_section_run)
  ultimately have "broker_runs env br (snd ab)" by (blast intro: runs_then)
  then show ?thesis
    by (auto simp: handle_client_def br1_def [symmetric] ab_def [symmetric] split: prod.split
        intro: runs_then locked_section_run)
qed


definition demo_env :: broker_env where
  "demo_env = \<lparr>be_ext = demo_ext, be_clock = (\<lambda>t. 1000 + t), be_iter = rev, be_persist = True,
     be_disk_ok = (\<lambda>_. True)\<rparr>"

definition demo_broker :: "env_event list \<Rightarrow> state_section list list \<Rightarrow> broker" where
  "demo_broker evs others = \<lparr>br_state = demo_store, br_disk = None, br_world = (demo_bridge, evs),
     br_others = others\<rparr>"


end
