(* ===== verification/Broker_Dispatch.thy ===== *)
theory Broker_Dispatch
  imports Broker_Safety
begin

text \<open>
  What an action's dispatch does to the helper and to the cache: how often the payload is put
  on the wire, when a session is evicted, which session a retry carries, and what comes back.
\<close>

subsection \<open>Counting what is sent\<close>

text \<open>
  The payloads counted are those of one action. The other clients' requests among the events
  are assumed to be of other actions: the count is that of the request looked at.
\<close>

definition acts :: "string \<Rightarrow> json \<Rightarrow> bool" where
  "acts a p \<longleftrightarrow> json_get ''action'' p = Some (JString a)"

definition sends :: "string \<Rightarrow> bridge \<Rightarrow> nat" where
  "sends a b = length (filter (\<lambda>gf. case snd gf of Payload p \<Rightarrow> acts a p | _ \<Rightarrow> False) (b_sent b))"

definition quiet :: "string \<Rightarrow> env_event list \<Rightarrow> bool" where
  "quiet a evs \<longleftrightarrow> (\<forall>e \<in> set evs. case e of Concurrent p _ _ _ \<Rightarrow> \<not> acts a p | _ \<Rightarrow> True)"

lemma sends_frame [simp]:
  "sends a (b\<lparr>b_conn := c\<rparr>) = sends a b" "sends a (b\<lparr>b_connected := y\<rparr>) = sends a b"
  "sends a (b\<lparr>b_waiters := ws\<rparr>) = sends a b" "sends a (b\<lparr>b_mailbox := mb\<rparr>) = sends a b"
  "sends a (b\<lparr>b_next_waiter := n\<rparr>) = sends a b" "sends a (b\<lparr>b_sessions := ss\<rparr>) = sends a b"
  "sends a (b\<lparr>b_ws_bound := x\<rparr>) = sends a b" "sends a (b\<lparr>b_pending_banner := pb\<rparr>) = sends a b"
  "sends a (b\<lparr>b_now := t\<rparr>) = sends a b" "sends a (b\<lparr>b_helper_status := st\<rparr>) = sends a b"
  "sends a (b\<lparr>b_generation := g\<rparr>) = sends a b"
  by (simp_all add: sends_def)

lemma sends_put [simp]:
  "sends a (put_frame g f b) = sends a b + (case f of Payload p \<Rightarrow> if acts a p then 1 else 0 | _ \<Rightarrow> 0)"
  by (simp add: sends_def put_frame_def split: frame.split)

lemma sends_parts [simp]:
  "sends a (fail_waiters_for_generation g b) = sends a b"
  "sends a (fulfill_waiters up msg b) = sends a b"
  "sends a (close_receiver n b) = sends a b"
  "sends a (register_session_waiter target b) = sends a b"
  "sends a (send_banner banner b) = sends a b"
  by (simp_all add: fail_waiters_for_generation_def fulfill_waiters_def close_receiver_def
      register_session_waiter_def send_banner_def Let_def split: option.split)

lemma sends_detach [simp]: "sends a (detach_connection g b) = sends a b"
  by (simp add: detach_connection_def split: option.split)

lemma sends_attach [simp]: "sends a (attach_connection b) = sends a b"
  by (simp add: attach_connection_def Let_def split: option.split)

lemma sends_deliver [simp]: "sends a (deliver_json up v g b) = sends a b"
  by (simp add: deliver_json_def deliver_message_def capture_session_def capture_helper_metadata_def
      split: option.split)

lemma sends_reader [simp]: "sends a (reader_frame up g f b) = sends a b"
proof -
  define b1 where "b1 = (case b_conn b of
      Some c \<Rightarrow> if c_generation c = g then b\<lparr>b_conn := Some (c\<lparr>c_last_seen := b_now b\<rparr>)\<rparr> else b
    | None \<Rightarrow> b)"
  have "sends a b1 = sends a b" by (simp add: b1_def split: option.split)
  then show ?thesis
    by (simp add: reader_frame_def b1_def [symmetric] split: inbound.split option.split)
qed

lemma sends_register:
  "sends a (snd (register_and_send p m g s b)) \<le> sends a b + (if acts a p then 1 else 0)"
  by (simp add: register_and_send_def Let_def split: option.split)

lemma sends_event:
  "(case e of Concurrent p _ _ _ \<Rightarrow> \<not> acts a p | _ \<Rightarrow> True) \<Longrightarrow> sends a (bridge_event up e b) = sends a b"
  by (cases e) (simp_all add: bridge_event_def heartbeat_def writer_ends_def Let_def
      register_and_send_def split: option.split)

lemma sends_consumed:
  "consumed up evs b evs' b' \<Longrightarrow> quiet a evs \<Longrightarrow> sends a b' = sends a b \<and> quiet a evs'"
proof -
  assume c: "consumed up evs b evs' b'" and q: "quiet a evs"
  have "sends a b' = sends a b"
    by (rule consumed_keeps [OF c, where I = "\<lambda>x. sends a x = sends a b"])
      (use q in \<open>auto simp: quiet_def sends_event\<close>)
  with c q show ?thesis by (auto simp: consumed_def quiet_def)
qed

text \<open>What one operation may add to the count.\<close>

definition adds :: "string \<Rightarrow> nat \<Rightarrow> world \<Rightarrow> world \<Rightarrow> bool" where
  "adds a n wd wd' \<longleftrightarrow> (quiet a (snd wd) \<longrightarrow>
     sends a (fst wd') \<le> sends a (fst wd) + n \<and> quiet a (snd wd'))"

lemma adds_trans: "adds a n wd wd1 \<Longrightarrow> adds a k wd1 wd2 \<Longrightarrow> n + k \<le> m \<Longrightarrow> adds a m wd wd2"
  by (auto simp: adds_def)

lemma adds_then: "adds a n wd wd1 \<Longrightarrow> adds a 0 wd1 wd2 \<Longrightarrow> adds a n wd wd2"
  by (erule adds_trans) simp_all

lemma adds_consumed: "consumed up evs b evs' b' \<Longrightarrow> adds a 0 (b, evs) (b', evs')"
  by (auto simp: adds_def dest: sends_consumed)

lemma adds_request_bound:
  assumes "request_bound ext payload m t g s (b, evs) = (r, b', evs')"
  shows "adds a (if acts a payload then 1 else 0) (b, evs) (b', evs')"
proof -
  have w: "adds a 0 (b, evs) (b1, evs1)"
    if "wait_connected (ext_url ext) (connect_budget b t) (b, evs) = (x, b1, evs1)" for x b1 evs1
    using that by (intro adds_consumed wait_connected_consumes)
  have reg: "adds a (if acts a payload then 1 else 0) (b1, evs1) (b2, evs1)"
    if "register_and_send payload m g s b1 = (x, b2)" for x b1 b2 evs1
    using sends_register [of a payload m g s b1] that by (simp add: adds_def)
  have aw: "adds a 0 (b2, evs1) (b3, evs3)" if "await (ext_url ext) n evs1 b2 = (x, b3, evs3)"
    for n evs1 b2 x b3 evs3 using that by (intro adds_consumed await_consumes)
  from assms show ?thesis
  proof (cases rule: request_bound_cases)
    case 1
    then show ?thesis using w by (auto simp: adds_def)
  next
    case (2 b1 e)
    from adds_trans [OF w [OF 2(2)] reg [OF 2(3)]] show ?thesis by simp
  next
    case (3 b1 evs1 n b2 b3)
    from adds_trans [OF adds_trans [OF w [OF 3(2)] reg [OF 3(3)] order_refl] aw [OF 3(4)]] 3(5)
    show ?thesis by (auto simp: adds_def)
  next
    case (4 b1 evs1 n b2)
    from adds_trans [OF adds_trans [OF w [OF 4(2)] reg [OF 4(3)] order_refl] aw [OF 4(4)]]
    show ?thesis by simp
  next
    case (5 b1 evs1 n b2)
    from adds_trans [OF adds_trans [OF w [OF 5(3)] reg [OF 5(4)] order_refl] aw [OF 5(5)]]
    show ?thesis by simp
  next
    case (6 b1 evs1 n b2)
    from adds_trans [OF adds_trans [OF w [OF 6(3)] reg [OF 6(4)] order_refl] aw [OF 6(5)]]
    show ?thesis by simp
  qed
qed

lemma adds_request:
  "request ext payload m t (b, evs) = (r, wd') \<Longrightarrow> \<not> acts a payload \<Longrightarrow> adds a 0 (b, evs) wd'"
  by (cases wd') (auto dest!: adds_request_bound [where a = a] simp: request_def)

lemma acts_other [simp]:
  "a \<noteq> ''agentGetCapabilities'' \<Longrightarrow> \<not> acts a (capabilities_payload i)"
  "a \<noteq> ''agentQueryRecords'' \<Longrightarrow> \<not> acts a (probe_payload i inst)"
  by (simp_all add: acts_def capabilities_payload_def probe_payload_def json_get_def)

lemma acts_insert [simp]: "acts a (json_insert ''instance'' v p) = acts a p"
  by (cases p) (simp_all add: acts_def json_get_insert, simp_all add: json_insert_def)

lemma adds_settle:
  "adds a 0 (b, evs) (snd (settle_report up earlier response (b, evs)))"
  "adds a 0 (b, evs) (snd (settle_failure earlier e (b, evs)))"
  by (auto simp: adds_def settle_report_def settle_failure_def settle_legacy_def settle_gated_def Let_def
      split: option.split bridge_error.split)

lemma adds_negotiate:
  assumes "negotiate_capabilities ext t (b, evs) = (r, wd')" "a \<noteq> ''agentGetCapabilities''"
  shows "adds a 0 (b, evs) wd'"
proof -
  obtain x b1 evs1 where w: "wait_connected (ext_url ext) (connect_budget b t) (b, evs) = (x, b1, evs1)"
    by (rule prod_cases3)
  let ?i = "''snow_caps_'' @ ext_uuid ext (b_next_waiter b1)"
  obtain y b2 evs2 where q: "request ext (capabilities_payload ?i) (Correlation ?i) (clamp 1 2 t)
      (b1, evs1) = (y, b2, evs2)" by (rule prod_cases3)
  have 1: "adds a 0 (b, evs) (b1, evs1)" using wait_connected_consumes [OF w] by (rule adds_consumed)
  moreover have "adds a 0 (b1, evs1) (b2, evs2)" using adds_request [OF q] assms(2) by simp
  ultimately have "adds a 0 (b, evs) (b2, evs2)" by (rule adds_trans) simp
  then have "adds a 0 (b, evs) (snd (settle_report up earlier response (b2, evs2)))"
    "adds a 0 (b, evs) (snd (settle_failure earlier e (b2, evs2)))" for up earlier response e
    by (auto intro: adds_then [OF _ adds_settle(1)] adds_then [OF _ adds_settle(2)])
  with 1 assms(1) w q show ?thesis
    by (cases x; cases y) (auto simp: negotiate_capabilities_def Let_def, (metis snd_conv)+)
qed

lemma adds_preflight:
  assumes "preflight ext payload t (b, evs) = (r, wd')" "a \<noteq> ''agentGetCapabilities''"
  shows "adds a 0 (b, evs) wd'"
proof -
  obtain x wd1 where n: "negotiate_capabilities ext t (b, evs) = (x, wd1)"
    by (cases "negotiate_capabilities ext t (b, evs)")
  have "adds a 0 (b, evs) (b, evs)" by (simp add: adds_def)
  with adds_negotiate [OF n assms(2)] n assms(1) show ?thesis
    by (auto simp: preflight_def Let_def split: option.splits sum.splits capability_negotiation.splits)
qed

lemma adds_wait_for_session:
  assumes "wait_for_session ext t target (b, evs) = (r, wd')"
  shows "adds a 0 (b, evs) wd'"
proof -
  let ?b1 = "register_session_waiter target b"
  obtain x y b2 evs2 where s: "await_session (ext_url ext) (b_next_waiter b) False evs ?b1 = (x, y, b2, evs2)"
    by (metis prod_cases4)
  have "adds a 0 (b, evs) (b2, evs2)"
    using adds_consumed [OF await_session_consumes [OF s], of a] by (simp add: adds_def)
  with s assms show ?thesis
    by (cases x) (auto simp: wait_for_session_def Let_def adds_def split: sum.splits option.splits if_splits)
qed

subsection \<open>The same count for the broker's operations\<close>

text \<open>Operations of the broker, with no other client at its state lock.\<close>

definition br_adds :: "string \<Rightarrow> nat \<Rightarrow> broker \<Rightarrow> broker \<Rightarrow> bool" where
  "br_adds a n br br' \<longleftrightarrow> adds a n (br_world br) (br_world br')"

lemma br_adds_trans: "br_adds a n br br1 \<Longrightarrow> br_adds a k br1 br2 \<Longrightarrow> n + k \<le> m \<Longrightarrow> br_adds a m br br2"
  unfolding br_adds_def by (rule adds_trans)

lemma br_adds_then: "br_adds a n br br1 \<Longrightarrow> br_adds a 0 br1 br2 \<Longrightarrow> br_adds a n br br2"
  by (erule br_adds_trans) simp_all

lemma br_adds_refl: "br_adds a n br br"
  by (simp add: br_adds_def adds_def)

lemma run_section_sends:
  "sends a (br_bridge (run_section env s br)) = sends a (br_bridge br)
   \<and> snd (br_world (run_section env s br)) = snd (br_world br)"
  by (cases s) (auto simp: run_section_def update_state_def drain_session_def write_snapshot_def
      split: list.split prod.split option.split)

lemma br_adds_section: "br_adds a 0 br (run_section env s br)"
  using run_section_sends [of a env s br] by (simp add: br_adds_def adds_def)

lemma br_adds_lock: "br_adds a 0 br (lock_state env br)"
proof -
  have "br_adds a 0 br (fold (run_section env) ss br')" if "br_adds a 0 br br'" for ss br'
    using that by (induction ss arbitrary: br') (simp, metis br_adds_then br_adds_section fold_simps(2))
  then show ?thesis
    by (simp add: lock_state_def br_adds_refl split: list.split) (simp add: br_adds_def adds_def)
qed

lemma br_adds_locked: "br_adds a 0 br (run_section env s (lock_state env br))"
  using br_adds_lock br_adds_section by (rule br_adds_then)

lemma br_adds_on_bridge:
  assumes "\<And>b evs r wd. br_world br = (b, evs) \<Longrightarrow> f (b, evs) = (r, wd) \<Longrightarrow> adds a n (b, evs) wd"
    "on_bridge f br = (x, br')"
  shows "br_adds a n br br'"
proof -
  obtain b evs where w: "br_world br = (b, evs)" by (cases "br_world br")
  obtain r wd where r: "f (b, evs) = (r, wd)" by (cases "f (b, evs)")
  from assms(1) [OF w r] assms(2) w r show ?thesis
    by (cases r) (auto simp: on_bridge_def br_adds_def)
qed

lemma br_adds_attempt:
  assumes "on_bridge (request_bound ext payload m t g s) br = (x, br')"
  shows "br_adds a (if acts a payload then 1 else 0) br br'"
  using assms by (rule br_adds_on_bridge [rotated]) (metis adds_request_bound prod.collapse)

lemma br_adds_settle_delay: "br_adds a 0 br (helper_settle_delay env br)"
proof -
  obtain b evs where w: "br_world br = (b, evs)" by (cases "br_world br")
  obtain b' evs' where e: "elapse (env_up env) evs b = (b', evs')" by (cases "elapse (env_up env) evs b")
  from adds_consumed [OF elapse_consumes [OF e]] show ?thesis
    by (simp add: helper_settle_delay_def w e br_adds_def)
qed

lemma br_adds_persist: "br_adds a 0 br (persist_broker_sessions env br)"
proof -
  have "br_adds a 0 br' (write_snapshot env br')" for br'
    by (simp add: write_snapshot_def br_adds_refl) (simp add: br_adds_def adds_def)
  with br_adds_lock [of a br env] show ?thesis
    by (simp add: persist_broker_sessions_def br_adds_refl) (metis br_adds_then)
qed

lemma br_adds_remember: "br_adds a 0 br (remember env i br)"
  unfolding remember_def by (rule br_adds_locked)

lemma br_adds_verified: "br_adds a 0 br (mark_payload_verified env p br)"
  by (simp add: mark_payload_verified_def br_adds_locked br_adds_refl split: option.split)

lemma br_adds_and_then:
  assumes "br_adds a n br (snd rs)"
    "\<And>x s. rs = (Inr x, s) \<Longrightarrow> br_adds a k s (snd (f x s))" "n + k \<le> m"
  shows "br_adds a m br (snd (and_then rs f))"
proof (cases rs)
  case (Pair r s)
  show ?thesis
  proof (cases r)
    case (Inl e)
    have "br_adds a 0 s s" by (rule br_adds_refl)
    with assms(1,3) Pair Inl show ?thesis by (auto intro: br_adds_trans)
  next
    case (Inr x)
    with assms Pair show ?thesis by (auto intro: br_adds_trans)
  qed
qed

lemma br_adds_preflight:
  assumes "a \<noteq> ''agentGetCapabilities''"
  shows "br_adds a 0 br (snd (preflight_for_dispatch env payload t br))"
  unfolding preflight_for_dispatch_def
proof (rule br_adds_and_then [where n = 0 and k = 0])
  obtain x br1 where o: "on_bridge (preflight (be_ext env) payload t) br = (x, br1)"
    by (cases "on_bridge (preflight (be_ext env) payload t) br")
  then have "br_adds a 0 br br1"
    by (rule br_adds_on_bridge [rotated]) (rule adds_preflight [OF _ assms])
  with o show "br_adds a 0 br (snd (on_bridge (preflight (be_ext env) payload t) br))" by simp
qed (auto simp: br_adds_refl)

lemma br_adds_probe:
  assumes "a \<noteq> ''agentQueryRecords''" "probe_session env i t br = (x, br')"
  shows "br_adds a 0 br br'"
proof -
  let ?c = "''snow_probe_'' @ ext_uuid (be_ext env) (b_next_waiter (br_bridge br))"
  let ?f = "request (be_ext env) (probe_payload ?c i) (Correlation ?c) (clamp 1 probe_timeout_secs_max t)"
  obtain y where o: "on_bridge ?f br = (y, br')"
    using assms(2) by (auto simp: probe_session_def Let_def
        split: prod.splits sum.splits broker_error.splits bridge_error.splits if_splits)
  then have "br_adds a (if acts a (probe_payload ?c i) then 1 else 0) br br'"
    unfolding request_def by (rule br_adds_attempt)
  with assms(1) show ?thesis by simp
qed

lemma br_adds_refresh: "br_adds a 0 br (snd (refresh_session env t target br))"
proof -
  let ?br1 = "run_section env (Clears target) (lock_state env br)"
  let ?br2 = "?br1\<lparr>br_world := map_prod (send_banner token_expired_banner) id (br_world ?br1)\<rparr>"
  have 1: "br_adds a 0 br ?br1" by (rule br_adds_locked)
  have "br_adds a 0 ?br1 ?br2" by (cases "br_world ?br1") (simp add: br_adds_def adds_def)
  with 1 have 2: "br_adds a 0 br ?br2" by (rule br_adds_then)
  obtain x br3 where o: "on_bridge (wait_for_session (be_ext env) t target) ?br2 = (x, br3)"
    by (cases "on_bridge (wait_for_session (be_ext env) t target) ?br2")
  then have "br_adds a 0 ?br2 br3"
    by (rule br_adds_on_bridge [rotated]) (rule adds_wait_for_session)
  with 2 have 3: "br_adds a 0 br br3" by (rule br_adds_then)
  moreover have "br_adds a 0 br (persist_broker_sessions env (remember env i br3))" for i
    using 3 br_adds_remember [of a br3 env i] br_adds_persist [of a "remember env i br3" env]
    by (blast intro: br_adds_then)
  ultimately show ?thesis
    using o by (cases x) (auto simp: refresh_session_def Let_def)
qed

lemma br_adds_recover:
  assumes "a \<noteq> ''agentQueryRecords''"
  shows "br_adds a 0 br (snd (recover_session env c payload reason t br))"
proof -
  have "br_adds a 0 br (snd (and_then (refresh_session env t target br1)
      (\<lambda>fresh br2. (Inr (h fresh), helper_settle_delay env br2))))"
    if "br_adds a 0 br br1" for target br1 and h :: "snu_instance \<Rightarrow> json"
    by (rule br_adds_and_then [where n = 0 and k = 0])
      (auto intro: br_adds_then [OF that br_adds_refresh] br_adds_settle_delay)
  then show ?thesis
    using br_adds_probe [OF assms] br_adds_refl
    by (auto simp: recover_session_def split: option.split bool.split prod.split sum.split)
qed

subsection \<open>At most two attempts\<close>

text \<open>
  The two send functions as one shape: an attempt, and one retry after a failure text that is
  transient or, once recovered from, stale.
\<close>

definition attempt_with ::
  "broker_env \<Rightarrow> (world \<Rightarrow> (bridge_error + snu_message) \<times> world) \<Rightarrow> (json \<Rightarrow> broker \<Rightarrow> snu_message outcome)
   \<Rightarrow> (json \<Rightarrow> broker \<Rightarrow> snu_message outcome) \<Rightarrow> string \<Rightarrow> json \<Rightarrow> nat \<Rightarrow> broker \<Rightarrow> snu_message outcome" where
  "attempt_with env f again recovered c payload t br = (case on_bridge f br of
       (Inr msg, br1) \<Rightarrow> (Inr msg, mark_payload_verified env payload br1)
     | (Inl (FromBridge (ActionFailed reason)), br1) \<Rightarrow>
         if is_transient_helper_text reason then again payload (helper_settle_delay env br1)
         else and_then (recover_session env c payload reason t br1) recovered
     | (Inl e, br1) \<Rightarrow> (Inl e, br1))"

lemma attempts:
  assumes "\<And>x br1. on_bridge f br = (x, br1) \<Longrightarrow> br_adds a 1 br br1"
    "\<And>p br. br_adds a 1 br (snd (again p br))" "\<And>p br. br_adds a 1 br (snd (recovered p br))"
    "a \<noteq> ''agentQueryRecords''"
    "attempt_with env f again recovered c payload t br = (r, br')"
  shows "br_adds a 2 br br'"
    "br_adds a 1 br br' \<or> (\<exists>reason br1. on_bridge f br = (Inl (FromBridge (ActionFailed reason)), br1)
       \<and> (is_transient_helper_text reason \<or> is_stale_token_text reason))"
proof -
  obtain x br1 where o: "on_bridge f br = (x, br1)" by (cases "on_bridge f br")
  have one: "br_adds a 1 br br1" using assms(1) o by blast
  have weaken: "br_adds a 1 br br2 \<Longrightarrow> br_adds a 2 br br2" for br2
    by (auto simp: br_adds_def adds_def)
  have ra: "br_adds a 2 br (snd (again payload (helper_settle_delay env br1)))"
    using br_adds_then [OF one br_adds_settle_delay] assms(2) by (rule br_adds_trans) simp
  have rb: "br_adds a 2 br (snd (and_then (recover_session env c payload reason t br1) recovered))" for reason
    by (rule br_adds_and_then [where n = 1 and k = 1,
          OF br_adds_then [OF one br_adds_recover [OF assms(4)]] assms(3)]) simp
  have fresh: "and_then (recover_session env c payload reason t br1) recovered
      = (Inl (FromBridge (ActionFailed reason)), br1)" if "\<not> is_stale_token_text reason" for reason
    using that by (simp add: recover_session_def split: option.split)
  consider (ok) msg where "x = Inr msg" | (failed) reason where "x = Inl (FromBridge (ActionFailed reason))"
    | (err) e where "x = Inl e" "\<forall>reason. e \<noteq> FromBridge (ActionFailed reason)"
    by (cases x) auto
  then have "br_adds a 2 br br' \<and> (br_adds a 1 br br' \<or>
      (\<exists>reason br1. on_bridge f br = (Inl (FromBridge (ActionFailed reason)), br1)
        \<and> (is_transient_helper_text reason \<or> is_stale_token_text reason)))"
  proof cases
    case ok
    with o assms(5) [unfolded attempt_with_def] have "br' = mark_payload_verified env payload br1" by simp
    then have "br_adds a 1 br br'" using one br_adds_verified by (auto intro: br_adds_then)
    then show ?thesis by (blast intro: weaken)
  next
    case failed
    with o assms(5) [unfolded attempt_with_def] ra rb [of reason] have "br_adds a 2 br br'" by (auto split: if_splits)
    moreover have "br_adds a 1 br br'"
      if "\<not> is_transient_helper_text reason" "\<not> is_stale_token_text reason"
      using failed o assms(5) [unfolded attempt_with_def] fresh [of reason] one that by simp
    ultimately show ?thesis using o failed by blast
  next
    case err
    with o assms(5) [unfolded attempt_with_def] one have "br_adds a 1 br br'"
      by (auto split: broker_error.splits bridge_error.splits)
    then show ?thesis by (blast intro: weaken)
  qed
  then show "br_adds a 2 br br'" "br_adds a 1 br br' \<or>
      (\<exists>reason br1. on_bridge f br = (Inl (FromBridge (ActionFailed reason)), br1)
        \<and> (is_transient_helper_text reason \<or> is_stale_token_text reason))"
    by blast+
qed

lemma br_adds_one:
  assumes "on_bridge (request_bound ext p m t g s) br = (x, br')"
  shows "br_adds a 1 br br'"
  using br_adds_attempt [OF assms, of a] by (auto simp: br_adds_def adds_def split: if_splits)

lemma br_adds_retry:
  assumes "a \<noteq> ''agentGetCapabilities''"
    "\<And>pr br2. br_adds a 1 br2 (snd (k pr br2))"
  shows "br_adds a 1 br (snd (and_then (preflight_for_dispatch env p t br) k))"
  by (rule br_adds_and_then [where n = 0 and k = 1, OF br_adds_preflight [OF assms(1)] assms(2)]) simp

lemma br_adds_confirmed:
  "br_adds a 1 br (snd (and_then (on_bridge (request_bound ext p m t g s) br)
     (\<lambda>msg br3. (Inr msg, mark_payload_verified env p br3))))"
proof (rule br_adds_and_then [where n = 1 and k = 0])
  show "br_adds a 1 br (snd (on_bridge (request_bound ext p m t g s) br))"
    using br_adds_one by (metis prod.collapse)
qed (auto intro: br_adds_verified)

definition action_retry ::
  "broker_env \<Rightarrow> string \<Rightarrow> nat \<Rightarrow> json \<Rightarrow> broker \<Rightarrow> snu_message outcome" where
  "action_retry env i t p br = and_then (preflight_for_dispatch env p t br) (\<lambda>pr br2.
     and_then (on_bridge (request_on_generation (be_ext env) p (Correlation i) t (pr_generation pr)) br2)
       (\<lambda>msg br3. (Inr msg, mark_payload_verified env p br3)))"

definition legacy_retry ::
  "broker_env \<Rightarrow> string \<Rightarrow> nat \<Rightarrow> string \<Rightarrow> json \<Rightarrow> broker \<Rightarrow> snu_message outcome" where
  "legacy_retry env act t doing p br = and_then (preflight_for_dispatch env p t br) (\<lambda>pr br2.
     if pr_decision pr \<noteq> LegacyUnrestricted then (Inl (legacy_retry_refused doing), br2)
     else and_then (on_bridge (request_on_generation_with_support (be_ext env) p (MatchAction act) t
            (pr_generation pr) LegacyUnrestrictedSupport) br2)
       (\<lambda>msg br3. (Inr msg, mark_payload_verified env p br3)))"

lemma send_action_shape:
  "send_action_with_refresh env payload i t g br =
     attempt_with env (request_on_generation (be_ext env) payload (Correlation i) t g)
       (action_retry env i t) (action_retry env i t)
       ''could not verify the browser session after an authentication-like action failure; the cached session was preserved''
       payload t br"
  unfolding send_action_with_refresh_def attempt_with_def action_retry_def Let_def by (rule refl)

lemma send_legacy_shape:
  "send_legacy_action_with_refresh env payload act t g br =
     attempt_with env (request_on_generation_with_support (be_ext env) payload (MatchAction act) t g
         LegacyUnrestrictedSupport)
       (legacy_retry env act t ''retrying'') (legacy_retry env act t ''refreshing'')
       ''could not verify the browser session after an authentication-like legacy action failure; the cached session was preserved''
       payload t br"
  unfolding send_legacy_action_with_refresh_def attempt_with_def legacy_retry_def Let_def by (rule refl)

lemma br_adds_action_retry: "a \<noteq> ''agentGetCapabilities'' \<Longrightarrow> br_adds a 1 br (snd (action_retry env i t p br))"
  unfolding action_retry_def request_on_generation_def
  by (rule br_adds_retry) (assumption, rule br_adds_confirmed)

lemma br_adds_legacy_retry:
  "a \<noteq> ''agentGetCapabilities'' \<Longrightarrow> br_adds a 1 br (snd (legacy_retry env act t doing p br))"
  unfolding legacy_retry_def request_on_generation_with_support_def
  by (rule br_adds_retry) (simp_all add: br_adds_refl br_adds_confirmed [unfolded One_nat_def])


lemma demo_sends: "sends a (br_bridge (demo_broker evs others)) = 0"
  by (simp add: demo_broker_def demo_bridge_def) (simp add: sends_def new_bridge_def)


subsection \<open>A blocked action\<close>

lemma blocked_dispatch:
  assumes "on_bridge (preflight (be_ext env) p t) br = (Inr pr, br1)" "pr_decision pr = Blocked"
    "req = SendAction p i t \<or> req = SendActionForAction p x t
     \<or> req = SendActionWithLegacyFallback p i lp la t"
  shows "\<exists>gate orig. dispatch env req br = (Inl (FromBridge (GateBlocked gate orig)), br1)"
proof -
  have "\<exists>gate orig. preflight_for_dispatch env p t br = (Inl (FromBridge (GateBlocked gate orig)), br1)"
    using assms(1,2) by (simp add: preflight_for_dispatch_def)
  with assms(3) show ?thesis by (auto simp: dispatch_def)
qed


definition demo_blocked :: json where
  "demo_blocked = JObject [(''action'', JString ''takeScreenshot''), (''url'', JString ''dev'')]"


subsection \<open>Which session is captured\<close>

lemma session_waiter_promised:
  assumes "bridge_wf b"
  shows "promised up (b_next_waiter b) (SessionPush target) (table (register_session_waiter target b))"
proof -
  have lt: "\<forall>n \<in> set (map w_id (b_waiters b) @ map fst (b_mailbox b)). n < b_next_waiter b"
    using assms by (simp add: bridge_wf_def mailbox_wf_def)
  have "w_id w < b_next_waiter b" if "w \<in> set (b_waiters b)" for w using lt that by simp
  moreover have "i < b_next_waiter b" if "(i, x) \<in> set (b_mailbox b)" for i x
    using lt that by (metis fst_conv imageI list.set_map set_append UnI2)
  ultimately show ?thesis
    by (fastforce simp: promised_def table_def register_session_waiter_def Let_def)
qed

lemma captured_session:
  assumes "bridge_wf b" "wait_for_session ext t target (b, evs) = (Inr i, b', evs')"
  shows "has_token i \<and> (\<forall>orig. target = Some orig \<longrightarrow> normalize_origin (ext_url ext) (inst_url i) = Some orig)"
proof -
  let ?n = "b_next_waiter b"
  obtain msg x where s: "await_session (ext_url ext) ?n False evs (register_session_waiter target b)
      = (Some (Inr msg), x, b', evs')" and i: "msg_instance msg = Some i"
    using assms(2) by (auto simp: wait_for_session_def Let_def split: if_splits prod.splits option.splits sum.splits)
  have "promised (ext_url ext) ?n (SessionPush target) (table b')"
    by (rule consumed_keeps [OF await_session_consumes [OF s]])
      (rule promised_event, assumption, rule session_waiter_promised [OF assms(1)])
  with await_session_answer [OF s] have "matches (ext_url ext) (SessionPush target) msg"
    by (auto simp: promised_def table_def dest!: map_of_SomeD)
  with i show ?thesis
    by (auto simp: matches_def instance_matches_session_def split: if_splits option.splits)
qed

text \<open>
  A session captured for an instance is one of that instance: waiting for the \<open>/token\<close> of an
  origin returns a session that carries a token and whose URL normalizes to that origin,
  whatever other tabs push meanwhile.
\<close>

theorem captured_session_is_of_the_target:
  assumes "bridge_wf b" "wait_for_session ext t (Some orig) (b, evs) = (Inr i, b', evs')"
  shows "has_token i \<and> normalize_origin (ext_url ext) (inst_url i) = Some orig"
  using captured_session [OF assms] by simp

definition demo_token :: "string \<Rightarrow> env_event" where
  "demo_token url = Inbound 1 (TextFrame (Some (JObject
     [(''instance'', snu_instance_to_json (demo_instance url ''tok''))])))"

theorem captured_session_is_of_the_target_witness:
  "\<exists>i. fst (wait_for_session demo_ext 5 (Some ''https://dev:443'')
         (demo_bridge, [demo_token ''prod'', demo_token ''dev''])) = Inr i
     \<and> normalize_origin (ext_url demo_ext) (inst_url i) = Some ''https://dev:443''"
proof -
  let ?r = "wait_for_session demo_ext 5 (Some ''https://dev:443'')
         (demo_bridge, [demo_token ''prod'', demo_token ''dev''])"
  have "\<not> isl (fst ?r)" by code_simp
  then obtain i where f: "fst ?r = Inr i" by (cases "fst ?r") auto
  then have "?r = (Inr i, fst (snd ?r), snd (snd ?r))" by (metis prod.collapse)
  from captured_session_is_of_the_target [OF demo_bridge_wf this] f show ?thesis by simp
qed

subsection \<open>Which session is evicted\<close>

text \<open>With no other client at the lock, only a refresh changes the sessions.\<close>

definition keeps_sessions :: "broker \<Rightarrow> broker \<Rightarrow> bool" where
  "keeps_sessions br br' \<longleftrightarrow> (br_others br = [] \<longrightarrow> br_others br' = [] \<and>
     sessions_by_origin (br_state br') = sessions_by_origin (br_state br))"

lemma keeps_sessions_trans: "keeps_sessions br br1 \<Longrightarrow> keeps_sessions br1 br2 \<Longrightarrow> keeps_sessions br br2"
  by (auto simp: keeps_sessions_def)

lemma keeps_sessions_refl: "keeps_sessions br br"
  by (simp add: keeps_sessions_def)

lemma on_bridge_state:
  "on_bridge f br = (x, br') \<Longrightarrow> br_state br' = br_state br \<and> br_others br' = br_others br"
  by (cases "f (br_world br)"; cases "fst (f (br_world br))") (auto simp: on_bridge_def)

lemma keeps_sessions_on_bridge: "on_bridge f br = (x, br') \<Longrightarrow> keeps_sessions br br'"
  by (drule on_bridge_state) (simp add: keeps_sessions_def)

lemma keeps_sessions_verified: "keeps_sessions br (mark_payload_verified env p br)"
  by (auto simp: keeps_sessions_def mark_payload_verified_def lock_state_def run_section_def
      update_state_def mark_verified_def Let_def split: option.split)

lemma keeps_sessions_delay: "keeps_sessions br (helper_settle_delay env br)"
  by (simp add: keeps_sessions_def helper_settle_delay_def split: prod.split)

lemma keeps_sessions_and_then:
  assumes "keeps_sessions br (snd rs)" "\<And>x s. rs = (Inr x, s) \<Longrightarrow> keeps_sessions s (snd (f x s))"
  shows "keeps_sessions br (snd (and_then rs f))"
  using assms by (cases rs; cases "fst rs") (auto intro: keeps_sessions_trans)

lemma keeps_sessions_preflight: "keeps_sessions br (snd (preflight_for_dispatch env p t br))"
proof -
  have "keeps_sessions br (snd (on_bridge (preflight (be_ext env) p t) br))"
    by (rule keeps_sessions_on_bridge) (rule prod.collapse [symmetric])
  then show ?thesis
    unfolding preflight_for_dispatch_def by (rule keeps_sessions_and_then) (simp add: keeps_sessions_refl)
qed

lemma keeps_sessions_retry: "keeps_sessions br (snd (action_retry env i t p br))"
  unfolding action_retry_def
proof (rule keeps_sessions_and_then [OF keeps_sessions_preflight])
  fix pr br2
  have "keeps_sessions br2 (snd (on_bridge f br2))" for f :: "world \<Rightarrow> (bridge_error + snu_message) \<times> world"
    by (rule keeps_sessions_on_bridge) (rule prod.collapse [symmetric])
  then show "keeps_sessions br2 (snd (and_then
      (on_bridge (request_on_generation (be_ext env) p (Correlation i) t (pr_generation pr)) br2)
      (\<lambda>msg br3. (Inr msg, mark_payload_verified env p br3))))"
    by (rule keeps_sessions_and_then) (simp add: keeps_sessions_verified)
qed

lemma keeps_sessions_probe: "probe_session env i t br = (x, br') \<Longrightarrow> keeps_sessions br br'"
  by (auto simp: probe_session_def Let_def keeps_sessions_on_bridge
      split: prod.splits sum.splits broker_error.splits bridge_error.splits if_splits
      dest: keeps_sessions_on_bridge)

text \<open>A refresh for an origin changes the session of that origin only.\<close>

lemma refresh_changes_target_only:
  assumes "refresh_session env t (Some orig) br = (x, br')" "br_others br = []" "bridge_wf (br_bridge br)"
  shows "br_others br' = [] \<and> (\<forall>k. k \<noteq> orig \<longrightarrow>
    session_for_origin (br_state br') k = session_for_origin (br_state br) k)"
proof -
  define br1 where "br1 = run_section env (Clears (Some orig)) (lock_state env br)"
  define br2 where "br2 = br1\<lparr>br_world := map_prod (send_banner token_expired_banner) id (br_world br1)\<rparr>"
  have s2: "br_others br2 = []" "k \<noteq> orig \<Longrightarrow>
      session_for_origin (br_state br2) k = session_for_origin (br_state br) k" for k
    using assms(2) by (simp_all add: br2_def br1_def lock_state_def run_section_def update_state_def
        clear_origin_def Let_def session_for_origin_def hm.get_remove)
  have wf2: "bridge_wf (br_bridge br2)"
    using assms(2,3) by (cases "br_world br") (simp add: br2_def br1_def lock_state_def run_section_def
        update_state_def send_banner_wf)
  obtain b evs where w: "br_world br2 = (b, evs)" by (cases "br_world br2")
  obtain y br3 where o: "on_bridge (wait_for_session (be_ext env) t (Some orig)) br2 = (y, br3)"
    by (cases "on_bridge (wait_for_session (be_ext env) t (Some orig)) br2")
  note s3 = on_bridge_state [OF o]
  show ?thesis
  proof (cases y)
    case (Inl e)
    with assms(1) o s2 s3 show ?thesis
      by (simp add: refresh_session_def Let_def br1_def [symmetric] br2_def [symmetric])
  next
    case (Inr i)
    with o w obtain wd where "wait_for_session (be_ext env) t (Some orig) (b, evs) = (Inr i, wd)"
      by (auto simp: on_bridge_def split: prod.splits sum.splits)
    then have "normalize_origin (env_up env) (inst_url i) = Some orig"
      using captured_session [of b "be_ext env" t "Some orig" evs i "fst wd" "snd wd"] wf2 w by simp
    moreover have "br' = persist_broker_sessions env (remember env i br3)"
      using assms(1) o Inr by (simp add: refresh_session_def Let_def br1_def [symmetric] br2_def [symmetric])
    ultimately show ?thesis
      using s2 s3 by (auto simp: persist_broker_sessions_def write_snapshot_def remember_def lock_state_def
          run_section_def update_state_def remember_session_def Let_def session_for_origin_def hm.get_insert)
  qed
qed

lemma request_keeps_wf:
  assumes "runs (be_ext (env :: broker_env)) f" "on_bridge f br = (x, br')" "bridge_wf (br_bridge br)"
  shows "bridge_wf (br_bridge br')"
proof -
  obtain b evs where w: "br_world br = (b, evs)" by (cases "br_world br")
  have "bridge_steps (env_up env) b (fst (snd (f (b, evs))))" using assms(1) by (simp add: runs_def)
  then have "bridge_wf (fst (snd (f (b, evs))))" using assms(3) w bridge_steps_wf by auto
  with assms(2) w show ?thesis
    by (auto simp: on_bridge_def split: prod.splits sum.splits)
qed

lemma probe_keeps_wf:
  assumes "probe_session env i t br = (x, br')" "bridge_wf (br_bridge br)"
  shows "bridge_wf (br_bridge br')"
proof -
  let ?c = "''snow_probe_'' @ ext_uuid (be_ext env) (b_next_waiter (br_bridge br))"
  let ?f = "request (be_ext env) (probe_payload ?c i) (Correlation ?c) (clamp 1 probe_timeout_secs_max t)"
  obtain y where "on_bridge ?f br = (y, br')"
    using assms(1) by (auto simp: probe_session_def Let_def
        split: prod.splits sum.splits broker_error.splits bridge_error.splits if_splits)
  with request_runs(1) show ?thesis using assms(2) by (rule request_keeps_wf)
qed

text \<open>The outcomes of a recovery: nothing is evicted, or the probe found the session dead.\<close>

lemma recover_cases:
  assumes "recover_session env c payload reason t br = (r, br')"
  obtains "keeps_sessions br br'" "isl r"
  | i br1 x br2 where "Option.bind (json_get ''instance'' payload) snu_instance_from_json = Some i"
      "probe_session env i t br = (Inr False, br1)"
      "refresh_session env t (normalize_origin (env_up env) (inst_url i)) br1 = (x, br2)"
      "(isl x \<and> isl r \<and> br' = br2) \<or> (\<exists>fresh. x = Inr fresh \<and> br' = helper_settle_delay env br2
         \<and> r = Inr (json_insert ''instance'' (snu_instance_to_json fresh) payload))"
proof (cases "Option.bind (json_get ''instance'' payload) snu_instance_from_json")
  case None
  with assms that(1) show thesis by (auto simp: recover_session_def keeps_sessions_refl)
next
  case (Some i)
  show thesis
  proof (cases "is_stale_token_text reason")
    case False
    with assms that(1) Some show thesis by (auto simp: recover_session_def keeps_sessions_refl)
  next
    case True
    obtain y br1 where p: "probe_session env i t br = (y, br1)" by (cases "probe_session env i t br")
    show thesis
    proof (cases "y = Inr False")
      case False
      then have "y = Inr True \<or> isl y" by (cases y) auto
      with p assms Some True keeps_sessions_probe [OF p] that(1) show thesis
        by (auto simp: recover_session_def isl_def)
    next
      case f: True
      obtain x br2 where q: "refresh_session env t (normalize_origin (env_up env) (inst_url i)) br1 = (x, br2)"
        by (cases "refresh_session env t (normalize_origin (env_up env) (inst_url i)) br1")
      show thesis
        by (rule that(2) [OF Some p [unfolded f] q])
          (use assms Some True p f q in \<open>cases x; auto simp: recover_session_def\<close>)
    qed
  qed
qed

text \<open>The payload's own session is rejected by a probe made now, and is one of the origin \<open>k\<close>.\<close>

definition dead_session :: "broker_env \<Rightarrow> json \<Rightarrow> nat \<Rightarrow> broker \<Rightarrow> string \<Rightarrow> bool" where
  "dead_session env payload t br k \<longleftrightarrow>
     (case Option.bind (json_get ''instance'' payload) snu_instance_from_json of
        None \<Rightarrow> False
      | Some i \<Rightarrow> fst (probe_session env i t br) = Inr False
          \<and> (case normalize_origin (env_up env) (inst_url i) of Some orig \<Rightarrow> k = orig | None \<Rightarrow> True))"

lemma recover_not_stale:
  "\<not> is_stale_token_text reason \<Longrightarrow>
     recover_session env c payload reason t br = (Inl (FromBridge (ActionFailed reason)), br)"
  by (simp add: recover_session_def split: option.split)

lemma recover_evicts_dead:
  assumes "recover_session env c payload reason t br = (r, br')" "br_others br = []"
    "bridge_wf (br_bridge br)" "\<not> dead_session env payload t br k"
  shows "br_others br' = [] \<and> session_for_origin (br_state br') k = session_for_origin (br_state br) k"
  using assms(1)
proof (cases rule: recover_cases)
  case 1
  with assms(2) show ?thesis by (simp add: keeps_sessions_def session_for_origin_def)
next
  case (2 i br1 x br2)
  with assms(4) obtain orig where orig: "normalize_origin (env_up env) (inst_url i) = Some orig" "k \<noteq> orig"
    by (auto simp: dead_session_def split: option.splits)
  have b1: "br_others br1 = []" "sessions_by_origin (br_state br1) = sessions_by_origin (br_state br)"
    using keeps_sessions_probe [OF 2(2)] assms(2) by (simp_all add: keeps_sessions_def)
  have "br_others br2 = [] \<and> session_for_origin (br_state br2) k = session_for_origin (br_state br) k"
    using refresh_changes_target_only [of env t orig br1 x br2] 2(3) b1 probe_keeps_wf [OF 2(2) assms(3)] orig
    by (simp add: session_for_origin_def)
  moreover have "br_others br' = br_others br2" "br_state br' = br_state br2"
    using 2(4) by (auto simp: helper_settle_delay_def split: prod.splits)
  ultimately show ?thesis by simp
qed


definition demo_action :: json where
  "demo_action = JObject [(''action'', JString ''createRecord''),
     (''instance'', snu_instance_to_json (demo_instance ''a'' ''t1''))]"

definition demo_failure :: "string \<Rightarrow> string \<Rightarrow> env_event" where
  "demo_failure i reason = Inbound 1 (TextFrame (Some (JObject
     [(''agentRequestId'', JString i), (''success'', JBool False), (''error'', JString reason)])))"

lemma demo_broker_state: "br_state (demo_broker evs others) = demo_store"
  by (simp add: demo_broker_def)


subsection \<open>Where a retry goes\<close>

lemma section_keeps_bridge_wf:
  assumes "bridge_wf (br_bridge br)"
  shows "bridge_wf (br_bridge (run_section env s (lock_state env br)))"
proof -
  have one: "bridge_wf (br_bridge br') \<Longrightarrow> bridge_wf (br_bridge (run_section env s br'))" for s br'
  proof -
    have "bridge_wf (b\<lparr>b_sessions := ss\<rparr>) = bridge_wf b" for b ss by (simp add: bridge_wf_def)
    then show "bridge_wf (br_bridge br') \<Longrightarrow> ?thesis"
      by (cases s) (auto simp: run_section_def update_state_def drain_session_def write_snapshot_def
          split: list.split prod.split option.split)
  qed
  have "bridge_wf (br_bridge (fold (run_section env) ss br'))" if "bridge_wf (br_bridge br')" for ss br'
    using that by (induction ss arbitrary: br') (auto intro: one)
  with assms show ?thesis by (auto simp: lock_state_def intro: one split: list.split)
qed

text \<open>
  A retry with a fresh session stays on the instance the action was meant for: the recovered
  payload carries a session with a token, of the origin its session had before, and is otherwise
  the same payload.
\<close>

theorem retry_stays_on_its_instance:
  assumes "recover_session env c payload reason t br = (Inr payload', br')" "bridge_wf (br_bridge br)"
    "json_get ''instance'' payload = Some v" "snu_instance_from_json v = Some i"
    "normalize_origin (env_up env) (inst_url i) = Some orig"
  shows "\<exists>fresh. payload' = json_insert ''instance'' (snu_instance_to_json fresh) payload
    \<and> has_token fresh \<and> payload_origin (env_up env) payload' = Some orig"
  using assms(1)
proof (cases rule: recover_cases)
  case 1
  then show ?thesis by simp
next
  case (2 j br1 x br2)
  then have j: "j = i" using assms(3,4) by simp
  from 2 obtain fresh where x: "x = Inr fresh"
    and p: "payload' = json_insert ''instance'' (snu_instance_to_json fresh) payload"
    by auto
  define brc where "brc = run_section env (Clears (Some orig)) (lock_state env br1)"
  define brb where "brb = brc\<lparr>br_world := map_prod (send_banner token_expired_banner) id (br_world brc)\<rparr>"
  have "bridge_wf (br_bridge brc)"
    unfolding brc_def by (rule section_keeps_bridge_wf [OF probe_keeps_wf [OF 2(2) assms(2)]])
  then have wfb: "bridge_wf (br_bridge brb)"
    by (cases "br_world brc") (simp add: brb_def send_banner_wf)
  obtain b evs where w: "br_world brb = (b, evs)" by (cases "br_world brb")
  have w2: "map_prod (send_banner token_expired_banner) id (br_world brc) = (b, evs)"
    using w by (simp add: brb_def)
  obtain wd where "wait_for_session (be_ext env) t (Some orig) (b, evs) = (Inr fresh, wd)"
    using 2(3) x j assms(5) w w2
    by (auto simp: refresh_session_def Let_def brc_def [symmetric] brb_def [symmetric] and_then_def
        on_bridge_def split: prod.splits sum.splits)
  then have f: "has_token fresh" "normalize_origin (env_up env) (inst_url fresh) = Some orig"
    using captured_session [of b "be_ext env" t "Some orig" evs fresh "fst wd" "snd wd"] wfb w by simp_all
  obtain m where "payload = JObject m" using assms(3) by (cases payload) (simp_all add: json_get_def)
  then have "payload_origin (env_up env) payload' = Some orig"
    using f(2) p by (simp add: payload_origin_def json_get_insert option_or_def)
      (simp add: snu_instance_to_json_def json_get_def json_as_str_def)
  with p f(1) show ?thesis by blast
qed

theorem retry_stays_on_its_instance_witness:
  "\<exists>payload'. fst (recover_session demo_env '''' demo_action ''HTTP 401'' 5
       (demo_broker [demo_failure (''snow_probe_'' @ show_nat 0) ''HTTP 401'', demo_token ''a''] [])) = Inr payload'
     \<and> payload_origin (env_up demo_env) payload' = Some ''https://a:443''"
proof -
  let ?r = "recover_session demo_env '''' demo_action ''HTTP 401'' 5
       (demo_broker [demo_failure (''snow_probe_'' @ show_nat 0) ''HTTP 401'', demo_token ''a''] [])"
  have "\<not> isl (fst ?r)" by code_simp
  then obtain p where f: "fst ?r = Inr p" by (cases "fst ?r") auto
  then have r: "?r = (Inr p, snd ?r)" by (metis prod.collapse)
  have wf: "bridge_wf (br_bridge (demo_broker [demo_failure (''snow_probe_'' @ show_nat 0) ''HTTP 401'',
      demo_token ''a''] []))" by (simp add: demo_broker_def demo_bridge_wf)
  have i: "json_get ''instance'' demo_action = Some (snu_instance_to_json (demo_instance ''a'' ''t1''))"
    by (simp add: demo_action_def json_get_def)
  have o: "normalize_origin (env_up demo_env) (inst_url (demo_instance ''a'' ''t1'')) = Some ''https://a:443''"
    by code_simp
  from retry_stays_on_its_instance [OF r wf i snu_instance_json_round_trip o] f show ?thesis by auto
qed

text \<open>
  The case the retry's safeguard does not cover: when the URL of the payload's session is not one
  an origin can be formed from, the refresh has no target. Every cached session is evicted, and
  the retry carries the session of whichever instance pushes a token next.
\<close>

definition opaque_url :: url_parser where
  "opaque_url u = (if u = ''a'' then None else ext_url demo_ext u)"

definition opaque_env :: broker_env where
  "opaque_env = demo_env\<lparr>be_ext := demo_ext\<lparr>ext_url := opaque_url\<rparr>\<rparr>"

lemma unnormalized_session_is_redirected:
  "let out = recover_session opaque_env '''' demo_action ''HTTP 401'' 5
       (demo_broker [demo_failure (''snow_probe_'' @ show_nat 0) ''HTTP 401'', demo_token ''prod''] [])
   in (case fst out of Inr p \<Rightarrow> payload_origin opaque_url p | Inl _ \<Rightarrow> None) = Some ''https://prod:443''
      \<and> hm_keys (sessions_by_origin (br_state (snd out))) = [''https://prod:443'']"
  by code_simp

end
