(* ===== verification/Api_Error.thy ===== *)
theory Api_Error
  imports Json_Value
begin

text \<open>
  The errors the HTTP client reports (\<open>src/src/client/error.rs\<close>). Text taken from a server
  response is scrubbed of credential values and control characters and bounded in length before
  it is shown; a body that is not a recognised error envelope is withheld. The scanner
  \<open>scrub_loop\<close> keeps the byte positions of the code; \<open>scrub\<close> states the same on suffixes and
  carries the proofs. Serde's JSON parser is the parameter \<open>parse_json\<close>.
\<close>

subsection \<open>Transport errors\<close>

datatype transport_error =
    RequestTimeout
  | ConnectionFailed
  | InvalidResponse
  | InvalidEnvelope string
  | OtherTransport

definition transport_error_code :: "transport_error \<Rightarrow> string" where
  "transport_error_code e = (case e of
      RequestTimeout \<Rightarrow> ''REQUEST_TIMEOUT''
    | ConnectionFailed \<Rightarrow> ''CONNECTION_FAILED''
    | InvalidResponse \<Rightarrow> ''INVALID_RESPONSE''
    | InvalidEnvelope m \<Rightarrow> ''INVALID_RESPONSE''
    | OtherTransport \<Rightarrow> ''TRANSPORT_ERROR'')"

definition is_transient :: "transport_error \<Rightarrow> bool" where
  "is_transient e \<longleftrightarrow> e = RequestTimeout \<or> e = ConnectionFailed"

text \<open>What \<open>reqwest\<close> says of an error of its own, in the order the code asks.\<close>

record http_failure =
  is_timeout :: bool
  is_connect :: bool
  is_decode :: bool

definition classify_http_failure :: "http_failure \<Rightarrow> transport_error" where
  "classify_http_failure e =
     (if is_timeout e then RequestTimeout
      else if is_connect e then ConnectionFailed
      else if is_decode e then InvalidResponse
      else OtherTransport)"

subsection \<open>Secret scrubbing\<close>

definition sensitive_key_fragments :: "string list" where
  "sensitive_key_fragments =
     [''password'', ''passwd'', ''secret'', ''token'', ''cookie'', ''authorization'',
      ''sysparm_ck'', ''g_ck'', ''jsessionid'', ''api_key'', ''apikey'', ''bearer'']"

text \<open>Every control character becomes one space; U+0080 to U+009F are two bytes.\<close>

fun blank_control :: "string \<Rightarrow> string" where
  "blank_control [] = []"
| "blank_control (c # cs) =
     (if byte_of c < 32 \<or> byte_of c = 127 then CHR '' '' # blank_control cs
      else if byte_of c = 194 then
        (case cs of [] \<Rightarrow> [c]
         | d # ds \<Rightarrow> if 128 \<le> byte_of d \<and> byte_of d \<le> 159 then CHR '' '' # blank_control ds
                    else c # blank_control cs)
      else c # blank_control cs)"

definition word_byte :: "char \<Rightarrow> bool" where
  [byte_simps]: "word_byte c \<longleftrightarrow> is_ascii_alphanumeric c \<or> c = CHR ''_''"

definition gap_byte :: "char \<Rightarrow> bool" where
  [byte_simps]: "gap_byte c \<longleftrightarrow> c = CHR 0x22 \<or> c = CHR 0x27 \<or> c = CHR '' ''"

definition separator_byte :: "char \<Rightarrow> bool" where
  [byte_simps]: "separator_byte c \<longleftrightarrow> c = CHR ''='' \<or> c = CHR '':''"

definition value_delimiter :: "char \<Rightarrow> bool" where
  [byte_simps]: "value_delimiter c \<longleftrightarrow>
     c \<in> {CHR '' '', CHR ''&'', CHR '','', CHR '';'', CHR 0x22, CHR 0x27, CHR ''}'', CHR '')'', CHR '']''}"

text \<open>\<open>while cursor < bytes.len() && p(bytes[cursor]) { cursor += 1 }\<close>.\<close>

definition skip_bytes :: "(char \<Rightarrow> bool) \<Rightarrow> string \<Rightarrow> nat \<Rightarrow> nat" where
  "skip_bytes p bytes cursor = cursor + length (takeWhile p (drop cursor bytes))"

definition redacted_mark :: string where
  "redacted_mark = ''<redacted>''"

definition find_fragment :: "string \<Rightarrow> string option" where
  "find_fragment lower = find (\<lambda>fragment. starts_with lower fragment) sensitive_key_fragments"

lemma find_SomeD: "find p xs = Some x \<Longrightarrow> x \<in> set xs \<and> p x"
  by (induction xs) (auto split: if_splits)

lemma fragment_nonempty: "f \<in> set sensitive_key_fragments \<Longrightarrow> 0 < length f"
  by (auto simp: sensitive_key_fragments_def)

lemma find_fragment_Some:
  assumes "find_fragment lower = Some f"
  shows "f \<in> set sensitive_key_fragments" "starts_with lower f" "0 < length f"
  using find_SomeD [OF assms [unfolded find_fragment_def]] fragment_nonempty by auto

text \<open>The scheme word in front of an \<open>Authorization\<close> value, one trailing space included.\<close>

definition scheme_length :: "string \<Rightarrow> nat" where
  "scheme_length lower = (case find (\<lambda>scheme. starts_with lower scheme) [''bearer '', ''basic ''] of
      Some scheme \<Rightarrow> length scheme | None \<Rightarrow> 0)"

text \<open>From behind the separator, or the gap after \<open>bearer\<close>: where the value starts and ends.\<close>

definition scan_value :: "string \<Rightarrow> string \<Rightarrow> nat \<Rightarrow> nat \<times> nat" where
  "scan_value bytes lower i = (let cursor = skip_bytes gap_byte bytes i;
       start = cursor + scheme_length (drop cursor lower)
     in (start, skip_bytes (\<lambda>c. \<not> value_delimiter c) bytes start))"

function scrub_loop :: "string \<Rightarrow> string \<Rightarrow> string \<Rightarrow> nat \<Rightarrow> nat \<Rightarrow> string" where
  "scrub_loop bytes lower out copied index =
     (if \<not> index < length bytes then out @ drop copied bytes
      else case find_fragment (drop index lower) of
        None \<Rightarrow> scrub_loop bytes lower out copied (index + 1)
      | Some fragment \<Rightarrow>
          (let key_end = skip_bytes word_byte bytes (index + length fragment);
               cursor = skip_bytes gap_byte bytes key_end;
               has_separator = (cursor < length bytes \<and> separator_byte (bytes ! cursor))
           in if \<not> has_separator \<and> (fragment \<noteq> ''bearer'' \<or> key_end = cursor)
              then scrub_loop bytes lower out copied key_end
              else
                (case scan_value bytes lower (if has_separator then cursor + 1 else cursor) of
                   (value_start, value_end) \<Rightarrow>
                     if value_start < value_end
                     then scrub_loop bytes lower
                            (out @ take (value_start - copied) (drop copied bytes) @ redacted_mark)
                            value_end (max value_end (index + 1))
                     else scrub_loop bytes lower out copied (max value_end (index + 1)))))"
  by pat_completeness auto
termination
proof (relation "measure (\<lambda>(bytes, lower, out, copied, index). length bytes - index)", goal_cases)
  case 1
  then show ?case by simp
next
  case 2
  then show ?case by simp
next
  case (3 bytes lower out copied index fragment key_end)
  have "index < key_end"
    using find_fragment_Some(3) [OF 3(2)] unfolding 3(3) skip_bytes_def by linarith
  with 3(1) show ?case by simp
next
  case 4
  then show ?case by simp
next
  case 5
  then show ?case by simp
qed

declare scrub_loop.simps [simp del]

definition scrub_secrets :: "string \<Rightarrow> string" where
  "scrub_secrets t =
     (let bytes = blank_control t in scrub_loop bytes (to_ascii_lowercase bytes) [] 0 0)"


subsection \<open>The scanner on suffixes\<close>

definition value_rest :: "string \<Rightarrow> string" where
  "value_rest r = (let r1 = dropWhile gap_byte r in
     dropWhile (\<lambda>c. \<not> value_delimiter c) (drop (scheme_length (to_ascii_lowercase r1)) r1))"

definition value_shown :: "string \<Rightarrow> string" where
  "value_shown r = (let r1 = dropWhile gap_byte r; n = scheme_length (to_ascii_lowercase r1) in
     takeWhile gap_byte r @ take n r1
       @ (if takeWhile (\<lambda>c. \<not> value_delimiter c) (drop n r1) = [] then [] else redacted_mark))"

text \<open>
  What follows a key word: the text up to the value if the key has one, and what comes after.
\<close>

definition key_value :: "string \<Rightarrow> string \<Rightarrow> (string \<times> string) option" where
  "key_value fragment r = (let g = takeWhile gap_byte r; r1 = dropWhile gap_byte r in
     if r1 \<noteq> [] \<and> separator_byte (hd r1) then Some (g @ [hd r1], tl r1)
     else if fragment = ''bearer'' \<and> g \<noteq> [] then Some (g, r1)
     else None)"

lemma length_value_rest: "length (value_rest r) \<le> length r"
proof -
  have "length (value_rest r) \<le> length (dropWhile gap_byte r)"
    unfolding value_rest_def Let_def by (rule order_trans [OF length_dropWhile_le]) simp
  also have "\<dots> \<le> length r" by (rule length_dropWhile_le)
  finally show ?thesis .
qed

lemma length_key_value: "key_value f r = Some (shown, rest) \<Longrightarrow> length rest \<le> length r"
  using length_dropWhile_le [of gap_byte r]
  by (auto simp: key_value_def Let_def split: if_splits)

lemma fragment_chars: "f \<in> set sensitive_key_fragments \<Longrightarrow> list_all (\<lambda>c. word_byte c \<and> to_ascii_lower c = c) f"
  unfolding sensitive_key_fragments_def set_simps insert_iff empty_iff by (elim disjE) (code_simp+ | simp)+

lemma underscore_iff: "c = CHR ''_'' \<longleftrightarrow> byte_of c = 95"
  using byte_of_eq_iff [of c "CHR ''_''"] by (simp add: byte_of_def)

lemma word_byte_lower [simp]: "word_byte (to_ascii_lower c) = word_byte c"
  by (auto simp: byte_of_to_ascii_lower byte_simps underscore_iff split: if_splits)

lemma word_fragment:
  assumes "find_fragment (to_ascii_lowercase s) = Some f"
  shows "takeWhile word_byte s = take (length f) s @ takeWhile word_byte (drop (length f) s)"
    and "dropWhile word_byte s = dropWhile word_byte (drop (length f) s)"
    and "length f \<le> length s" "0 < length f"
proof -
  note f = find_fragment_Some [OF assms]
  obtain z where z: "to_ascii_lowercase s = f @ z" using f(2) by (auto simp: prefix_def)
  have t: "map to_ascii_lower (take (length f) s) = f"
    using arg_cong [OF z, of "take (length f)"] by (simp add: to_ascii_lowercase_def take_map)
  have w: "list_all (word_byte \<circ> to_ascii_lower) (take (length f) s)"
    using fragment_chars [OF f(1)] by (subst (asm) t [symmetric]) (simp add: list.pred_map list_all_iff)
  then have "\<forall>c \<in> set (take (length f) s). word_byte c" by (simp add: list_all_iff)
  then have "takeWhile word_byte (take (length f) s @ drop (length f) s)
      = take (length f) s @ takeWhile word_byte (drop (length f) s)"
    "dropWhile word_byte (take (length f) s @ drop (length f) s)
      = dropWhile word_byte (drop (length f) s)"
    by (simp_all only: takeWhile_append2 dropWhile_append2)
  then show "takeWhile word_byte s = take (length f) s @ takeWhile word_byte (drop (length f) s)"
    "dropWhile word_byte s = dropWhile word_byte (drop (length f) s)" by simp_all
  show "length f \<le> length s" using arg_cong [OF z, of length] by simp
  show "0 < length f" by (rule f(3))
qed

lemma word_fragment_shorter:
  assumes "find_fragment (to_ascii_lowercase s) = Some f"
  shows "length (dropWhile word_byte s) < length s"
  using word_fragment [OF assms] length_dropWhile_le [of word_byte "drop (length f) s"]
  by (simp only: length_drop)

function scrub :: "string \<Rightarrow> string" where
  "scrub s =
     (if s = [] then []
      else case find_fragment (to_ascii_lowercase s) of
        None \<Rightarrow> hd s # scrub (tl s)
      | Some fragment \<Rightarrow>
          (case key_value fragment (dropWhile word_byte s) of
             None \<Rightarrow> takeWhile word_byte s @ scrub (dropWhile word_byte s)
           | Some (shown, rest) \<Rightarrow>
               takeWhile word_byte s @ shown @ value_shown rest @ scrub (value_rest rest)))"
  by pat_completeness auto
termination
proof (relation "measure length", goal_cases)
  case (4 s f p shown rest)
  from word_fragment_shorter [OF 4(2)] length_key_value [OF 4(3) [folded 4(4)]] length_value_rest [of rest]
  show ?case by simp
qed (auto dest: word_fragment_shorter)

declare scrub.simps [simp del]

lemma scrub_Nil [simp]: "scrub [] = []"
  by (simp add: scrub.simps)

text \<open>Positions and suffixes: where the cursors of the loop stand.\<close>

lemma drop_skip [simp]: "drop (skip_bytes p bytes i) bytes = dropWhile p (drop i bytes)"
  by (simp add: skip_bytes_def dropWhile_eq_drop add.commute)

lemma skip_ge: "i \<le> skip_bytes p bytes i"
  by (simp add: skip_bytes_def)

lemma skip_le: "i \<le> length bytes \<Longrightarrow> skip_bytes p bytes i \<le> length bytes"
  using length_takeWhile_le [of p "drop i bytes"] by (simp add: skip_bytes_def)

definition slice :: "nat \<Rightarrow> nat \<Rightarrow> string \<Rightarrow> string" where
  "slice i j bytes = take (j - i) (drop i bytes)"

lemma slice_skip [simp]: "slice i (skip_bytes p bytes i) bytes = takeWhile p (drop i bytes)"
  by (simp add: slice_def skip_bytes_def takeWhile_eq_take [symmetric])

lemma slice_append:
  assumes "i \<le> j" "j \<le> k"
  shows "slice i j bytes @ slice j k bytes = slice i k bytes"
proof -
  from assms obtain a b where "j = i + a" "k = i + a + b" by (metis le_Suc_ex)
  then show ?thesis by (simp add: slice_def take_add add.commute)
qed

lemma slice_self [simp]: "slice i i bytes = []"
  by (simp add: slice_def)

lemma nth_separator:
  "(i < length bytes \<and> separator_byte (bytes ! i)) = (drop i bytes \<noteq> [] \<and> separator_byte (hd (drop i bytes)))"
  by (auto simp: hd_drop_conv_nth)

lemma scheme_length_le: "scheme_length lower \<le> length lower"
  by (auto simp: scheme_length_def split: option.split dest!: find_SomeD prefix_length_le)


lemma scan_value:
  assumes "lower = to_ascii_lowercase bytes" "scan_value bytes lower i = (a, b)" "i \<le> length bytes"
  shows "i \<le> a" "a \<le> b" "b \<le> length bytes"
    and "slice i a bytes @ (if a < b then redacted_mark else []) = value_shown (drop i bytes)"
    and "drop b bytes = value_rest (drop i bytes)"
proof -
  let ?c = "skip_bytes gap_byte bytes i"
  let ?n = "scheme_length (drop ?c lower)"
  have ab: "a = ?c + ?n" "b = skip_bytes (\<lambda>c. \<not> value_delimiter c) bytes a"
    using assms(2) by (auto simp: scan_value_def Let_def)
  have c: "i \<le> ?c" "?c \<le> length bytes" by (simp_all add: skip_ge skip_le assms(3))
  have n: "?n = scheme_length (to_ascii_lowercase (dropWhile gap_byte (drop i bytes)))"
    by (simp add: assms(1) to_ascii_lowercase_def drop_map flip: drop_skip)
  have "?n \<le> length bytes - ?c" using scheme_length_le [of "drop ?c lower"] by (simp add: assms(1))
  then have al: "a \<le> length bytes" using c by (simp add: ab)
  show "i \<le> a" using c by (simp add: ab(1))
  show le: "a \<le> b" "b \<le> length bytes" using skip_ge skip_le al by (auto simp: ab(2))
  have da: "drop a bytes = drop ?n (dropWhile gap_byte (drop i bytes))"
    by (simp only: ab(1) drop_skip [symmetric] drop_drop add.commute)
  have "slice i a bytes = slice i ?c bytes @ slice ?c a bytes"
    by (rule slice_append [symmetric]) (use c in \<open>simp_all add: ab\<close>)
  moreover have "a < b \<longleftrightarrow> takeWhile (\<lambda>c. \<not> value_delimiter c) (drop a bytes) \<noteq> []"
    unfolding ab(2) by (auto simp: skip_bytes_def)
  ultimately show "slice i a bytes @ (if a < b then redacted_mark else []) = value_shown (drop i bytes)"
    by (simp add: value_shown_def Let_def da n [symmetric]) (simp add: slice_def ab(1))
  show "drop b bytes = value_rest (drop i bytes)"
    by (simp add: ab(2) da value_rest_def Let_def n)
qed


lemma scrub_loop_end: "\<not> index < length bytes \<Longrightarrow> scrub_loop bytes lower out copied index = out @ drop copied bytes"
  by (subst scrub_loop.simps) simp

lemma scrub_loop_skip:
  "index < length bytes \<Longrightarrow> find_fragment (drop index lower) = None \<Longrightarrow>
     scrub_loop bytes lower out copied index = scrub_loop bytes lower out copied (index + 1)"
  by (subst scrub_loop.simps) simp

lemma scrub_loop_key:
  assumes "index < length bytes" "find_fragment (drop index lower) = Some f"
    "k = skip_bytes word_byte bytes (index + length f)" "c = skip_bytes gap_byte bytes k"
    "sep = (c < length bytes \<and> separator_byte (bytes ! c))"
    "scan_value bytes lower (if sep then c + 1 else c) = (a, b)" "index < b"
  shows "scrub_loop bytes lower out copied index =
    (if \<not> sep \<and> (f \<noteq> ''bearer'' \<or> k = c) then scrub_loop bytes lower out copied k
     else if a < b then scrub_loop bytes lower (out @ take (a - copied) (drop copied bytes) @ redacted_mark) b b
     else scrub_loop bytes lower out copied b)"
proof -
  have "max b (index + 1) = b" using assms(7) by simp
  then show ?thesis
    by (subst scrub_loop.simps)
      (simp only: assms(1,2,6) assms(3-5) [symmetric] Let_def option.case prod.case not_True_eq_False if_False)
qed

lemma scrub_plain: "s \<noteq> [] \<Longrightarrow> find_fragment (to_ascii_lowercase s) = None \<Longrightarrow> scrub s = hd s # scrub (tl s)"
  by (subst scrub.simps) simp

lemma scrub_key:
  "find_fragment (to_ascii_lowercase s) = Some f \<Longrightarrow> scrub s =
     (case key_value f (dropWhile word_byte s) of
        None \<Rightarrow> takeWhile word_byte s @ scrub (dropWhile word_byte s)
      | Some (shown, rest) \<Rightarrow>
          takeWhile word_byte s @ shown @ value_shown rest @ scrub (value_rest rest))"
  using word_fragment(3,4) [of s f] by (cases "s = []") (fastforce, subst scrub.simps, simp)

lemma slice_take: "slice i j bytes = take (j - i) (drop i bytes)"
  by (simp add: slice_def)

lemma key_positions:
  assumes "lower = to_ascii_lowercase bytes" "index < length bytes" "find_fragment (drop index lower) = Some f"
    "k = skip_bytes word_byte bytes (index + length f)"
  shows "slice index k bytes = takeWhile word_byte (drop index bytes)"
    and "drop k bytes = dropWhile word_byte (drop index bytes)"
    and "index < k" "k \<le> length bytes"
proof -
  have "find_fragment (to_ascii_lowercase (drop index bytes)) = Some f"
    using assms(1,3) by (simp add: to_ascii_lowercase_def drop_map)
  note wf = word_fragment [OF this]
  have le: "index + length f \<le> length bytes" using wf(3) assms(2) by simp
  have d: "drop (index + length f) bytes = drop (length f) (drop index bytes)"
    by (simp add: add.commute)
  have "slice index k bytes = slice index (index + length f) bytes @ slice (index + length f) k bytes"
    by (rule slice_append [symmetric]) (simp_all add: assms(4) skip_ge)
  also have "\<dots> = take (length f) (drop index bytes) @ takeWhile word_byte (drop (length f) (drop index bytes))"
    unfolding assms(4) slice_skip d by (simp add: slice_def)
  finally show "slice index k bytes = takeWhile word_byte (drop index bytes)" by (simp only: wf(1) [symmetric])
  show "drop k bytes = dropWhile word_byte (drop index bytes)"
    unfolding assms(4) drop_skip d wf(2) ..
  have "index + length f \<le> k" unfolding assms(4) by (rule skip_ge)
  then show "index < k" using wf(4) by linarith
  show "k \<le> length bytes" unfolding assms(4) by (rule skip_le [OF le])
qed

text \<open>What the code decides at the cursor behind the key word is \<open>key_value\<close>.\<close>

lemma key_value_positions:
  assumes "k \<le> length bytes" "c = skip_bytes gap_byte bytes k"
    "sep = (c < length bytes \<and> separator_byte (bytes ! c))" "i = (if sep then c + 1 else c)"
  shows "k \<le> i" "i \<le> length bytes"
    and "key_value f (drop k bytes) = (if \<not> sep \<and> (f \<noteq> ''bearer'' \<or> k = c) then None
           else Some (slice k i bytes, drop i bytes))"
proof -
  have c: "k \<le> c" "c \<le> length bytes" using assms(1) by (simp_all add: assms(2) skip_ge skip_le)
  have dc: "drop c bytes = dropWhile gap_byte (drop k bytes)" by (simp add: assms(2))
  have sc: "slice k c bytes = takeWhile gap_byte (drop k bytes)" by (simp add: assms(2))
  have sep: "sep \<longleftrightarrow> dropWhile gap_byte (drop k bytes) \<noteq> [] \<and> separator_byte (hd (dropWhile gap_byte (drop k bytes)))"
    unfolding assms(3) nth_separator dc ..
  show "k \<le> i" using c by (simp add: assms(4))
  show "i \<le> length bytes" using c assms(3,4) by auto
  have kc: "k = c \<longleftrightarrow> takeWhile gap_byte (drop k bytes) = []"
    by (auto simp: assms(2) skip_bytes_def)
  show "key_value f (drop k bytes) = (if \<not> sep \<and> (f \<noteq> ''bearer'' \<or> k = c) then None
           else Some (slice k i bytes, drop i bytes))"
  proof (cases sep)
    case True
    then have "slice c i bytes = [hd (drop c bytes)]"
      using assms(3) by (simp add: assms(4) slice_def take_Suc)
    then have "slice k i bytes = takeWhile gap_byte (drop k bytes) @ [hd (drop c bytes)]"
      using slice_append [of k c i bytes] c sc by (simp add: assms(4) True)
    moreover have "drop i bytes = tl (drop c bytes)" by (simp add: assms(4) True drop_Suc tl_drop)
    ultimately show ?thesis using True sep by (simp add: key_value_def Let_def dc)
  next
    case False
    then show ?thesis using sep kc sc dc by (auto simp: key_value_def Let_def assms(4))
  qed
qed

text \<open>The scanner of the code and the scanner on suffixes produce the same text.\<close>

lemma scrub_loop_scrub:
  assumes "lower = to_ascii_lowercase bytes" "copied \<le> index" "index \<le> length bytes"
  shows "scrub_loop bytes lower out copied index = out @ slice copied index bytes @ scrub (drop index bytes)"
  using assms
proof (induction "length bytes - index" arbitrary: out copied index rule: less_induct)
  case less
  let ?s = "drop index bytes"
  note lower = less.prems(1)
  have low: "drop index lower = to_ascii_lowercase ?s"
    by (simp add: lower to_ascii_lowercase_def drop_map)
  show ?case
  proof (cases "index < length bytes")
    case False
    with less.prems show ?thesis by (simp add: scrub_loop_end slice_def)
  next
    case True
    show ?thesis
    proof (cases "find_fragment (drop index lower)")
      case None
      have "slice index (index + 1) bytes = [hd ?s]" using True by (simp add: slice_def take_Suc)
      then have "slice copied (index + 1) bytes = slice copied index bytes @ [hd ?s]"
        using slice_append [of copied index "index + 1" bytes] less.prems(2) by simp
      moreover have "drop (index + 1) bytes = tl ?s" by (simp add: drop_Suc tl_drop)
      ultimately show ?thesis
        using scrub_loop_skip [OF True None] scrub_plain [of ?s] None [unfolded low] True
          less.hyps [of "index + 1" copied out] less.prems by simp
    next
      case (Some f)
      obtain k where kdef: "k = skip_bytes word_byte bytes (index + length f)" by simp
      obtain c where cdef: "c = skip_bytes gap_byte bytes k" by simp
      obtain sep where sdef: "sep = (c < length bytes \<and> separator_byte (bytes ! c))" by simp
      obtain i where idef: "i = (if sep then c + 1 else c)" by simp
      obtain a b where ab: "scan_value bytes lower i = (a, b)" by fastforce
      note k = key_positions [OF lower True Some kdef]
      note i = key_value_positions [OF k(4) cdef sdef idef]
      note sv = scan_value [OF lower ab i(2)]
      have ib: "index < b" using k(3) i(1) sv(1,2) by linarith
      note step = scrub_loop_key [OF True Some kdef cdef sdef ab [unfolded idef] ib]
      have sk: "slice copied k bytes = slice copied index bytes @ takeWhile word_byte ?s"
        using slice_append [of copied index k bytes] less.prems(2) k(1,3) by simp
      have sa: "slice copied a bytes = slice copied index bytes @ takeWhile word_byte ?s @ slice k i bytes @ slice i a bytes"
        using slice_append [of copied k i bytes] slice_append [of copied i a bytes] sk
          less.prems(2) k(3) i(1) sv(1) by (simp flip: append_assoc)
      note spec = scrub_key [OF Some [unfolded low]]
      show ?thesis
      proof (cases "\<not> sep \<and> (f \<noteq> ''bearer'' \<or> k = c)")
        case True': True
        have "scrub_loop bytes lower out copied k = out @ slice copied k bytes @ scrub (drop k bytes)"
          using less.hyps [of k copied out] less.prems k(3,4) True by simp
        then show ?thesis using step True' spec i(3) sk k(2) by simp
      next
        case False
        have kv: "key_value f (dropWhile word_byte ?s) = Some (slice k i bytes, drop i bytes)"
          using i(3) False by (simp only: if_False k(2) [symmetric])
        show ?thesis
        proof (cases "a < b")
          case True'': True
          have "scrub_loop bytes lower (out @ take (a - copied) (drop copied bytes) @ redacted_mark) b b
              = (out @ slice copied a bytes @ redacted_mark) @ slice b b bytes @ scrub (drop b bytes)"
            using less.hyps [of b b] less.prems ib sv(3) True by (simp add: slice_take)
          moreover have "value_shown (drop i bytes) = slice i a bytes @ redacted_mark"
            using sv(4) True'' by simp
          ultimately show ?thesis
            by (simp add: step [unfolded if_not_P [OF False]] if_P [OF True''] spec kv sv(5) sa)
        next
          case False': False
          then have "a = b" using sv(2) by simp
          have "scrub_loop bytes lower out copied b = out @ slice copied b bytes @ scrub (drop b bytes)"
            using less.hyps [of b copied out] less.prems ib sv(3) True by simp
          moreover have "value_shown (drop i bytes) = slice i b bytes" using sv(4) False' \<open>a = b\<close> by simp
          ultimately show ?thesis
            by (simp add: step [unfolded if_not_P [OF False]] if_not_P [OF False'] spec kv sv(5) sa [unfolded \<open>a = b\<close>])
        qed
      qed
    qed
  qed
qed

theorem scrub_secrets_scrub: "scrub_secrets t = scrub (blank_control t)"
  by (simp add: scrub_secrets_def Let_def scrub_loop_scrub)

subsection \<open>What the scanner hides\<close>

lemma byte_classes:
  "word_byte c \<Longrightarrow> \<not> gap_byte c" "word_byte c \<Longrightarrow> \<not> separator_byte c" "word_byte c \<Longrightarrow> \<not> value_delimiter c"
  "separator_byte c \<Longrightarrow> \<not> word_byte c" "separator_byte c \<Longrightarrow> \<not> gap_byte c"
  "separator_byte c \<Longrightarrow> \<not> value_delimiter c" "gap_byte c \<Longrightarrow> value_delimiter c" "gap_byte c \<Longrightarrow> \<not> word_byte c"
  by (auto simp: byte_simps byte_of_def)

lemma lower_append [simp]: "to_ascii_lowercase (s @ t) = to_ascii_lowercase s @ to_ascii_lowercase t"
  "to_ascii_lowercase (c # t) = to_ascii_lower c # to_ascii_lowercase t" "to_ascii_lowercase [] = []"
  by (simp_all add: to_ascii_lowercase_def)

lemma prefix_word_part:
  assumes "list_all word_byte g"
  shows "prefix g (to_ascii_lowercase s) \<longleftrightarrow> prefix g (to_ascii_lowercase (takeWhile word_byte s))"
  using assms
proof (induction s arbitrary: g)
  case (Cons c s)
  then show ?case by (cases g) (auto simp: list_all_iff)
qed simp

text \<open>Whether a key starts here is decided by the word the text starts with.\<close>

lemma find_cong_on: "(\<And>x. x \<in> set xs \<Longrightarrow> p x = q x) \<Longrightarrow> find p xs = find q xs"
  by (induction xs) auto

lemma find_fragment_word:
  "find_fragment (to_ascii_lowercase s) = find_fragment (to_ascii_lowercase (takeWhile word_byte s))"
  unfolding find_fragment_def
  by (rule find_cong_on, rule prefix_word_part) (use fragment_chars in \<open>auto simp: list_all_iff\<close>)

definition sensitive_word :: "string \<Rightarrow> bool" where
  "sensitive_word key \<longleftrightarrow> list_all word_byte key
     \<and> list_ex (\<lambda>f. starts_with (to_ascii_lowercase key) f) sensitive_key_fragments"

lemma sensitive_word_find:
  "sensitive_word key \<Longrightarrow> \<exists>f. find_fragment (to_ascii_lowercase key) = Some f"
  by (cases "find_fragment (to_ascii_lowercase key)")
    (auto simp: sensitive_word_def find_fragment_def find_None_iff list_ex_iff)

lemma find_sensitive_word:
  "find_fragment (to_ascii_lowercase key) = Some f \<Longrightarrow> list_all word_byte key \<Longrightarrow> sensitive_word key"
  using find_fragment_Some(1,2) [of "to_ascii_lowercase key" f] by (auto simp: sensitive_word_def list_ex_iff)

lemma sensitive_word_neq_Nil: "sensitive_word key \<Longrightarrow> key \<noteq> []"
  using sensitive_word_find [of key] word_fragment(3,4) [of key] by fastforce

text \<open>The text of a value, and a scheme word with its space.\<close>

definition value_text :: "string \<Rightarrow> bool" where
  "value_text v \<longleftrightarrow> v \<noteq> [] \<and> list_all (\<lambda>c. \<not> value_delimiter c) v"

definition scheme_word :: "string \<Rightarrow> bool" where
  "scheme_word v \<longleftrightarrow> to_ascii_lowercase v = ''bearer'' \<or> to_ascii_lowercase v = ''basic''"

definition ends_value :: "string \<Rightarrow> bool" where
  "ends_value rest \<longleftrightarrow> rest = [] \<or> value_delimiter (hd rest)"

lemma space_lower [simp]: "to_ascii_lower c = CHR '' '' \<longleftrightarrow> c = CHR '' ''"
  using byte_of_eq_iff [of c "CHR '' ''"] byte_of_eq_iff [of "to_ascii_lower c" "CHR '' ''"]
  by (auto simp: byte_of_to_ascii_lower is_ascii_uppercase_def byte_of_def [of "CHR '' ''"] split: if_splits)

lemma lower_space [simp]: "CHR '' '' = to_ascii_lower c \<longleftrightarrow> c = CHR '' ''"
  using space_lower [of c] by metis

lemma scheme_at_value:
  assumes "prefix (w @ [CHR '' '']) (to_ascii_lowercase (v @ rest))" "value_text v" "ends_value rest"
    "list_all word_byte w"
  shows "to_ascii_lowercase v = w"
  using assms
proof (induction v arbitrary: w)
  case Nil
  then show ?case by (simp add: value_text_def)
next
  case (Cons c v)
  show ?case
  proof (cases w)
    case Nil
    with Cons.prems show ?thesis by (simp add: value_text_def value_delimiter_def)
  next
    case (Cons d w')
    note w = this
    show ?thesis
    proof (cases "v = []")
      case True
      with Cons.prems w show ?thesis
        by (cases w'; cases rest) (auto simp: ends_value_def dest: byte_classes)
    next
      case False
      with Cons.IH [of w'] Cons.prems w show ?thesis by (simp add: value_text_def)
    qed
  qed
qed

lemma scheme_length_none:
  assumes "value_text v" "ends_value rest" "\<not> scheme_word v"
  shows "scheme_length (to_ascii_lowercase (v @ rest)) = 0"
proof -
  have "\<not> prefix (w @ [CHR '' '']) (to_ascii_lowercase (v @ rest))" if "w = ''bearer'' \<or> w = ''basic''" for w
    using scheme_at_value [OF _ assms(1,2), of w] assms(3) that
    by (auto simp: scheme_word_def byte_simps byte_of_def)
  from this [of "''bearer''"] this [of "''basic''"] show ?thesis by (simp add: scheme_length_def)
qed

lemma length_lowered: "to_ascii_lowercase w = u \<Longrightarrow> length w = length u"
  by auto

lemma scheme_length_scheme:
  assumes "scheme_word w"
  shows "scheme_length (to_ascii_lowercase (w @ CHR '' '' # t)) = Suc (length w)"
proof -
  have s: "to_ascii_lower (CHR '' '') = CHR '' ''" by simp
  from assms consider "to_ascii_lowercase w = ''bearer''" | "to_ascii_lowercase w = ''basic''"
    by (auto simp: scheme_word_def)
  then show ?thesis
    by cases (simp_all add: scheme_length_def s length_lowered)
qed

lemma value_shown_text:
  assumes "value_text v" "ends_value rest"
    "scheme = [] \<and> \<not> scheme_word v \<or> (\<exists>w. scheme_word w \<and> scheme = w @ '' '')" "list_all gap_byte g"
  shows "value_shown (g @ scheme @ v @ rest) = g @ scheme @ redacted_mark"
    "value_rest (g @ scheme @ v @ rest) = rest"
proof -
  have hd_scheme: "\<not> gap_byte (hd w)" "w \<noteq> []" if "scheme_word w" for w
    using that by (cases w; auto simp: scheme_word_def to_ascii_lower_def byte_simps byte_of_def split: if_splits)+
  have v: "\<not> gap_byte (hd v)" "v \<noteq> []"
    using assms(1) byte_classes(7) by (auto simp: value_text_def neq_Nil_conv)
  have ne: "scheme @ v @ rest \<noteq> []" "\<not> gap_byte (hd (scheme @ v @ rest))"
    using assms(3) hd_scheme v by (auto simp: hd_append)
  then obtain x y where xy: "scheme @ v @ rest = x # y" "\<not> gap_byte x" by (cases "scheme @ v @ rest") auto
  have g: "takeWhile gap_byte (g @ scheme @ v @ rest) = g" "dropWhile gap_byte (g @ scheme @ v @ rest) = scheme @ v @ rest"
    using assms(4) xy by (simp_all add: list_all_iff)
  have n: "scheme_length (to_ascii_lowercase (scheme @ v @ rest)) = length scheme"
    using assms(3)
  proof
    assume "scheme = [] \<and> \<not> scheme_word v"
    then show ?thesis using scheme_length_none [OF assms(1,2)] by simp
  next
    assume "\<exists>w. scheme_word w \<and> scheme = w @ '' ''"
    then obtain w where "scheme_word w" "scheme = w @ '' ''" by blast
    then show ?thesis using scheme_length_scheme [of w "v @ rest"] by simp
  qed
  have all: "\<forall>c \<in> set v. \<not> value_delimiter c" using assms(1) by (simp add: value_text_def list_all_iff)
  have t: "takeWhile (\<lambda>c. \<not> value_delimiter c) (v @ rest) = v" "dropWhile (\<lambda>c. \<not> value_delimiter c) (v @ rest) = rest"
    using all assms(2) by (cases rest; simp add: ends_value_def)+
  show "value_shown (g @ scheme @ v @ rest) = g @ scheme @ redacted_mark"
    using v(2) by (simp only: value_shown_def Let_def g n) (simp add: t)
  show "value_rest (g @ scheme @ v @ rest) = rest"
    by (simp only: value_rest_def Let_def g n) (simp add: t)
qed

lemma scrub_at_key:
  assumes "sensitive_word key" "list_all gap_byte g" "separator_byte c" "list_all gap_byte g'"
    "scheme = [] \<and> \<not> scheme_word v \<or> (\<exists>w. scheme_word w \<and> scheme = w @ '' '')"
    "value_text v" "ends_value rest"
  shows "scrub (key @ g @ c # g' @ scheme @ v @ rest) = key @ g @ c # g' @ scheme @ redacted_mark @ scrub rest"
proof -
  let ?s = "key @ g @ c # g' @ scheme @ v @ rest"
  have w: "\<forall>x \<in> set key. word_byte x" using assms(1) by (simp add: sensitive_word_def list_all_iff)
  have gc: "\<forall>x \<in> set g. gap_byte x" using assms(2) by (simp add: list_all_iff)
  have "\<not> word_byte (hd (g @ c # g' @ scheme @ v @ rest))"
    using gc assms(3) byte_classes(4,8) by (cases g) auto
  then obtain x y where xy: "g @ c # g' @ scheme @ v @ rest = x # y" "\<not> word_byte x"
    by (cases "g @ c # g' @ scheme @ v @ rest") auto
  have t: "takeWhile word_byte ?s = key" "dropWhile word_byte ?s = g @ c # g' @ scheme @ v @ rest"
    using w xy by simp_all
  obtain f where "find_fragment (to_ascii_lowercase key) = Some f"
    using sensitive_word_find [OF assms(1)] by blast
  then have f: "find_fragment (to_ascii_lowercase ?s) = Some f"
    by (subst find_fragment_word) (simp only: t)
  have "key_value f (g @ c # g' @ scheme @ v @ rest) = Some (g @ [c], g' @ scheme @ v @ rest)"
    using gc assms(3) byte_classes(5) by (simp add: key_value_def Let_def)
  with scrub_key [OF f] t value_shown_text [OF assms(6,7,5,4)] show ?thesis by simp
qed


text \<open>
  What the scanner does in front of a key does not depend on the value behind the key: it
  stops in front of the key, or it takes the key and the value for one value.
\<close>

lemma prefix_stops:
  assumes "prefix (a @ [y]) (p @ k @ z # t)" "y \<notin> set k" "z \<notin> set (a @ [y])"
  shows "prefix (a @ [y]) p"
proof (rule ccontr)
  assume "\<not> prefix (a @ [y]) p"
  then obtain u where u: "a @ [y] = p @ u" "u \<noteq> []" "prefix u (k @ z # t)"
    using assms(1) by (auto simp: prefix_append)
  then have y: "last u = y" "set u \<subseteq> set (a @ [y])"
    by (metis last_appendR last_snoc) (metis Un_iff set_append subsetI u(1))
  from u(3) consider "prefix u k" | "z \<in> set u"
    by (auto simp: prefix_append prefix_Cons)
  then show False
  proof cases
    case 1
    then have "y \<in> set k" using u(2) y(1) by (auto simp: prefix_def)
    with assms(2) show False ..
  next
    case 2
    with assms(3) y(2) show False by blast
  qed
qed

lemma scheme_length_local:
  assumes "list_all word_byte key" "separator_byte c"
  shows "scheme_length (to_ascii_lowercase (q @ key @ c # t)) = scheme_length (to_ascii_lowercase q)"
proof -
  have c: "to_ascii_lower c = c" "c = CHR ''='' \<or> c = CHR '':''"
    using assms(2) by (auto simp: separator_byte_def to_ascii_lower_def byte_simps byte_of_def)
  have k: "CHR '' '' \<notin> set (to_ascii_lowercase key)"
    using assms(1) by (auto simp: to_ascii_lowercase_def list_all_iff byte_simps byte_of_def)
  have "prefix (w @ '' '') (to_ascii_lowercase (q @ key @ c # t)) \<longleftrightarrow> prefix (w @ '' '') (to_ascii_lowercase q)"
    if "c \<notin> set w" "c \<noteq> CHR '' ''" for w
    using prefix_stops [of w "CHR '' ''" "to_ascii_lowercase q" "to_ascii_lowercase key" c] k that
    by (auto simp: c(1) prefix_prefix)
  from this [of "''bearer''"] this [of "''basic''"] c(2) show ?thesis
    by (auto simp: scheme_length_def)
qed

lemma key_value_local:
  assumes "key \<noteq> []" "list_all word_byte key"
  shows "key_value f (p @ key @ t) = (case key_value f (p @ [hd key]) of None \<Rightarrow> None
      | Some (shown, rest) \<Rightarrow> Some (shown, butlast rest @ key @ t))"
    "key_value f (p @ [hd key]) = Some (shown, rest) \<Longrightarrow> length (butlast rest) \<le> length p"
proof -
  obtain k ks where k: "key = k # ks" "word_byte k" using assms by (cases key) auto
  obtain pd where pd: "pd = dropWhile gap_byte p" by simp
  have d: "dropWhile gap_byte (p @ k # u) = pd @ k # u"
    "takeWhile gap_byte (p @ k # u) = takeWhile gap_byte p" for u
    using byte_classes(1) [OF k(2)] by (simp_all add: pd dropWhile_append3 takeWhile_tail)
  show "key_value f (p @ key @ t) = (case key_value f (p @ [hd key]) of None \<Rightarrow> None
      | Some (shown, rest) \<Rightarrow> Some (shown, butlast rest @ key @ t))"
    using byte_classes(2) [OF k(2)]
    by (cases pd) (auto simp: key_value_def Let_def k(1) d butlast_append)
  assume "key_value f (p @ [hd key]) = Some (shown, rest)"
  then show "length (butlast rest) \<le> length p"
    using length_dropWhile_le [of gap_byte p, folded pd]
    by (auto simp: key_value_def Let_def k(1) d split: if_splits)
qed

lemma value_local:
  assumes "key \<noteq> []" "list_all word_byte key" "separator_byte c" "ends_value rest"
  shows "(\<exists>shown q'. length q' \<le> length q \<and> (\<forall>v. value_text v \<longrightarrow>
             value_shown (q @ key @ c # v @ rest) = shown \<and> value_rest (q @ key @ c # v @ rest) = q' @ key @ c # v @ rest))
    \<or> (\<exists>shown. \<forall>v. value_text v \<longrightarrow>
             value_shown (q @ key @ c # v @ rest) = shown \<and> value_rest (q @ key @ c # v @ rest) = rest)"
proof -
  let ?q = "dropWhile gap_byte q"
  let ?n = "scheme_length (to_ascii_lowercase ?q)"
  obtain k ks where k: "key = k # ks" "word_byte k" using assms by (cases key) auto
  have d: "dropWhile gap_byte (q @ key @ u) = ?q @ key @ u" "takeWhile gap_byte (q @ key @ u) = takeWhile gap_byte q" for u
    using byte_classes(1) [OF k(2)] by (simp_all add: k(1) dropWhile_append3 takeWhile_tail)
  have n: "?n \<le> length ?q" using scheme_length_le [of "to_ascii_lowercase ?q"] by simp
  have r: "value_rest (q @ key @ c # u) = dropWhile (\<lambda>c. \<not> value_delimiter c) (drop ?n ?q @ key @ c # u)"
    "value_shown (q @ key @ c # u) = takeWhile gap_byte q @ take ?n ?q
       @ (if takeWhile (\<lambda>c. \<not> value_delimiter c) (drop ?n ?q @ key @ c # u) = [] then [] else redacted_mark)" for u
    using n by (simp_all add: value_rest_def value_shown_def Let_def d scheme_length_local [OF assms(2,3)] del: lower_append)
  have len: "length (drop ?n ?q) \<le> length q" using length_dropWhile_le [of gap_byte q] by simp
  show ?thesis
  proof (cases "\<exists>x \<in> set (drop ?n ?q). value_delimiter x")
    case True
    then have "value_rest (q @ key @ c # u) = dropWhile (\<lambda>c. \<not> value_delimiter c) (drop ?n ?q) @ key @ c # u"
      "value_shown (q @ key @ c # u) = takeWhile gap_byte q @ take ?n ?q
       @ (if takeWhile (\<lambda>c. \<not> value_delimiter c) (drop ?n ?q) = [] then [] else redacted_mark)" for u
      by (auto simp: r)
    moreover have "length (dropWhile (\<lambda>c. \<not> value_delimiter c) (drop ?n ?q)) \<le> length q"
      by (rule order_trans [OF length_dropWhile_le len])
    ultimately show ?thesis by blast
  next
    case False
    have w: "\<forall>x \<in> set key. \<not> value_delimiter x" "\<not> value_delimiter c"
      using assms(2,3) byte_classes(3,6) by (auto simp: list_all_iff)
    have "takeWhile (\<lambda>c. \<not> value_delimiter c) (drop ?n ?q @ key @ c # v @ rest) \<noteq> []"
      "dropWhile (\<lambda>c. \<not> value_delimiter c) (drop ?n ?q @ key @ c # v @ rest) = rest" if "value_text v" for v
    proof -
      have "\<forall>x \<in> set (drop ?n ?q @ key @ c # v). \<not> value_delimiter x"
        using that False w by (auto simp: value_text_def list_all_iff)
      then have "takeWhile (\<lambda>c. \<not> value_delimiter c) ((drop ?n ?q @ key @ c # v) @ rest) = drop ?n ?q @ key @ c # v"
        "dropWhile (\<lambda>c. \<not> value_delimiter c) ((drop ?n ?q @ key @ c # v) @ rest) = rest"
        using assms(4) by (cases rest; simp add: ends_value_def)+
      then show "takeWhile (\<lambda>c. \<not> value_delimiter c) (drop ?n ?q @ key @ c # v @ rest) \<noteq> []"
        "dropWhile (\<lambda>c. \<not> value_delimiter c) (drop ?n ?q @ key @ c # v @ rest) = rest"
        by simp_all
    qed
    then have "value_text v \<longrightarrow> value_shown (q @ key @ c # v @ rest) = takeWhile gap_byte q @ take ?n ?q @ redacted_mark
        \<and> value_rest (q @ key @ c # v @ rest) = rest" for v
      by (simp add: r)
    then show ?thesis by blast
  qed
qed

lemma scrub_hides:
  assumes "sensitive_word key" "separator_byte c" "ends_value rest"
    "value_text v" "\<not> scheme_word v" "value_text v'" "\<not> scheme_word v'"
  shows "scrub (pre @ key @ c # v @ rest) = scrub (pre @ key @ c # v' @ rest)"
proof (induction "length pre" arbitrary: pre rule: less_induct)
  case less
  have key: "key \<noteq> []" "list_all word_byte key"
    using assms(1) sensitive_word_neq_Nil by (auto simp: sensitive_word_def)
  have word: "\<forall>x \<in> set key. word_byte x" "\<not> word_byte c"
    using key(2) assms(2) byte_classes(4) by (auto simp: list_all_iff)
  have at: "scrub (k @ c # v @ rest) = scrub (k @ c # v' @ rest)" if "sensitive_word k" for k
    using scrub_at_key [of k "[]" c "[]" "[]"] that assms by simp
  show ?case
  proof (cases "list_all word_byte pre")
    case True
    have tw: "takeWhile word_byte (pre @ key @ c # u) = pre @ key" for u
      using True word by (simp add: list_all_iff)
    note ff = find_fragment_word [of "pre @ key @ c # u" for u, unfolded tw]
    show ?thesis
    proof (cases "find_fragment (to_ascii_lowercase (pre @ key))")
      case None
      then have "pre \<noteq> []" using sensitive_word_find [OF assms(1)] by auto
      then obtain x p where p: "pre = x # p" by (cases pre) auto
      have "scrub (pre @ key @ c # u) = x # scrub (p @ key @ c # u)" for u
        using scrub_plain [of "pre @ key @ c # u"] ff [of u] None by (simp add: p del: lower_append)
      then show ?thesis using less [of p] p by simp
    next
      case (Some f)
      then have "sensitive_word (pre @ key)"
        using True key(2) find_sensitive_word by simp
      from at [OF this] show ?thesis by simp
    qed
  next
    case False
    let ?w = "takeWhile word_byte pre" and ?p = "dropWhile word_byte pre"
    have ne: "pre \<noteq> []" "?p \<noteq> []" using False by (auto simp: list_all_iff)
    then obtain x p where p: "pre = x # p" by (cases pre) auto
    have tw: "takeWhile word_byte (pre @ u) = ?w" "dropWhile word_byte (pre @ u) = ?p @ u" for u
      using False by (auto simp: list_all_iff)
    note ff = find_fragment_word [of "pre @ u" for u, unfolded tw]
    show ?thesis
    proof (cases "find_fragment (to_ascii_lowercase ?w)")
      case None
      have "scrub (pre @ key @ c # u) = x # scrub (p @ key @ c # u)" for u
        using scrub_plain [of "pre @ key @ c # u"] ff [of "key @ c # u"] None by (simp add: p del: lower_append)
      then show ?thesis using less [of p] p by simp
    next
      case (Some f)
      have "length pre = length ?w + length ?p" by (metis length_append takeWhile_dropWhile_id)
      then have wlen: "length ?p < length pre" using word_fragment(3,4) [OF Some] by linarith
      note sk = scrub_key [OF ff [THEN trans, OF Some], unfolded tw]
      show ?thesis
      proof (cases "key_value f (?p @ [hd key])")
        case None
        then have "scrub (pre @ key @ u) = ?w @ scrub (?p @ key @ u)" for u
          using sk [of "key @ u"] key_value_local(1) [OF key, of f ?p u] by simp
        then show ?thesis using less [OF wlen] by simp
      next
        case (Some sr)
        obtain shown r where sr: "sr = (shown, r)" by fastforce
        let ?q = "butlast r"
        have q: "length ?q \<le> length ?p"
          using key_value_local(2) [OF key, of f ?p shown r] Some sr by simp
        have s: "scrub (pre @ key @ u) = ?w @ shown @ value_shown (?q @ key @ u) @ scrub (value_rest (?q @ key @ u))" for u
          using sk [of "key @ u"] key_value_local(1) [OF key, of f ?p u] Some sr by simp
        from value_local [OF key assms(2,3), of ?q] show ?thesis
        proof (elim disjE exE conjE)
          fix sh q'
          assume q': "length q' \<le> length ?q" and all: "\<forall>v. value_text v \<longrightarrow>
              value_shown (?q @ key @ c # v @ rest) = sh \<and> value_rest (?q @ key @ c # v @ rest) = q' @ key @ c # v @ rest"
          have "length q' < length pre" using q' q wlen by linarith
          from less [OF this] show ?thesis using all assms(4,6) by (simp add: s)
        next
          fix sh
          assume "\<forall>v. value_text v \<longrightarrow>
              value_shown (?q @ key @ c # v @ rest) = sh \<and> value_rest (?q @ key @ c # v @ rest) = rest"
          then show ?thesis using assms(4,6) by (simp add: s)
        qed
      qed
    qed
  qed
qed


text \<open>The same key in quotes, behind an \<open>Authorization\<close> scheme, or with spaces around the
separator: it is found when no key stands in front of it.\<close>

lemma find_fragment_sublist: "find_fragment s = Some f \<Longrightarrow> f \<in> set sensitive_key_fragments \<and> sublist f s"
  using find_fragment_Some [of s f] by (auto dest: prefix_imp_sublist)

lemma scrub_first_key:
  assumes "sensitive_word key" "list_all gap_byte g" "separator_byte c" "list_all gap_byte g'"
    "scheme = [] \<and> \<not> scheme_word v \<or> (\<exists>w. scheme_word w \<and> scheme = w @ '' '')"
    "value_text v" "ends_value rest"
    "\<forall>f \<in> set sensitive_key_fragments. \<not> str_contains (to_ascii_lowercase pre) f"
  shows "scrub (pre @ key @ g @ c # g' @ scheme @ v @ rest)
    = pre @ key @ g @ c # g' @ scheme @ redacted_mark @ scrub rest"
  using assms(8)
proof (induction pre)
  case Nil
  then show ?case using scrub_at_key [OF assms(1-7)] by simp
next
  case (Cons x pre)
  let ?t = "key @ g @ c # g' @ scheme @ v @ rest"
  have tail: "\<forall>f \<in> set sensitive_key_fragments. \<not> str_contains (to_ascii_lowercase pre) f"
    using Cons.prems by (auto simp: sublist_Cons_right)
  show ?case
  proof (cases "find_fragment (to_ascii_lowercase ((x # pre) @ ?t))")
    case None
    then show ?thesis using scrub_plain [of "(x # pre) @ ?t"] Cons.IH [OF tail] by simp
  next
    case (Some f)
    have f: "prefix f (to_ascii_lowercase (x # pre) @ to_ascii_lowercase ?t)" "f \<in> set sensitive_key_fragments"
      using find_fragment_Some(1,2) [OF Some] by simp_all
    then have "\<not> prefix f (to_ascii_lowercase (x # pre))"
      using Cons.prems prefix_imp_sublist by blast
    then obtain u where u: "f = to_ascii_lowercase (x # pre) @ u" using f(1) unfolding prefix_append by blast
    have "list_all word_byte f" using fragment_chars [OF f(2)] by (simp add: list_all_iff)
    then have "list_all word_byte (to_ascii_lowercase (x # pre))" by (simp only: u list_all_append)
    then have w: "list_all word_byte (x # pre)" by (simp add: to_ascii_lowercase_def list.pred_map comp_def)
    have "takeWhile word_byte ((x # pre) @ ?t) = (x # pre) @ key"
    proof -
      obtain y z where "g @ c # g' @ scheme @ v @ rest = y # z" "\<not> word_byte y"
        using assms(2,3) byte_classes(4,8) by (cases g) auto
      moreover have "\<forall>y \<in> set ((x # pre) @ key). word_byte y"
        using w assms(1) by (auto simp: sensitive_word_def list_all_iff)
      ultimately show ?thesis by simp
    qed
    then have "find_fragment (to_ascii_lowercase ((x # pre) @ key)) = Some f"
      using Some find_fragment_word [of "(x # pre) @ ?t"] by simp
    then have "sensitive_word ((x # pre) @ key)"
      using w assms(1) by (intro find_sensitive_word) (auto simp: sensitive_word_def)
    from scrub_at_key [OF this assms(2-7)] show ?thesis by simp
  qed
qed

subsection \<open>Control characters\<close>

definition ascii_start :: "string \<Rightarrow> bool" where
  "ascii_start s \<longleftrightarrow> s = [] \<or> byte_of (hd s) < 128"

lemma blank_control_Cons:
  "byte_of c < 32 \<or> byte_of c = 127 \<Longrightarrow> blank_control (c # s) = CHR '' '' # blank_control s"
  "32 \<le> byte_of c \<Longrightarrow> byte_of c \<noteq> 127 \<Longrightarrow> byte_of c \<noteq> 194 \<Longrightarrow> blank_control (c # s) = c # blank_control s"
  "byte_of c = 194 \<Longrightarrow> 128 \<le> byte_of d \<Longrightarrow> byte_of d \<le> 159 \<Longrightarrow> blank_control (c # d # s) = CHR '' '' # blank_control s"
  "byte_of c = 194 \<Longrightarrow> byte_of d < 128 \<or> 159 < byte_of d \<Longrightarrow> blank_control (c # d # s) = c # blank_control (d # s)"
  "byte_of c = 194 \<Longrightarrow> blank_control [c] = [c]"
  by auto

lemma blank_control_cases [case_names Nil control plain wide narrow last]:
  assumes "P []"
    and "\<And>c s. byte_of c < 32 \<or> byte_of c = 127 \<Longrightarrow> P s \<Longrightarrow> P (c # s)"
    and "\<And>c s. 32 \<le> byte_of c \<Longrightarrow> byte_of c \<noteq> 127 \<Longrightarrow> byte_of c \<noteq> 194 \<Longrightarrow> P s \<Longrightarrow> P (c # s)"
    and "\<And>c d s. byte_of c = 194 \<Longrightarrow> 128 \<le> byte_of d \<Longrightarrow> byte_of d \<le> 159 \<Longrightarrow> P s \<Longrightarrow> P (c # d # s)"
    and "\<And>c d s. byte_of c = 194 \<Longrightarrow> byte_of d < 128 \<or> 159 < byte_of d \<Longrightarrow> P (d # s) \<Longrightarrow> P (c # d # s)"
    and "\<And>c. byte_of c = 194 \<Longrightarrow> P [c]"
  shows "P s"
proof (induction s rule: length_induct)
  case (1 s)
  show ?case
  proof (cases s)
    case Nil
    with assms(1) show ?thesis by simp
  next
    case s: (Cons c t)
    with 1 have t: "P t" by simp
    consider "byte_of c < 32 \<or> byte_of c = 127" | "32 \<le> byte_of c \<and> byte_of c \<noteq> 127 \<and> byte_of c \<noteq> 194" | "byte_of c = 194"
      by linarith
    then show ?thesis
    proof cases
      case 3
      show ?thesis
      proof (cases t)
        case Nil
        with 3 assms(6) s show ?thesis by simp
      next
        case (Cons d u)
        with 1 s have "P u" by simp
        with 3 t Cons s assms(4) [of c d u] assms(5) [of c d u] show ?thesis
          by (cases "128 \<le> byte_of d \<and> byte_of d \<le> 159") (auto simp: not_le)
      qed
    qed (use s t assms(2,3) in auto)
  qed
qed

lemma blank_control_append:
  assumes "ascii_start t"
  shows "blank_control (s @ t) = blank_control s @ blank_control t"
proof (induction s rule: blank_control_cases)
  case (last c)
  with assms show ?case by (cases t) (simp_all add: ascii_start_def blank_control_Cons)
qed (simp_all add: blank_control_Cons del: blank_control.simps(2))

lemma has_control_Cons:
  "32 \<le> byte_of c \<Longrightarrow> byte_of c \<noteq> 127 \<Longrightarrow> byte_of c \<noteq> 194 \<Longrightarrow> has_control (c # s) = has_control s"
  "byte_of c = 194 \<Longrightarrow> byte_of d < 128 \<or> 159 < byte_of d \<Longrightarrow> has_control (c # d # s) = has_control (d # s)"
  "has_control (CHR '' '' # s) = has_control s"
  by (auto simp: byte_of_def [of "CHR '' ''"])

lemma blank_control_id: "\<not> has_control s \<Longrightarrow> blank_control s = s"
proof (induction s rule: blank_control_cases)
  case (narrow c d s)
  then show ?case by (simp only: has_control_Cons blank_control_Cons simp_thms)
qed auto

lemma blank_control_clean: "\<not> has_control (blank_control s)"
proof (induction s rule: blank_control_cases)
  case (narrow c d s)
  have "(\<exists>y. blank_control (d # s) = CHR '' '' # y) \<or> (\<exists>y. blank_control (d # s) = d # y)"
    using narrow(2) by (cases "byte_of d = 194"; cases s) auto
  then have "has_control (c # blank_control (d # s)) = has_control (blank_control (d # s))"
    using narrow(1,2) has_control_Cons(2) [of c "CHR '' ''"] has_control_Cons(2) [of c d]
    by (elim disjE exE) (simp_all only: byte_of_def [of "CHR '' ''"], simp_all)
  with narrow(3) show ?case by (simp only: blank_control_Cons(4) [OF narrow(1,2)] not_False_eq_True)
next
  case (control c s)
  then show ?case by (simp only: blank_control_Cons has_control_Cons simp_thms)
next
  case (plain c s)
  then show ?case by (simp only: blank_control_Cons has_control_Cons simp_thms)
next
  case (wide c d s)
  then show ?case by (simp only: blank_control_Cons has_control_Cons simp_thms)
next
  case (last c)
  then show ?case by (simp add: blank_control_Cons)
qed simp

lemma has_control_append_left: "has_control s \<Longrightarrow> has_control (s @ t)"
proof (induction s)
  case (Cons c s)
  then show ?case by (cases s) auto
qed simp

lemma has_control_append_right: "has_control t \<Longrightarrow> has_control (s @ t)"
  by (induction s) auto

lemma has_control_append_ascii:
  "ascii_start t \<Longrightarrow> has_control (s @ t) \<longleftrightarrow> has_control s \<or> has_control t"
proof (induction s)
  case (Cons c s)
  then show ?case by (cases s; cases t) (auto simp: ascii_start_def)
qed simp

lemma clean_mark: "\<not> has_control redacted_mark" "ascii_start (redacted_mark @ t)"
  "has_control (redacted_mark @ t) = has_control t"
  by (simp_all add: redacted_mark_def byte_of_def ascii_start_def)

lemma clean_parts: "\<not> has_control (s @ t) \<Longrightarrow> \<not> has_control s \<and> \<not> has_control t"
  using has_control_append_left has_control_append_right by blast


text \<open>Scrubbing keeps the text free of control characters: every cut is at an ASCII byte.\<close>

lemma delimiter_printable: "value_delimiter c \<Longrightarrow> 32 \<le> byte_of c \<and> byte_of c < 127"
  by (auto simp: value_delimiter_def byte_of_def)

lemma delimiter_ascii: "value_delimiter c \<Longrightarrow> byte_of c < 128"
  using delimiter_printable by fastforce

lemma value_split:
  "\<exists>shown v. r = shown @ v @ value_rest r \<and> ascii_start (value_rest r)
     \<and> value_shown r = shown @ (if v = [] then [] else redacted_mark)"
proof -
  let ?r = "dropWhile gap_byte r"
  let ?n = "scheme_length (to_ascii_lowercase ?r)"
  let ?d = "\<lambda>c. \<not> value_delimiter c"
  have "r = (takeWhile gap_byte r @ take ?n ?r) @ takeWhile ?d (drop ?n ?r) @ value_rest r"
    by (simp add: value_rest_def Let_def)
  moreover have "value_rest r = dropWhile ?d (drop ?n ?r)" by (simp add: value_rest_def Let_def)
  then have "ascii_start (value_rest r)"
    using hd_dropWhile [of ?d "drop ?n ?r"] delimiter_ascii by (auto simp: ascii_start_def)
  moreover have "value_shown r = (takeWhile gap_byte r @ take ?n ?r)
      @ (if takeWhile ?d (drop ?n ?r) = [] then [] else redacted_mark)"
    by (simp add: value_shown_def Let_def)
  ultimately show ?thesis by blast
qed

lemma key_value_split:
  assumes "key_value f r = Some (shown, rest)"
  shows "r = shown @ rest"
proof -
  obtain g r1 where g: "takeWhile gap_byte r = g" "dropWhile gap_byte r = r1" by simp
  then have "r = g @ r1" by (metis takeWhile_dropWhile_id)
  moreover have "(if r1 \<noteq> [] \<and> separator_byte (hd r1) then Some (g @ [hd r1], tl r1)
     else if f = ''bearer'' \<and> g \<noteq> [] then Some (g, r1) else None) = Some (shown, rest)"
    using assms by (simp add: key_value_def Let_def g)
  ultimately show ?thesis by (cases r1) (auto split: if_splits)
qed

lemma has_control_Cons_iff:
  "has_control (c # s) \<longleftrightarrow> byte_of c < 32 \<or> byte_of c = 127
     \<or> (byte_of c = 194 \<and> s \<noteq> [] \<and> 128 \<le> byte_of (hd s) \<and> byte_of (hd s) \<le> 159) \<or> has_control s"
  by (cases s) simp_all

lemma clean_swap:
  assumes "\<not> has_control (s @ t)" "\<not> has_control t'" "ascii_start t' \<or> t \<noteq> [] \<and> hd t' = hd t"
  shows "\<not> has_control (s @ t')"
  using assms(1)
proof (induction s)
  case Nil
  show ?case using assms(2) by simp
next
  case (Cons c s)
  have "\<not> has_control (s @ t)" using Cons.prems by simp
  note tail = Cons.IH [OF this]
  have start: "hd (s @ t') = hd (s @ t) \<and> s @ t \<noteq> [] \<or> ascii_start (s @ t')"
    using assms(3) by (cases s) auto
  have step: "\<not> has_control (c # u)"
    if "hd u = hd w \<and> w \<noteq> [] \<or> ascii_start u" "\<not> has_control (c # w)" "\<not> has_control u" for u w
    using that by (auto simp: has_control_Cons_iff ascii_start_def simp del: has_control.simps(2))
  show ?case unfolding append_Cons
    by (rule step [OF start _ tail]) (use Cons.prems in \<open>simp only: append_Cons not_False_eq_True\<close>)
qed

lemma scrub_hd: "s \<noteq> [] \<Longrightarrow> scrub s \<noteq> [] \<and> hd (scrub s) = hd s"
proof (cases "find_fragment (to_ascii_lowercase s)")
  case None
  moreover assume "s \<noteq> []"
  ultimately show ?thesis by (simp add: scrub_plain)
next
  case (Some f)
  note shorter = word_fragment_shorter [OF Some]
  then obtain c t where s: "s = c # t" by (cases s) auto
  have "word_byte c" using shorter unfolding s by (rule contrapos_pp) simp
  then show ?thesis unfolding scrub_key [OF Some] by (simp add: s split: option.split)
qed

lemma scrub_swap:
  assumes "\<not> has_control (s @ t)" "\<not> has_control (scrub t)"
  shows "\<not> has_control (s @ scrub t)"
proof (cases "t = []")
  case True
  then show ?thesis using assms by simp
next
  case False
  then show ?thesis using clean_swap [OF assms] scrub_hd by blast
qed

lemma scrub_clean: "\<not> has_control s \<Longrightarrow> \<not> has_control (scrub s)"
proof (induction "length s" arbitrary: s rule: less_induct)
  case less
  show ?case
  proof (cases "s = [] \<or> find_fragment (to_ascii_lowercase s) = None")
    case True
    show ?thesis
    proof (cases s)
      case (Cons c t)
      moreover have "\<not> has_control (scrub t)"
        using less.hyps [of t] less.prems Cons clean_parts [of "[c]" t] by simp
      ultimately show ?thesis
        using scrub_swap [of "[c]" t] less.prems True scrub_plain [of s] by simp
    qed simp
  next
    case False
    then obtain f where f: "find_fragment (to_ascii_lowercase s) = Some f" by auto
    let ?k = "takeWhile word_byte s" and ?r = "dropWhile word_byte s"
    have s: "\<not> has_control (?k @ ?r)" using less.prems by simp
    note len = word_fragment_shorter [OF f]
    show ?thesis
    proof (cases "key_value f ?r")
      case None
      have "\<not> has_control (scrub ?r)" using less.hyps [OF len] clean_parts [OF s] by blast
      then show ?thesis using scrub_swap [OF s] None by (simp add: scrub_key [OF f])
    next
      case (Some kv)
      obtain shown rest where kv: "key_value f ?r = Some (shown, rest)" using Some by (cases kv) auto
      obtain sh v where v: "rest = sh @ v @ value_rest rest" "ascii_start (value_rest rest)"
        "value_shown rest = sh @ (if v = [] then [] else redacted_mark)"
        using value_split by blast
      have s': "\<not> has_control ((?k @ shown @ sh) @ v @ value_rest rest)"
        using s key_value_split [OF kv] v(1) by (metis append.assoc)
      have clean: "\<not> has_control (scrub (value_rest rest))"
        using less.hyps [of "value_rest rest"] len length_key_value [OF kv] length_value_rest [of rest]
          clean_parts [OF clean_parts [OF s', THEN conjunct2]] by simp
      have "scrub s = (?k @ shown @ sh) @ (if v = [] then [] else redacted_mark) @ scrub (value_rest rest)"
        by (simp add: scrub_key [OF f] kv v(3))
      moreover have "\<not> has_control ((?k @ shown @ sh) @ (if v = [] then [] else redacted_mark) @ scrub (value_rest rest))"
      proof (cases "v = []")
        case True
        then show ?thesis using scrub_swap [of "?k @ shown @ sh" "value_rest rest"] s' clean by simp
      next
        case False
        then show ?thesis
          using clean_swap [OF s', of "redacted_mark @ scrub (value_rest rest)"] clean by (simp add: clean_mark)
      qed
      ultimately show ?thesis by simp
    qed
  qed
qed

subsection \<open>Bounded text\<close>

text \<open>\<open>chars().take(n)\<close> on UTF-8 bytes: a continuation byte belongs to the scalar before it.\<close>

definition continuation_byte :: "char \<Rightarrow> bool" where
  "continuation_byte c \<longleftrightarrow> 128 \<le> byte_of c \<and> byte_of c < 192"

fun take_chars :: "nat \<Rightarrow> string \<Rightarrow> string" where
  "take_chars n [] = []"
| "take_chars n (c # cs) =
     (if continuation_byte c then c # take_chars n cs
      else case n of 0 \<Rightarrow> [] | Suc m \<Rightarrow> c # take_chars m cs)"

definition char_count :: "string \<Rightarrow> nat" where
  "char_count s = length (filter (\<lambda>c. \<not> continuation_byte c) s)"

definition truncated_mark :: string where
  "truncated_mark = ''... <truncated>''"

definition bound_chars :: "string \<Rightarrow> nat \<Rightarrow> string" where
  "bound_chars t max_chars = (let bounded = take_chars max_chars t in
     if length bounded < length t then bounded @ truncated_mark else bounded)"

lemma char_count_simps [simp]: "char_count [] = 0" "char_count (s @ t) = char_count s + char_count t"
  "char_count (c # s) = (if continuation_byte c then char_count s else Suc (char_count s))"
  by (simp_all add: char_count_def)

lemma take_chars_prefix: "prefix (take_chars n s) s"
  by (induction n s rule: take_chars.induct) (auto split: nat.split)

lemma take_chars_count: "char_count (take_chars n s) = min n (char_count s)"
  by (induction n s rule: take_chars.induct) (auto split: nat.split)

lemma take_chars_all: "char_count s \<le> n \<Longrightarrow> take_chars n s = s"
  by (induction n s rule: take_chars.induct) (auto split: nat.splits if_splits)

lemma bound_chars_short: "char_count s \<le> n \<Longrightarrow> bound_chars s n = s"
  by (simp add: bound_chars_def take_chars_all)

lemma truncated_mark_count: "char_count truncated_mark = 15" "\<not> has_control truncated_mark" "ascii_start truncated_mark"
  by code_simp+

lemma bound_chars_count: "char_count (bound_chars s n) \<le> n + 15"
  using take_chars_count [of n s] by (simp add: bound_chars_def Let_def truncated_mark_count min_def)

lemma bound_chars_clean:
  assumes "\<not> has_control s"
  shows "\<not> has_control (bound_chars s n)"
proof -
  obtain z where "s = take_chars n s @ z" using take_chars_prefix [of n s] by (auto simp: prefix_def)
  with assms clean_parts have "\<not> has_control (take_chars n s)" by metis
  then show ?thesis
    by (simp add: bound_chars_def Let_def has_control_append_ascii truncated_mark_count)
qed

subsection \<open>Error envelopes\<close>

record api_error =
  ae_code :: string
  ae_message :: string
  ae_status :: nat
  ae_detail :: "string option"
  ae_instance :: string

text \<open>\<open>serde_json::from_str\<close> on the body, \<open>None\<close> for an error.\<close>

type_synonym json_parser = "string \<Rightarrow> json option"

definition oauth_error_names :: "string list" where
  "oauth_error_names = [''invalid_request'', ''invalid_client'', ''invalid_grant'', ''unauthorized_client'',
     ''unsupported_grant_type'', ''invalid_scope'', ''access_denied'', ''unsupported_response_type'',
     ''server_error'', ''temporarily_unavailable'']"

definition oauth_error_name :: "json_parser \<Rightarrow> string \<Rightarrow> string option" where
  "oauth_error_name parse_json body =
     Option.bind (parse_json body) (\<lambda>v. Option.bind (json_get ''error'' v) (\<lambda>e.
       Option.bind (json_as_str e) (\<lambda>name. if name \<in> set oauth_error_names then Some name else None)))"

record error_envelope =
  env_message :: string
  env_detail :: "string option"

definition envelope_detail :: "json \<Rightarrow> string \<Rightarrow> string option" where
  "envelope_detail error message =
     Option.bind (Option.bind (json_get ''detail'' error) json_as_str) (\<lambda>d.
       if trim d \<noteq> [] \<and> trim d \<noteq> message then Some (trim d) else None)"

definition parse_envelope :: "json_parser \<Rightarrow> string \<Rightarrow> error_envelope option" where
  "parse_envelope parse_json body =
     Option.bind (parse_json body) (\<lambda>v. Option.bind (json_get ''error'' v) (\<lambda>error.
       Option.bind (json_get ''message'' error) (\<lambda>m. Option.bind (json_as_str m) (\<lambda>t.
         let message = trim t in
         if message = [] then None
         else Some \<lparr>env_message = message, env_detail = envelope_detail error message\<rparr>))))"

definition refine_code :: "nat \<Rightarrow> string \<Rightarrow> string option \<Rightarrow> string option" where
  "refine_code status message detail =
     (let lower = to_ascii_lowercase message;
          detail_lower = to_ascii_lowercase (case detail of Some d \<Rightarrow> d | None \<Rightarrow> [])
      in if starts_with lower ''invalid table'' then Some ''INVALID_TABLE''
         else if status = 404 \<and> str_contains lower ''no record found'' then Some ''RECORD_NOT_FOUND''
         else if status = 403 \<and> (str_contains lower ''acl'' \<or> str_contains detail_lower ''acl'')
         then Some ''ACL_DENIED''
         else None)"

definition status_text :: "nat \<Rightarrow> string \<times> string" where
  "status_text status =
     (if status = 400 then (''BAD_REQUEST'', ''Invalid request parameters'')
      else if status = 401 then (''UNAUTHORIZED'', ''Authentication failed'')
      else if status = 403 then (''FORBIDDEN'', ''Insufficient permissions'')
      else if status = 404 then (''NOT_FOUND'', ''Resource not found'')
      else if status = 429 then (''RATE_LIMITED'', ''Too many requests'')
      else if 500 \<le> status then (''SERVER_ERROR'', ''ServiceNow internal error'')
      else (''UNKNOWN_ERROR'', ''Unexpected error''))"

definition safe_error_detail :: "string \<Rightarrow> string" where
  "safe_error_detail body =
     (if trim body = [] then [] else ''<response body redacted, '' @ show_nat (length body) @ '' bytes>'')"

definition max_envelope_chars :: nat where
  "max_envelope_chars = 500"

definition from_status :: "json_parser \<Rightarrow> nat \<Rightarrow> string \<Rightarrow> string option \<Rightarrow> api_error" where
  "from_status parse_json status inst body =
     (case status_text status of (code, message) \<Rightarrow>
      (case Option.bind body (oauth_error_name parse_json) of
        Some oauth_error \<Rightarrow>
          \<lparr>ae_code = code, ae_message = ''OAuth2 token request failed: '' @ oauth_error,
           ae_status = status, ae_detail = None, ae_instance = inst\<rparr>
      | None \<Rightarrow>
        (case Option.bind body (parse_envelope parse_json) of
          Some envelope \<Rightarrow>
            (let message' = bound_chars (scrub_secrets (env_message envelope)) max_envelope_chars;
                 detail = map_option (\<lambda>d. bound_chars (scrub_secrets d) max_envelope_chars) (env_detail envelope)
             in \<lparr>ae_code = (case refine_code status message' detail of Some c \<Rightarrow> c | None \<Rightarrow> code),
                 ae_message = message', ae_status = status, ae_detail = detail, ae_instance = inst\<rparr>)
        | None \<Rightarrow>
            \<lparr>ae_code = code, ae_message = message, ae_status = status,
             ae_detail = map_option safe_error_detail body, ae_instance = inst\<rparr>)))"

text \<open>\<open>Display\<close> of \<open>ApiError\<close>.\<close>

definition show_api_error :: "api_error \<Rightarrow> string" where
  "show_api_error e = ''['' @ ae_code e @ ''] '' @ ae_message e @ '' (HTTP '' @ show_nat (ae_status e) @ '')''"

subsection \<open>GraphQL errors\<close>

definition max_graphql_messages :: nat where
  "max_graphql_messages = 8"

definition max_graphql_message_chars :: nat where
  "max_graphql_message_chars = 256"

definition truncate_graphql_message :: "string \<Rightarrow> string" where
  "truncate_graphql_message message = (let truncated = take_chars max_graphql_message_chars message in
     if length truncated < length message then truncated @ truncated_mark else truncated)"

definition graphql_message :: "json \<Rightarrow> string option" where
  "graphql_message error =
     Option.bind (Option.bind (json_get ''message'' error) json_as_str) (\<lambda>m.
       if trim m = [] then None else Some (truncate_graphql_message (trim m)))"

definition graphql_error_detail :: "json list \<Rightarrow> string option" where
  "graphql_error_detail errors =
     (let messages = take max_graphql_messages (List.map_filter graphql_message errors)
            @ (if max_graphql_messages < length errors
               then [''<'' @ show_nat (length errors - max_graphql_messages) @ '' additional GraphQL errors omitted>'']
               else [])
      in if messages = [] then None else Some (join ''; '' messages))"

subsection \<open>Properties\<close>

lemma word_byte_printable: "word_byte c \<Longrightarrow> 32 \<le> byte_of c \<and> byte_of c < 127"
  by (auto simp: byte_simps byte_of_def)

lemma ascii_no_control:
  "list_all (\<lambda>c. 32 \<le> byte_of c \<and> byte_of c < 127) s \<Longrightarrow> \<not> has_control s"
  by (rule has_control_printable) (auto simp: list_all_iff)

lemma show_nat_no_control: "\<not> has_control (show_nat n)"
  using show_nat_digits [of n] by (intro has_control_printable) (auto simp: list_all_iff is_ascii_digit_def)

lemma show_nat_ascii_start: "ascii_start (show_nat n @ t)"
  using show_nat_digits [of n] show_nat_neq_Nil [of n]
  by (cases "show_nat n") (auto simp: ascii_start_def is_ascii_digit_def)



text \<open>
  The first sensitive key of a text is redacted in every form the server may write it: with
  quotes or spaces around the separator, and behind a \<open>Bearer\<close> or \<open>Basic\<close> scheme word. What is
  in front of it is kept, the value becomes the mark, and the scan goes on behind the value.
\<close>

theorem first_key_is_redacted:
  assumes "sensitive_word key" "list_all gap_byte g" "separator_byte c" "list_all gap_byte g'"
    "scheme = [] \<and> \<not> scheme_word v \<or> (\<exists>w. scheme_word w \<and> scheme = w @ '' '')"
    "value_text v" "ends_value rest"
    "\<forall>f \<in> set sensitive_key_fragments. \<not> str_contains (to_ascii_lowercase pre) f"
    "\<not> has_control (pre @ key @ g @ c # g' @ scheme @ v @ rest)"
  shows "scrub_secrets (pre @ key @ g @ c # g' @ scheme @ v @ rest)
    = pre @ key @ g @ c # g' @ scheme @ redacted_mark @ scrub_secrets rest"
proof -
  have "\<not> has_control rest" using assms(9) clean_parts by (metis append_Cons)
  note blank = blank_control_id [OF this] blank_control_id [OF assms(9)]
  show ?thesis unfolding scrub_secrets_scrub blank by (rule scrub_first_key [OF assms(1-8)])
qed

theorem first_key_is_redacted_witness:
  "scrub_secrets ''x Token : Bearer abc, z'' = ''x Token : Bearer <redacted>, z''"
proof -
  have "sensitive_word ''Token''" "list_all gap_byte '' ''" "separator_byte (CHR '':'')" "list_all gap_byte '' ''"
    by code_simp+
  moreover have "scheme_word ''Bearer''" by code_simp
  then have "''Bearer '' = [] \<and> \<not> scheme_word ''abc'' \<or> (\<exists>w. scheme_word w \<and> ''Bearer '' = w @ '' '')"
    by (intro disjI2 exI [of _ "''Bearer''"]) simp
  moreover have "value_text ''abc''" "ends_value '', z''" by code_simp+
  moreover have "\<forall>f \<in> set sensitive_key_fragments. \<not> str_contains (to_ascii_lowercase ''x '') f"
    by (simp add: sensitive_key_fragments_def to_ascii_lowercase_def sublist_Cons_right)
  moreover have "\<not> has_control (''x '' @ ''Token'' @ '' '' @ CHR '':'' # '' '' @ ''Bearer '' @ ''abc'' @ '', z'')"
    by code_simp
  ultimately have "scrub_secrets (''x '' @ ''Token'' @ '' '' @ CHR '':'' # '' '' @ ''Bearer '' @ ''abc'' @ '', z'')
    = ''x '' @ ''Token'' @ '' '' @ CHR '':'' # '' '' @ ''Bearer '' @ redacted_mark @ scrub_secrets '', z''"
    by (rule first_key_is_redacted)
  moreover have "scrub_secrets '', z'' = '', z''" by code_simp
  ultimately show ?thesis by (simp add: redacted_mark_def)
qed

text \<open>
  The scanner looks for one space behind the scheme word: a second one ends the value before it
  begins, and the credential stays. A key that was consumed as the value of another one
  does not protect its own value behind a space either.
\<close>

lemma double_space_leaks: "scrub_secrets ''Token: Bearer  abc'' = ''Token: Bearer  abc''"
  by code_simp

lemma nested_key_leaks: "scrub_secrets ''token=password= abc'' = ''token=<redacted> abc''"
  by code_simp

text \<open>
  Of a GraphQL response only the messages are kept, but they are not scrubbed.
\<close>

lemma graphql_messages_are_not_scrubbed:
  "graphql_error_detail [JObject [(''message'', JString ''token=abc'')]] = Some ''token=abc''"
  by code_simp

lemma scrub_secrets_clean: "\<not> has_control (scrub_secrets t)"
  by (simp add: scrub_secrets_scrub scrub_clean blank_control_clean)

lemma bound_scrub:
  "\<not> has_control (bound_chars (scrub_secrets t) n) \<and> char_count (bound_chars (scrub_secrets t) n) \<le> n + 15"
  by (simp add: bound_chars_clean bound_chars_count scrub_secrets_clean)

definition plain_text :: "nat \<Rightarrow> string \<Rightarrow> bool" where
  "plain_text n t \<longleftrightarrow> \<not> has_control t \<and> char_count t \<le> n"

lemma status_text_plain: "plain_text 515 (snd (status_text status))"
proof -
  have "\<forall>t \<in> {''Invalid request parameters'', ''Authentication failed'', ''Insufficient permissions'',
      ''Resource not found'', ''Too many requests'', ''ServiceNow internal error'', ''Unexpected error''}.
    plain_text 515 t" by code_simp
  then show ?thesis by (simp add: status_text_def)
qed

lemma oauth_message_plain:
  "name \<in> set oauth_error_names \<Longrightarrow> plain_text 515 (''OAuth2 token request failed: '' @ name)"
proof -
  have "list_all (\<lambda>name. plain_text 515 (''OAuth2 token request failed: '' @ name)) oauth_error_names"
    by code_simp
  then show "name \<in> set oauth_error_names \<Longrightarrow> ?thesis" by (simp add: list_all_iff)
qed

lemma oauth_error_name_Some: "oauth_error_name parse_json body = Some name \<Longrightarrow> name \<in> set oauth_error_names"
  by (auto simp: oauth_error_name_def bind_eq_Some_conv split: if_splits)

lemma safe_error_detail_clean: "\<not> has_control (safe_error_detail body)"
proof -
  have parts: "\<not> has_control ''<response body redacted, ''" "\<not> has_control '' bytes>''" "ascii_start '' bytes>''"
    by code_simp+
  then show ?thesis
    using show_nat_no_control [of "length body"] show_nat_ascii_start [of "length body" "'' bytes>''"]
    by (simp add: safe_error_detail_def has_control_append_ascii del: append_Cons)
qed

text \<open>
  What an API error shows is clean and bounded, whatever the server answered: the message is
  free of control characters, so of terminal escapes, and at most 515 characters long; the
  detail is free of them too and bounded alike, or it only tells the length of the body.
\<close>

theorem api_error_text_is_clean:
  "plain_text 515 (ae_message (from_status parse_json status inst body))
   \<and> (case ae_detail (from_status parse_json status inst body) of
        None \<Rightarrow> True
      | Some d \<Rightarrow> plain_text 515 d
          \<or> (\<exists>b. body = Some b \<and> d = safe_error_detail b \<and> \<not> has_control d))"
proof -
  obtain code message where st: "status_text status = (code, message)" by fastforce
  have msg: "plain_text 515 message" using status_text_plain [of status] st by simp
  consider (oauth) name where "Option.bind body (oauth_error_name parse_json) = Some name"
    | (envelope) e where "Option.bind body (oauth_error_name parse_json) = None"
        "Option.bind body (parse_envelope parse_json) = Some e"
    | (other) "Option.bind body (oauth_error_name parse_json) = None"
        "Option.bind body (parse_envelope parse_json) = None"
    by fastforce
  then show ?thesis
  proof cases
    case oauth
    then obtain b where "oauth_error_name parse_json b = Some name" by (auto simp: bind_eq_Some_conv)
    from oauth_message_plain [OF oauth_error_name_Some [OF this]]
    show ?thesis using oauth by (simp add: from_status_def st)
  next
    case envelope
    then show ?thesis using bound_scrub [of _ max_envelope_chars]
      by (auto simp: from_status_def st Let_def plain_text_def max_envelope_chars_def split: option.split)
  next
    case other
    then show ?thesis using msg safe_error_detail_clean
      by (cases body) (simp_all add: from_status_def st)
  qed
qed

text \<open>
  C29. A body that is not a recognised envelope is withheld: two such bodies of the same length,
  blank or not alike, give the same error, and an OAuth error tells its listed name and
  nothing else of the body, no description and no extra field.
\<close>

theorem unrecognised_bodies_are_withheld:
  assumes "oauth_error_name parse_json b = oauth_error_name parse_json b'"
    "oauth_error_name parse_json b = None \<Longrightarrow>
       parse_envelope parse_json b = None \<and> parse_envelope parse_json b' = None
       \<and> length b = length b' \<and> (trim b = [] \<longleftrightarrow> trim b' = [])"
  shows "from_status parse_json status inst (Some b) = from_status parse_json status inst (Some b')"
  using assms by (cases "oauth_error_name parse_json b'") (simp_all add: from_status_def safe_error_detail_def)

theorem unrecognised_bodies_are_withheld_witness:
  "from_status (\<lambda>b. None) 500 ''https://x'' (Some ''token=abc'')
     = from_status (\<lambda>b. None) 500 ''https://x'' (Some ''token=xyz'')"
  by (rule unrecognised_bodies_are_withheld)
    (simp_all add: oauth_error_name_def parse_envelope_def, code_simp)

end
