(* ===== verification/Cookies.thy ===== *)
theory Cookies
  imports Json_Value
begin

text \<open>
  HTTP headers and cookies as the client reads them: the parsing functions of
  \<open>src/src/client/session.rs\<close> and the cookie jar of \<open>src/src/config/native_session.rs\<close>. A header
  list keeps names in lower case, as the \<open>http\<close> crate stores them, and values as bytes. The
  date parser of the \<open>httpdate\<close> crate, compared with the current time, is the argument
  \<open>expired\<close>; \<open>base64\<close> decoding is the argument \<open>b64\<close>.
\<close>

type_synonym headers = "(string \<times> string) list"

subsection \<open>Strings\<close>

definition split_once :: "char \<Rightarrow> string \<Rightarrow> (string \<times> string) option" where
  "split_once c s = (let a = takeWhile (\<lambda>x. x \<noteq> c) s in
     if length a < length s then Some (a, drop (Suc (length a)) s) else None)"

definition eq_ignore_ascii_case :: "string \<Rightarrow> string \<Rightarrow> bool" where
  "eq_ignore_ascii_case a b \<longleftrightarrow> to_ascii_lowercase a = to_ascii_lowercase b"

text \<open>\<open>HeaderValue::to_str\<close>: visible ASCII and tabs only.\<close>

definition header_text :: "string \<Rightarrow> string option" where
  "header_text v = (if list_all (\<lambda>c. 32 \<le> byte_of c \<and> byte_of c < 127 \<or> byte_of c = 9) v then Some v else None)"

definition header_values :: "string \<Rightarrow> headers \<Rightarrow> string list" where
  "header_values name hs = map snd (filter (\<lambda>h. fst h = name) hs)"

definition header_value :: "string \<Rightarrow> headers \<Rightarrow> string option" where
  "header_value name hs = map_of hs name"

fun find_map :: "('a \<Rightarrow> 'b option) \<Rightarrow> 'a list \<Rightarrow> 'b option" where
  "find_map f [] = None"
| "find_map f (x # xs) = (case f x of Some y \<Rightarrow> Some y | None \<Rightarrow> find_map f xs)"

text \<open>\<open>String::from_utf8\<close> accepts well-formed UTF-8: no overlong form, no surrogate.\<close>

fun valid_utf8 :: "string \<Rightarrow> bool" where
  "valid_utf8 [] \<longleftrightarrow> True"
| "valid_utf8 (a # s) \<longleftrightarrow>
     (let x = byte_of a; tail = (\<lambda>c. 128 \<le> byte_of c \<and> byte_of c < 192) in
      if x < 128 then valid_utf8 s
      else (case s of [] \<Rightarrow> False | b # s2 \<Rightarrow>
        (let y = byte_of b in
         if 194 \<le> x \<and> x \<le> 223 then tail b \<and> valid_utf8 s2
         else (case s2 of [] \<Rightarrow> False | c # s3 \<Rightarrow>
           (if 224 \<le> x \<and> x \<le> 239
            then tail b \<and> tail c \<and> (x = 224 \<longrightarrow> 160 \<le> y) \<and> (x = 237 \<longrightarrow> y < 160) \<and> valid_utf8 s3
            else (case s3 of [] \<Rightarrow> False | d # s4 \<Rightarrow>
              240 \<le> x \<and> x \<le> 244 \<and> tail b \<and> tail c \<and> tail d
                \<and> (x = 240 \<longrightarrow> 144 \<le> y) \<and> (x = 244 \<longrightarrow> y < 144) \<and> valid_utf8 s4))))))"

subsection \<open>Reading response headers\<close>

definition jsessionid_of :: "string \<Rightarrow> string option" where
  "jsessionid_of header = (case header_text header of None \<Rightarrow> None | Some set_cookie \<Rightarrow>
     (case split_once (CHR ''='') (hd (split_on (CHR '';'') set_cookie)) of None \<Rightarrow> None
      | Some (name, value) \<Rightarrow>
          if eq_ignore_ascii_case (trim name) ''JSESSIONID'' \<and> trim value \<noteq> []
          then Some (trim value) else None))"

definition extract_jsessionid_from_headers :: "headers \<Rightarrow> string option" where
  "extract_jsessionid_from_headers hs = find_map jsessionid_of (header_values ''set-cookie'' hs)"

definition read_cookie_value :: "string \<Rightarrow> string \<Rightarrow> string option" where
  "read_cookie_value cookie_header cookie_name = find_map (\<lambda>cookie.
     case split_once (CHR ''='') (trim cookie) of
       Some (name, value) \<Rightarrow> if eq_ignore_ascii_case (trim name) cookie_name then Some (trim value) else None
     | None \<Rightarrow> None) (split_on (CHR '';'') cookie_header)"

definition parse_basic_credentials :: "(string \<Rightarrow> string option) \<Rightarrow> headers \<Rightarrow> (string \<times> string) option" where
  "parse_basic_credentials b64 auth_headers =
     Option.bind (Option.bind (header_value ''authorization'' auth_headers) header_text) (\<lambda>auth_value.
     Option.bind (strip_prefix ''Basic '' auth_value) (\<lambda>encoded.
     Option.bind (b64 encoded) (\<lambda>decoded.
       if valid_utf8 decoded then split_once (CHR '':'') decoded else None)))"

definition logged_in_header_value :: "headers \<Rightarrow> bool option" where
  "logged_in_header_value hs =
     map_option (\<lambda>v. eq_ignore_ascii_case v ''true'') (Option.bind (header_value ''x-is-logged-in'' hs) header_text)"

subsection \<open>The cookie jar\<close>

type_synonym jar = "(string \<times> string) list"

text \<open>A parsed \<open>Set-Cookie\<close> line: the name, the value and whether it deletes the cookie.\<close>

definition max_age_of :: "string \<Rightarrow> bool option" where
  "max_age_of value = (let v = trim value;
       digits = (case strip_prefix ''-'' v of Some d \<Rightarrow> d | None \<Rightarrow> v)
     in if digits \<noteq> [] \<and> list_all is_ascii_digit digits
        then Some (starts_with v ''-'' \<or> list_all (\<lambda>c. c = CHR ''0'') digits) else None)"

fun read_attribute ::
  "(string \<Rightarrow> bool option) \<Rightarrow> string \<Rightarrow> bool option \<times> bool option \<Rightarrow> bool option \<times> bool option" where
  "read_attribute expired attribute (max_age, expires) =
     (case split_once (CHR ''='') (trim attribute) of
        None \<Rightarrow> (max_age, expires)
      | Some (key, value) \<Rightarrow>
          if eq_ignore_ascii_case key ''max-age''
          then (case max_age_of value of Some d \<Rightarrow> (Some d, expires) | None \<Rightarrow> (max_age, expires))
          else if eq_ignore_ascii_case key ''expires''
          then (case expired (trim value) of Some d \<Rightarrow> (max_age, Some d) | None \<Rightarrow> (max_age, expires))
          else (max_age, expires))"

definition parse_set_cookie :: "(string \<Rightarrow> bool option) \<Rightarrow> string \<Rightarrow> (string \<times> string \<times> bool) option" where
  "parse_set_cookie expired header = (case header_text header of None \<Rightarrow> None | Some line \<Rightarrow>
     (case split_on (CHR '';'') line of [] \<Rightarrow> None | part # parts \<Rightarrow>
       (case split_once (CHR ''='') (trim part) of None \<Rightarrow> None
        | Some (name, value) \<Rightarrow>
            (case fold (read_attribute expired) parts (None, None) of (max_age, expires) \<Rightarrow>
               Some (name, value,
                 value = [] \<or> (case max_age of Some d \<Rightarrow> d | None \<Rightarrow> expires = Some True))))))"

definition parse_cookies :: "string \<Rightarrow> jar" where
  "parse_cookies cookie_header =
     List.map_filter (\<lambda>cookie. split_once (CHR ''='') (trim cookie)) (split_on (CHR '';'') cookie_header)"

definition render_cookies :: "jar \<Rightarrow> string" where
  "render_cookies cookies = join ''; '' (map (\<lambda>(name, value). name @ ''='' @ value) cookies)"

definition apply_set_cookie :: "(string \<Rightarrow> bool option) \<Rightarrow> string \<Rightarrow> jar \<Rightarrow> jar" where
  "apply_set_cookie expired header cookies = (case parse_set_cookie expired header of
      None \<Rightarrow> cookies
    | Some (name, value, delete) \<Rightarrow>
        filter (\<lambda>c. \<not> eq_ignore_ascii_case (fst c) name) cookies @ (if delete then [] else [(name, value)]))"

definition merge_cookie_header :: "(string \<Rightarrow> bool option) \<Rightarrow> string \<Rightarrow> headers \<Rightarrow> string" where
  "merge_cookie_header expired cookie_header hs =
     render_cookies (fold (apply_set_cookie expired) (header_values ''set-cookie'' hs) (parse_cookies cookie_header))"

subsection \<open>The CSRF token in a page\<close>

fun after_match :: "string \<Rightarrow> string \<Rightarrow> string option" where
  "after_match pat s = (if starts_with s pat then Some (drop (length pat) s)
     else case s of [] \<Rightarrow> None | _ # t \<Rightarrow> after_match pat t)"

declare after_match.simps [simp del]

lemma after_match_simps [simp]:
  "after_match pat [] = (if pat = [] then Some [] else None)"
  "after_match pat (c # s) =
     (if starts_with (c # s) pat then Some (drop (length pat) (c # s)) else after_match pat s)"
  by (subst after_match.simps, simp)+

lemma after_match_length: "after_match pat s = Some r \<Longrightarrow> pat \<noteq> [] \<Longrightarrow> length r < length s"
  by (induction s) (auto split: if_splits)

definition quote_char :: "char \<Rightarrow> bool" where
  "quote_char c \<longleftrightarrow> c = CHR 0x22 \<or> c = CHR 0x27"

function skip_space_quotes :: "string \<Rightarrow> string" where
  "skip_space_quotes s =
     (if ws_len s \<noteq> 0 then skip_space_quotes (drop (ws_len s) s)
      else if s \<noteq> [] \<and> quote_char (hd s) then skip_space_quotes (tl s)
      else s)"
  by pat_completeness auto
termination
  by (relation "measure length") (auto simp: ws_len_def split: list.splits)

declare skip_space_quotes.simps [simp del]

text \<open>The length in bytes of the scalar a string starts with.\<close>

definition char_length :: "string \<Rightarrow> nat" where
  "char_length s = (let x = byte_of (hd s) in if x < 128 then 1 else if x < 224 then 2 else if x < 240 then 3 else 4)"

function find_operator :: "nat \<Rightarrow> string \<Rightarrow> string option" where
  "find_operator inspected s =
     (if s = [] then None
      else if hd s = CHR ''='' \<or> hd s = CHR '':'' then Some (tl s)
      else if hd s = CHR 0x0A \<or> hd s = CHR '';'' \<or> 20 < inspected then None
      else find_operator (inspected + 1) (drop (char_length s) s))"
  by pat_completeness auto
termination
  by (relation "measure (\<lambda>(_, s). length s)") (auto simp: char_length_def Let_def)

declare find_operator.simps [simp del]

fun unquoted_value :: "string \<Rightarrow> string" where
  "unquoted_value [] = []"
| "unquoted_value (c # s) =
     (if c = CHR '';'' \<or> c = CHR '','' \<or> c = CHR ''<'' \<or> ws_len (c # s) \<noteq> 0 then [] else c # unquoted_value s)"

definition trim_matches :: "(char \<Rightarrow> bool) \<Rightarrow> string \<Rightarrow> string" where
  "trim_matches p s = rev (dropWhile p (rev (dropWhile p s)))"

text \<open>What one occurrence of \<open>g_ck\<close> assigns, given the text behind it.\<close>

definition g_ck_value :: "string \<Rightarrow> string option" where
  "g_ck_value s = (case find_operator 0 (skip_space_quotes s) of
      None \<Rightarrow> None
    | Some r \<Rightarrow> (case trim_start r of
        [] \<Rightarrow> None
      | first # quoted \<Rightarrow>
          if quote_char first
          then (if first \<in> set quoted then Some (takeWhile (\<lambda>c. c \<noteq> first) quoted) else None)
          else Some (trim_matches (\<lambda>c. quote_char c \<or> c = CHR ''}'') (unquoted_value (first # quoted)))))"

function extract_g_ck_from_body :: "string \<Rightarrow> string option" where
  "extract_g_ck_from_body body = (case after_match ''g_ck'' body of
      None \<Rightarrow> None
    | Some rest \<Rightarrow> (case g_ck_value rest of
        Some v \<Rightarrow> if v \<noteq> [] then Some v else extract_g_ck_from_body rest
      | None \<Rightarrow> extract_g_ck_from_body rest))"
  by pat_completeness auto
termination
  by (relation "measure length") (auto dest: after_match_length)

declare extract_g_ck_from_body.simps [simp del]

subsection \<open>Properties\<close>

lemma after_match_first:
  "\<not> str_contains (pre @ butlast pat) pat \<Longrightarrow> pat \<noteq> [] \<Longrightarrow> after_match pat (pre @ pat @ s) = Some s"
proof (induction pre)
  case Nil
  then show ?case by (cases pat) auto
next
  case (Cons c pre)
  have "\<not> prefix pat (c # pre @ pat @ s)"
  proof
    assume p: "prefix pat (c # pre @ pat @ s)"
    have "prefix ((c # pre) @ butlast pat) (c # pre @ pat @ s)"
      using append_butlast_last_id [OF Cons.prems(2)] by (metis append.assoc append_Cons prefixI)
    with p have "prefix pat ((c # pre) @ butlast pat) \<or> prefix ((c # pre) @ butlast pat) pat"
      by (rule prefix_same_cases)
    moreover have "length pat \<le> length ((c # pre) @ butlast pat)" using Cons.prems(2) by simp
    ultimately have "prefix pat ((c # pre) @ butlast pat)"
      by (metis prefix_length_prefix prefix_order.order_refl p \<open>prefix ((c # pre) @ butlast pat) (c # pre @ pat @ s)\<close>)
    with Cons.prems(1) show False using prefix_imp_sublist by blast
  qed
  moreover have "\<not> str_contains (pre @ butlast pat) pat"
    using Cons.prems(1) by (auto simp: sublist_Cons_right)
  ultimately show ?case using Cons by simp
qed

lemma ws_len_ascii: "byte_of c < 128 \<Longrightarrow> ws_len (c # s) = (if 9 \<le> byte_of c \<and> byte_of c \<le> 13 \<or> byte_of c = 32 then 1 else 0)"
  by (auto simp: ws_len_def Let_def split: list.split)

lemma ws_len_space [simp]: "ws_len (CHR '' '' # s) = 1"
  by (subst ws_len_ascii) (simp_all add: byte_of_def)

lemma ws_len_quote: "quote_char c \<Longrightarrow> ws_len (c # s) = 0"
  by (subst ws_len_ascii) (auto simp: byte_of_def quote_char_def)

lemma ws_len_operator: "c = CHR ''='' \<or> c = CHR '':'' \<Longrightarrow> ws_len (c # s) = 0 \<and> \<not> quote_char c"
  by (subst ws_len_ascii) (auto simp: byte_of_def quote_char_def)

lemma skip_space_quotes_gap:
  assumes "\<forall>c \<in> set g. c = CHR '' '' \<or> quote_char c" "c = CHR ''='' \<or> c = CHR '':''"
  shows "skip_space_quotes (g @ c # s) = c # s"
  using assms(1)
proof (induction g)
  case Nil
  show ?case using ws_len_operator [OF assms(2), of s] by (subst skip_space_quotes.simps) simp
next
  case (Cons d g)
  then consider "d = CHR '' ''" | "quote_char d" by auto
  then show ?case
  proof cases
    case 1
    with Cons show ?thesis by (subst skip_space_quotes.simps) simp
  next
    case 2
    with Cons show ?thesis by (subst skip_space_quotes.simps) (simp add: ws_len_quote)
  qed
qed

lemma trim_start_spaces:
  assumes "\<forall>c \<in> set g. c = CHR '' ''" "quote_char q"
  shows "trim_start (g @ q # s) = q # s"
  using assms(1)
proof (induction g)
  case Nil
  show ?case using assms(2) by (subst trim_start.simps) (simp add: ws_len_quote)
next
  case (Cons d g)
  then show ?case by (subst trim_start.simps) simp
qed

lemma takeWhile_until: "q \<notin> set t \<Longrightarrow> takeWhile (\<lambda>c. c \<noteq> q) (t @ q # s) = t"
  by (induction t) auto

text \<open>
  C33. The CSRF token of a page is found: the first assignment of a quoted value to \<open>g_ck\<close>, written
  with \<open>=\<close> or \<open>:\<close>, with the name in quotes or not and with spaces around the operator, gives
  exactly the quoted token, whatever text follows.
\<close>

theorem page_token_is_extracted:
  assumes "\<not> str_contains (pre @ ''g_c'') ''g_ck''" "\<forall>c \<in> set g. c = CHR '' '' \<or> quote_char c"
    "operator = CHR ''='' \<or> operator = CHR '':''" "\<forall>c \<in> set sp. c = CHR '' ''"
    "quote_char q" "q \<notin> set token" "token \<noteq> []"
  shows "extract_g_ck_from_body (pre @ ''g_ck'' @ g @ operator # sp @ q # token @ q # rest) = Some token"
proof -
  have "after_match ''g_ck'' (pre @ ''g_ck'' @ g @ operator # sp @ q # token @ q # rest)
      = Some (g @ operator # sp @ q # token @ q # rest)"
    by (rule after_match_first) (use assms(1) in simp_all)
  moreover have "g_ck_value (g @ operator # sp @ q # token @ q # rest) = Some token"
  proof -
    have "find_operator 0 (operator # sp @ q # token @ q # rest) = Some (sp @ q # token @ q # rest)"
      using assms(3) by (subst find_operator.simps) auto
    then show ?thesis
      using skip_space_quotes_gap [OF assms(2,3), of "sp @ q # token @ q # rest"]
        trim_start_spaces [OF assms(4,5), of "token @ q # rest"] assms(5)
        takeWhile_until [OF assms(6), of rest]
      by (simp add: g_ck_value_def)
  qed
  ultimately show ?thesis using assms(7) by (subst extract_g_ck_from_body.simps) simp
qed

theorem page_token_is_extracted_witness:
  "extract_g_ck_from_body (''window.'' @ ''g_ck'' @ '' '' @ CHR ''='' # '' '' @ CHR 0x27 # ''abc123'' @ CHR 0x27 # '';'')
    = Some ''abc123''"
  by (rule page_token_is_extracted) (auto simp: quote_char_def sublist_Cons_right)

subsection \<open>The jar behind the header\<close>

definition cookie_name_byte :: "char \<Rightarrow> bool" where
  "cookie_name_byte c \<longleftrightarrow> 33 \<le> byte_of c \<and> byte_of c < 127 \<and> c \<noteq> CHR '';'' \<and> c \<noteq> CHR ''=''"

definition cookie_value_byte :: "char \<Rightarrow> bool" where
  "cookie_value_byte c \<longleftrightarrow> 33 \<le> byte_of c \<and> byte_of c < 127 \<and> c \<noteq> CHR '';''"

definition wf_cookie :: "string \<times> string \<Rightarrow> bool" where
  "wf_cookie c \<longleftrightarrow> list_all cookie_name_byte (fst c) \<and> list_all cookie_value_byte (snd c)"

text \<open>What the jar holds for a name: the abstract view of a cookie header.\<close>

definition jar_value :: "jar \<Rightarrow> string \<Rightarrow> string option" where
  "jar_value cookies name = find_map (\<lambda>c. if eq_ignore_ascii_case (fst c) name then Some (snd c) else None) cookies"

definition cookie_update ::
  "(string \<Rightarrow> bool option) \<Rightarrow> string \<Rightarrow> (string \<Rightarrow> string option) \<Rightarrow> string \<Rightarrow> string option" where
  "cookie_update expired header view name = (case parse_set_cookie expired header of
      None \<Rightarrow> view name
    | Some (m, value, delete) \<Rightarrow>
        if eq_ignore_ascii_case m name then (if delete then None else Some value) else view name)"

lemma split_once_first: "c \<notin> set a \<Longrightarrow> split_once c (a @ c # b) = Some (a, b)"
  by (simp add: split_once_def takeWhile_until)

lemma trim_printable_space:
  assumes "\<And>c. c \<in> set s \<Longrightarrow> 33 \<le> byte_of c \<and> byte_of c < 128"
  shows "trim (CHR '' '' # s) = s"
proof -
  have "trim_start (CHR '' '' # s) = trim_start s" by (subst trim_start.simps) simp
  then have "trim (CHR '' '' # s) = trim s" by (simp add: trim_def)
  then show ?thesis using trim_printable assms by metis
qed

lemma eq_ignore_ascii_case_sym: "eq_ignore_ascii_case a b = eq_ignore_ascii_case b a"
  by (auto simp: eq_ignore_ascii_case_def)

lemma eq_ignore_ascii_case_trans:
  "eq_ignore_ascii_case a b \<Longrightarrow> eq_ignore_ascii_case a c = eq_ignore_ascii_case b c"
  by (auto simp: eq_ignore_ascii_case_def)

lemma find_map_append: "find_map f (xs @ ys) = (case find_map f xs of Some y \<Rightarrow> Some y | None \<Rightarrow> find_map f ys)"
  by (induction xs) (auto split: option.split)

lemma jar_value_filter:
  "jar_value (filter (\<lambda>c. \<not> eq_ignore_ascii_case (fst c) m) cookies) name =
     (if eq_ignore_ascii_case m name then None else jar_value cookies name)"
  by (induction cookies)
    (auto simp: jar_value_def eq_ignore_ascii_case_sym dest: eq_ignore_ascii_case_trans)

text \<open>One \<open>Set-Cookie\<close> line updates the view at its name only.\<close>

lemma jar_value_apply:
  "jar_value (apply_set_cookie expired header cookies) = cookie_update expired header (jar_value cookies)"
proof
  fix name
  show "jar_value (apply_set_cookie expired header cookies) name = cookie_update expired header (jar_value cookies) name"
  proof (cases "parse_set_cookie expired header")
    case (Some p)
    obtain m v d where p: "p = (m, v, d)" by (cases p)
    have "jar_value (filter (\<lambda>c. \<not> eq_ignore_ascii_case (fst c) m) cookies @ rest) name =
      (if eq_ignore_ascii_case m name then jar_value rest name
       else case jar_value cookies name of Some y \<Rightarrow> Some y | None \<Rightarrow> jar_value rest name)" for rest
      using jar_value_filter [of m cookies name]
      by (auto simp: jar_value_def find_map_append split: option.split)
    then show ?thesis using Some p
      by (auto simp: apply_set_cookie_def cookie_update_def jar_value_def split: option.split)
  qed (simp add: apply_set_cookie_def cookie_update_def)
qed

lemma jar_value_fold:
  "jar_value (fold (apply_set_cookie expired) lines cookies) = fold (cookie_update expired) lines (jar_value cookies)"
  by (induction lines arbitrary: cookies) (simp_all add: jar_value_apply)


lemma wf_cookie_bytes:
  assumes "wf_cookie (n, v)" "c \<in> set (n @ CHR ''='' # v)"
  shows "33 \<le> byte_of c \<and> byte_of c < 128 \<and> c \<noteq> CHR '';''"
proof -
  consider "c \<in> set n" | "c = CHR ''=''" | "c \<in> set v" using assms(2) by auto
  then show ?thesis
  proof cases
    case 1
    then have "cookie_name_byte c" using assms(1) by (simp add: wf_cookie_def list_all_iff)
    then show ?thesis by (simp add: cookie_name_byte_def)
  next
    case 2
    then show ?thesis by (simp add: byte_of_def)
  next
    case 3
    then have "cookie_value_byte c" using assms(1) by (simp add: wf_cookie_def list_all_iff)
    then show ?thesis by (simp add: cookie_value_byte_def)
  qed
qed

lemma wf_cookie_trim:
  "wf_cookie (n, v) \<Longrightarrow> trim (n @ CHR ''='' # v) = n @ CHR ''='' # v"
  "wf_cookie (n, v) \<Longrightarrow> trim (CHR '' '' # n @ CHR ''='' # v) = n @ CHR ''='' # v"
  using wf_cookie_bytes by (metis trim_printable, metis trim_printable_space)

lemma wf_cookie_split: "wf_cookie (n, v) \<Longrightarrow> split_once (CHR ''='') (n @ CHR ''='' # v) = Some (n, v)"
  using split_once_first [of "CHR ''=''" n v] by (auto simp: wf_cookie_def list_all_iff cookie_name_byte_def)

lemma split_render:
  assumes "list_all wf_cookie cookies" "cookies \<noteq> []"
  shows "\<exists>c cs. cookies = c # cs \<and> split_on (CHR '';'') (render_cookies cookies)
    = (fst c @ CHR ''='' # snd c) # map (\<lambda>d. CHR '' '' # fst d @ CHR ''='' # snd d) cs"
  using assms
proof (induction cookies)
  case (Cons c cs)
  have c: "CHR '';'' \<notin> set (fst c @ CHR ''='' # snd c)"
    using Cons.prems wf_cookie_bytes [of "fst c" "snd c"] by auto
  show ?case
  proof (cases cs)
    case Nil
    then show ?thesis using c by (simp add: render_cookies_def split_on_no_sep case_prod_beta)
  next
    case (Cons d ds)
    then obtain r where r: "split_on (CHR '';'') (render_cookies cs) = (fst d @ CHR ''='' # snd d) # r"
      "r = map (\<lambda>e. CHR '' '' # fst e @ CHR ''='' # snd e) ds"
      using Cons.IH Cons.prems by auto
    have "render_cookies (c # cs) = (fst c @ CHR ''='' # snd c) @ CHR '';'' # CHR '' '' # render_cookies cs"
      by (simp add: render_cookies_def Cons case_prod_beta)
    then have "split_on (CHR '';'') (render_cookies (c # cs))
        = (fst c @ CHR ''='' # snd c) # split_on (CHR '';'') (CHR '' '' # render_cookies cs)"
      using split_on_append_sep [OF c] by simp
    then show ?thesis using r Cons by simp
  qed
qed simp

text \<open>A jar survives its header.\<close>

lemma parse_render_cookies: "list_all wf_cookie cookies \<Longrightarrow> parse_cookies (render_cookies cookies) = cookies"
proof (cases "cookies = []")
  case True
  have "parse_cookies (render_cookies []) = []" by code_simp
  then show ?thesis using True by simp
next
  case False
  assume wf: "list_all wf_cookie cookies"
  from split_render [OF wf False] obtain c cs where
    s: "cookies = c # cs" "split_on (CHR '';'') (render_cookies cookies)
      = (fst c @ CHR ''='' # snd c) # map (\<lambda>d. CHR '' '' # fst d @ CHR ''='' # snd d) cs" by blast
  have one: "split_once (CHR ''='') (trim (fst d @ CHR ''='' # snd d)) = Some d"
    "split_once (CHR ''='') (trim (CHR '' '' # fst d @ CHR ''='' # snd d)) = Some d" if "wf_cookie d" for d
    using wf_cookie_trim [of "fst d" "snd d"] wf_cookie_split [of "fst d" "snd d"] that by simp_all
  have "List.map_filter (\<lambda>k. split_once (CHR ''='') (trim k)) (map (\<lambda>d. CHR '' '' # fst d @ CHR ''='' # snd d) cs) = cs"
    if "list_all wf_cookie cs" for cs
    using that by (induction cs) (simp_all add: map_filter_simps one)
  then show ?thesis using wf s one by (simp add: parse_cookies_def map_filter_simps)
qed

lemma read_cookie_render:
  assumes "list_all wf_cookie cookies"
  shows "read_cookie_value (render_cookies cookies) name = jar_value cookies name"
proof -
  have t: "trim (fst c) = fst c" "trim (snd c) = snd c" if "wf_cookie c" for c
    using wf_cookie_bytes [of "fst c" "snd c"] that by (auto intro!: trim_printable)
  have *: "read_cookie_value s name = find_map (\<lambda>c. if eq_ignore_ascii_case (trim (fst c)) name
      then Some (trim (snd c)) else None) (parse_cookies s)" for s
  proof -
    have "find_map (\<lambda>k. case split_once (CHR ''='') (trim k) of
          Some (m, value) \<Rightarrow> if eq_ignore_ascii_case (trim m) name then Some (trim value) else None
        | None \<Rightarrow> None) xs
      = find_map (\<lambda>c. if eq_ignore_ascii_case (trim (fst c)) name then Some (trim (snd c)) else None)
          (List.map_filter (\<lambda>k. split_once (CHR ''='') (trim k)) xs)" for xs
      by (induction xs) (auto simp: map_filter_simps split: option.split)
    then show ?thesis unfolding read_cookie_value_def parse_cookies_def .
  qed
  show ?thesis unfolding * parse_render_cookies [OF assms] jar_value_def
    using assms by (induction cookies) (auto simp: t split: option.split)
qed

lemma wf_fold_apply:
  assumes "list_all wf_cookie cookies"
    "\<forall>line \<in> set lines. \<forall>m v. parse_set_cookie expired line = Some (m, v, False) \<longrightarrow> wf_cookie (m, v)"
  shows "list_all wf_cookie (fold (apply_set_cookie expired) lines cookies)"
  using assms
proof (induction lines arbitrary: cookies)
  case (Cons line lines)
  have "list_all wf_cookie (apply_set_cookie expired line cookies)"
    using Cons.prems by (auto simp: apply_set_cookie_def list_all_iff split: option.split)
  with Cons show ?case by simp
qed simp

text \<open>
  C32. The cookie header implements a map from names, compared without case, to values: after
  merging a response, reading a cookie from the header gives what the \<open>Set-Cookie\<close> lines, applied
  in order, make of the map. A line sets or deletes its own cookie and no other, the last line
  of a name wins, and a cookie the response does not mention keeps its value.
\<close>

theorem cookie_header_refines_map:
  assumes "list_all wf_cookie cookies"
    "\<forall>line \<in> set (header_values ''set-cookie'' hs). \<forall>m v.
       parse_set_cookie expired line = Some (m, v, False) \<longrightarrow> wf_cookie (m, v)"
  shows "read_cookie_value (merge_cookie_header expired (render_cookies cookies) hs) name
    = fold (cookie_update expired) (header_values ''set-cookie'' hs) (jar_value cookies) name"
proof -
  have "merge_cookie_header expired (render_cookies cookies) hs
      = render_cookies (fold (apply_set_cookie expired) (header_values ''set-cookie'' hs) cookies)"
    by (simp add: merge_cookie_header_def parse_render_cookies [OF assms(1)])
  then show ?thesis
    using read_cookie_render [OF wf_fold_apply [OF assms]] by (simp add: jar_value_fold)
qed

theorem cookie_header_refines_map_witness:
  "read_cookie_value (merge_cookie_header (\<lambda>d. None) ''JSESSIONID=old; route=r1''
     [(''set-cookie'', ''jsessionid=new; Path=/; HttpOnly'')]) ''JSESSIONID'' = Some ''new''"
proof -
  have "list_all wf_cookie [(''JSESSIONID'', ''old''), (''route'', ''r1'')]" by code_simp
  moreover have "parse_set_cookie (\<lambda>d. None) ''jsessionid=new; Path=/; HttpOnly'' = Some (''jsessionid'', ''new'', False)"
    by code_simp
  moreover have "wf_cookie (''jsessionid'', ''new'')" by code_simp
  moreover have "fold (cookie_update (\<lambda>d. None)) [''jsessionid=new; Path=/; HttpOnly'']
      (jar_value [(''JSESSIONID'', ''old''), (''route'', ''r1'')]) ''JSESSIONID'' = Some ''new''" by code_simp
  ultimately show ?thesis
    using cookie_header_refines_map [of "[(''JSESSIONID'', ''old''), (''route'', ''r1'')]"
        "[(''set-cookie'', ''jsessionid=new; Path=/; HttpOnly'')]" "\<lambda>d. None" "''JSESSIONID''"]
    by (simp add: header_values_def render_cookies_def)
qed

end
