(* ===== verification/Http_Client.thy ===== *)
theory Http_Client
  imports Policy Snu_Protocol Api_Error Cookies
begin

text \<open>
  The authenticated HTTP client: \<open>src/src/client/core.rs\<close> and \<open>src/src/client/transport.rs\<close>,
  over the authenticator trait of \<open>src/src/auth/mod.rs\<close>.

  The outside world is a state of type \<open>'w\<close>. What the sources only call is an argument: the
  \<open>url\<close> crate (\<open>url_lib\<close>), and in \<open>client_env\<close> the execution of a request by \<open>reqwest\<close>, whether a
  request can be built, serde's parser and printer. An authenticator is a record of
  operations on its own state \<open>'a\<close> and the world, as the trait object is. The model keeps a log
  of the requests handed to \<open>reqwest\<close> in \<open>sent\<close>; it is not state of the program.
\<close>

subsection \<open>URLs\<close>

record http_url = parsed_url +
  url_path :: string
  url_text :: string
  url_origin :: "(string \<times> string \<times> nat) option"

record url_lib =
  parse_url :: "string \<Rightarrow> http_url option"
  join_url :: "http_url \<Rightarrow> string \<Rightarrow> http_url option"

datatype client_error =
    PolicyRefused policy_error
  | InvalidInstanceUrl string
  | UnsafeInstanceUrl string
  | InvalidRequestUrl string
  | UnsafeRequestUrl string
  | ForeignRequestUrl string string
  | UnsafeExternalUrl string string
  | AuthenticationFailed string "client_error option"
  | ApiFailed api_error
  | TransportFailed transport_error
  | GraphqlFailed "string option"
  | Failed string
  | Panicked string

definition is_loopback_host :: "string \<Rightarrow> bool" where
  "is_loopback_host host \<longleftrightarrow> eq_ignore_ascii_case host ''localhost'' \<or> host = ''127.0.0.1''
     \<or> host = ''::1'' \<or> starts_with host ''127.''"

definition is_safe_authenticated_url :: "('x) http_url_scheme \<Rightarrow> bool" where
  "is_safe_authenticated_url url \<longleftrightarrow>
     (if pu_scheme url = ''https'' then True
      else if pu_scheme url = ''http'' then (case pu_host url of Some h \<Rightarrow> is_loopback_host h | None \<Rightarrow> False)
      else False)"

definition form_script_endpoint :: string where
  "form_script_endpoint = ''/sys.scripts.do''"

definition form_script_bootstrap_path :: string where
  "form_script_bootstrap_path = ''/sys.scripts.modern.do''"

definition endpoint_requires_form_session :: "url_lib \<Rightarrow> string \<Rightarrow> bool" where
  "endpoint_requires_form_session ul endpoint = (case parse_url ul endpoint of
      Some url \<Rightarrow> ends_with (trim_end_matches (CHR ''/'') (url_path url)) form_script_endpoint
    | None \<Rightarrow> ends_with (trim_end_matches (CHR ''/'')
        (takeWhile (\<lambda>c. c \<noteq> CHR ''?'' \<and> c \<noteq> CHR ''#'') endpoint)) form_script_endpoint)"

definition same_origin :: "'x http_url_scheme \<Rightarrow> 'y http_url_scheme \<Rightarrow> bool" where
  "same_origin left right \<longleftrightarrow> pu_scheme left = pu_scheme right \<and> pu_host left = pu_host right
     \<and> pu_port left = pu_port right"

definition validate_external_url :: "http_url \<Rightarrow> string \<Rightarrow> client_error + unit" where
  "validate_external_url url operation =
     (if is_safe_authenticated_url url then Inr () else Inl (UnsafeExternalUrl operation (url_text url)))"

definition resolve_authenticated_url :: "url_lib \<Rightarrow> string \<Rightarrow> string \<Rightarrow> client_error + string" where
  "resolve_authenticated_url ul base_url path = (case parse_url ul base_url of
      None \<Rightarrow> Inl (InvalidInstanceUrl base_url)
    | Some base \<Rightarrow>
        if \<not> is_safe_authenticated_url base then Inl (UnsafeInstanceUrl base_url)
        else (case (if starts_with path ''http://'' \<or> starts_with path ''https://'' then parse_url ul path
                    else if starts_with path ''/'' then join_url ul base path
                    else join_url ul base (CHR ''/'' # path)) of
            None \<Rightarrow> Inl (InvalidRequestUrl path)
          | Some candidate \<Rightarrow>
              if \<not> is_safe_authenticated_url candidate then Inl (UnsafeRequestUrl (url_text candidate))
              else if \<not> same_origin base candidate
              then Inl (ForeignRequestUrl (url_text candidate) (url_text base))
              else Inr (url_text candidate)))"

subsection \<open>Requests, responses and the world\<close>

datatype request_body =
    NoBody
  | TextBody string
  | FormBody "(string \<times> string) list"
  | MultipartBody "(string \<times> string) list" string string

record http_request =
  rq_method :: http_method
  rq_url :: string
  rq_params :: "(string \<times> string) list"
  rq_headers :: headers
  rq_body :: request_body

record http_response =
  rs_status :: nat
  rs_headers :: headers
  rs_url :: string
  rs_body :: "transport_error + string"

definition ok_of :: "'e + 'a \<Rightarrow> 'a option" where
  "ok_of r = (case r of Inr x \<Rightarrow> Some x | Inl _ \<Rightarrow> None)"

definition response_text :: "http_response \<Rightarrow> client_error + string" where
  "response_text r = map_sum TransportFailed id (rs_body r)"

definition is_success :: "http_response \<Rightarrow> bool" where
  "is_success r \<longleftrightarrow> 200 \<le> rs_status r \<and> rs_status r < 300"

definition is_redirection :: "http_response \<Rightarrow> bool" where
  "is_redirection r \<longleftrightarrow> 300 \<le> rs_status r \<and> rs_status r < 400"

record 'w host_world =
  outside :: 'w
  sent :: "http_request list"

record 'w client_env =
  env_urls :: url_lib
  env_execute :: "bool \<Rightarrow> http_request \<Rightarrow> 'w \<Rightarrow> (transport_error + http_response) \<times> 'w"
  env_buildable :: "http_request \<Rightarrow> bool"
  env_parse_json :: json_parser
  env_print_json :: "json \<Rightarrow> string"
  env_expired :: "'w \<Rightarrow> string \<Rightarrow> bool option"
  env_b64 :: "string \<Rightarrow> string option"

text \<open>\<open>http.execute(request)\<close> of a client that follows redirects or not.\<close>

definition execute_request ::
  "'w client_env \<Rightarrow> bool \<Rightarrow> http_request \<Rightarrow> 'w host_world \<Rightarrow> (client_error + http_response) \<times> 'w host_world" where
  "execute_request env redirects request w =
     (if \<not> env_buildable env request then (Inl (Failed ''request could not be built''), w)
      else case env_execute env redirects request (outside w) of (r, w') \<Rightarrow>
        (map_sum TransportFailed id r, \<lparr>outside = w', sent = sent w @ [request]\<rparr>))"

subsection \<open>The authenticator trait\<close>

datatype auth_method = Basic | NativeSession | Oauth2 | ApiKey | Mtls | BrowserSession

record native_session =
  ns_instance :: string
  ns_cookie_header :: string
  ns_csrf_token :: string
  ns_authenticated_user :: "string option"

record ('a, 'w) auth_ops =
  authenticate :: "'a \<Rightarrow> 'w \<Rightarrow> (client_error + headers) \<times> 'a \<times> 'w"
  refresh :: "'a \<Rightarrow> 'w \<Rightarrow> (client_error + bool) \<times> 'a \<times> 'w"
  observe_response_headers :: "headers \<Rightarrow> 'a \<Rightarrow> 'w \<Rightarrow> (client_error + unit) \<times> 'a \<times> 'w"
  native_session_credentials :: "'a \<Rightarrow> native_session option"
  update_native_csrf :: "string \<Rightarrow> 'a \<Rightarrow> 'w \<Rightarrow> (client_error + unit) \<times> 'a \<times> 'w"
  auth_type :: "'a \<Rightarrow> auth_method"

text \<open>An authentication failure keeps safe guidance in front of what went wrong.\<close>

definition classify_auth_failure :: "client_error \<Rightarrow> client_error" where
  "classify_auth_failure e = (case e of
      AuthenticationFailed _ _ \<Rightarrow> e
    | _ \<Rightarrow> AuthenticationFailed
        ''Authentication failed; check stored credentials or run snow-cli auth login.'' (Some e))"


subsection \<open>The client\<close>

record session_state =
  ss_jsessionid :: "string option"
  ss_form_cookie_header :: "string option"
  ss_native_form_bootstrapped :: bool
  ss_form_session :: "string option"

definition no_session :: session_state where
  "no_session = \<lparr>ss_jsessionid = None, ss_form_cookie_header = None,
     ss_native_form_bootstrapped = False, ss_form_session = None\<rparr>"

record 'a snow_client =
  sc_base_url :: string
  sc_authenticator :: 'a
  sc_session :: session_state
  sc_policy :: execution_policy
  sc_redirects :: bool

type_synonym ('a, 'w, 'r) client_op =
  "'a snow_client \<times> 'w host_world \<Rightarrow> (client_error + 'r) \<times> ('a snow_client \<times> 'w host_world)"

definition on_authenticator :: "('a \<Rightarrow> 'w \<Rightarrow> (client_error + 'r) \<times> 'a \<times> 'w) \<Rightarrow> ('a, 'w, 'r) client_op" where
  "on_authenticator f s = (case s of (c, w) \<Rightarrow>
     (case f (sc_authenticator c) (outside w) of (r, a, w') \<Rightarrow>
        (r, c\<lparr>sc_authenticator := a\<rparr>, w\<lparr>outside := w'\<rparr>)))"

definition send_request :: "'w client_env \<Rightarrow> http_request \<Rightarrow> ('a, 'w, http_response) client_op" where
  "send_request env request s = (case s of (c, w) \<Rightarrow>
     (case execute_request env (sc_redirects c) request w of (r, w') \<Rightarrow> (r, c, w')))"

text \<open>\<open>authenticator.authenticate().await.map_err(classify_auth_failure)?\<close>.\<close>

definition authenticate_classified :: "('a, 'w) auth_ops \<Rightarrow> ('a, 'w, headers) client_op" where
  "authenticate_classified au s = (case on_authenticator (authenticate au) s of
     (r, s') \<Rightarrow> (map_sum classify_auth_failure id r, s'))"

definition refresh_classified :: "('a, 'w) auth_ops \<Rightarrow> ('a, 'w, bool) client_op" where
  "refresh_classified au s = (case on_authenticator (refresh au) s of
     (r, s') \<Rightarrow> (map_sum classify_auth_failure id r, s'))"

definition client_url :: "'w client_env \<Rightarrow> 'a snow_client \<Rightarrow> string \<Rightarrow> client_error + string" where
  "client_url env c path = resolve_authenticated_url (env_urls env) (sc_base_url c) path"

definition authorize_instance_request ::
  "'w client_env \<Rightarrow> 'a snow_client \<Rightarrow> http_method \<Rightarrow> string \<Rightarrow> client_error + string" where
  "authorize_instance_request env c method path =
     bind_result (map_sum PolicyRefused id (ensure_request_allowed (sc_policy c) method path))
       (\<lambda>_. client_url env c path)"

text \<open>\<open>observe_session_response_headers\<close> of \<open>src/src/client/session.rs\<close>.\<close>

definition note_session_cookies :: "(string \<Rightarrow> bool option) \<Rightarrow> headers \<Rightarrow> session_state \<Rightarrow> session_state" where
  "note_session_cookies expired hs ss =
     ss\<lparr>ss_form_cookie_header := map_option (\<lambda>h. merge_cookie_header expired h hs) (ss_form_cookie_header ss),
        ss_jsessionid := (case extract_jsessionid_from_headers hs of
            Some j \<Rightarrow> Some j | None \<Rightarrow> ss_jsessionid ss)\<rparr>"

definition observe_session_response_headers ::
  "'w client_env \<Rightarrow> ('a, 'w) auth_ops \<Rightarrow> headers \<Rightarrow> ('a, 'w, unit) client_op" where
  "observe_session_response_headers env au hs s =
     and_then (on_authenticator (observe_response_headers au hs) s) (\<lambda>_ (c, w).
       (Inr (), (if native_session_credentials au (sc_authenticator c) = None
                 then c\<lparr>sc_session := note_session_cookies (env_expired env (outside w)) hs (sc_session c)\<rparr> else c), w))"

subsection \<open>Requests with credentials\<close>

definition max_auth_retries :: nat where
  "max_auth_retries = 1"

definition json_headers :: headers where
  "json_headers = [(''accept'', ''application/json''), (''content-type'', ''application/json'')]"

definition build_request ::
  "http_method \<Rightarrow> string \<Rightarrow> string option \<Rightarrow> (string \<times> string) list \<Rightarrow> headers \<Rightarrow> headers \<Rightarrow> http_request" where
  "build_request method url body params extra_headers auth_headers =
     \<lparr>rq_method = method, rq_url = url, rq_params = params,
      rq_headers = json_headers @ auth_headers @ map (map_prod to_ascii_lowercase id) extra_headers,
      rq_body = (case body of Some b \<Rightarrow> TextBody b | None \<Rightarrow> NoBody)\<rparr>"

text \<open>An attempt of the loop of \<open>request_inner\<close>; \<open>n\<close> is the number of retries left.\<close>

fun request_attempts ::
  "'w client_env \<Rightarrow> ('a, 'w) auth_ops \<Rightarrow> (headers \<Rightarrow> http_request) \<Rightarrow> nat
   \<Rightarrow> ('a, 'w, http_response) client_op" where
  "request_attempts env au request n s =
     and_then (authenticate_classified au s) (\<lambda>auth_headers s.
     and_then (send_request env (request auth_headers) s) (\<lambda>response s.
     and_then (observe_session_response_headers env au (rs_headers response) s) (\<lambda>_ s.
       let finish = (\<lambda>s. if is_success response then (Inr response, s)
             else (Inl (ApiFailed (from_status (env_parse_json env) (rs_status response)
                     (sc_base_url (fst s)) (ok_of (rs_body response)))), s))
       in if rs_status response = 401 \<and> 0 < n
          then and_then (refresh_classified au s) (\<lambda>refreshed s.
                 if refreshed then request_attempts env au request (n - 1) s else finish s)
          else finish s)))"

declare request_attempts.simps [simp del]

definition request_inner ::
  "'w client_env \<Rightarrow> ('a, 'w) auth_ops \<Rightarrow> http_method \<Rightarrow> string \<Rightarrow> string option
   \<Rightarrow> (string \<times> string) list \<Rightarrow> headers \<Rightarrow> ('a, 'w, http_response) client_op" where
  "request_inner env au method path body params extra_headers s =
     (case authorize_instance_request env (fst s) method path of
        Inl e \<Rightarrow> (Inl e, s)
      | Inr url \<Rightarrow> request_attempts env au (build_request method url body params extra_headers) max_auth_retries s)"


text \<open>The public operations.\<close>

definition client_request :: "'w client_env \<Rightarrow> ('a, 'w) auth_ops \<Rightarrow> http_method \<Rightarrow> string \<Rightarrow> string option
   \<Rightarrow> (string \<times> string) list \<Rightarrow> ('a, 'w, http_response) client_op" where
  "client_request env au method path body params = request_inner env au method path body params []"

definition client_get :: "'w client_env \<Rightarrow> ('a, 'w) auth_ops \<Rightarrow> string \<Rightarrow> ('a, 'w, http_response) client_op" where
  "client_get env au path = client_request env au GET path None []"

definition get_with_params :: "'w client_env \<Rightarrow> ('a, 'w) auth_ops \<Rightarrow> string \<Rightarrow> (string \<times> string) list
   \<Rightarrow> ('a, 'w, http_response) client_op" where
  "get_with_params env au path params = client_request env au GET path None params"

definition client_post :: "'w client_env \<Rightarrow> ('a, 'w) auth_ops \<Rightarrow> string \<Rightarrow> string \<Rightarrow> ('a, 'w, http_response) client_op" where
  "client_post env au path body = client_request env au POST path (Some body) []"

definition client_put :: "'w client_env \<Rightarrow> ('a, 'w) auth_ops \<Rightarrow> string \<Rightarrow> string \<Rightarrow> ('a, 'w, http_response) client_op" where
  "client_put env au path body = client_request env au PUT path (Some body) []"

definition client_patch :: "'w client_env \<Rightarrow> ('a, 'w) auth_ops \<Rightarrow> string \<Rightarrow> string \<Rightarrow> ('a, 'w, http_response) client_op" where
  "client_patch env au path body = client_request env au PATCH path (Some body) []"

definition client_delete :: "'w client_env \<Rightarrow> ('a, 'w) auth_ops \<Rightarrow> string \<Rightarrow> ('a, 'w, http_response) client_op" where
  "client_delete env au path = client_request env au DELETE path None []"

definition request_with_headers :: "'w client_env \<Rightarrow> ('a, 'w) auth_ops \<Rightarrow> http_method \<Rightarrow> string
   \<Rightarrow> string option \<Rightarrow> (string \<times> string) list \<Rightarrow> headers \<Rightarrow> ('a, 'w, http_response) client_op" where
  "request_with_headers env au method path body params extra_headers s =
     (case ensure_raw_api_headers_allowed (sc_policy (fst s)) method extra_headers of
        Inl e \<Rightarrow> (Inl (PolicyRefused e), s)
      | Inr _ \<Rightarrow> request_inner env au method path body params extra_headers s)"

text \<open>The JSON variants decode the body with \<open>decode\<close>, serde's decoder of the expected type.\<close>

definition decode_body ::
  "'w client_env \<Rightarrow> (json \<Rightarrow> 'r option) \<Rightarrow> http_response \<Rightarrow> ('a, 'w, 'r) client_op" where
  "decode_body env decode response s =
     (case response_text response of
        Inl e \<Rightarrow> (Inl e, s)
      | Inr body \<Rightarrow> (case Option.bind (env_parse_json env body) decode of
          Some v \<Rightarrow> (Inr v, s) | None \<Rightarrow> (Inl (TransportFailed InvalidResponse), s)))"

definition get_json :: "'w client_env \<Rightarrow> ('a, 'w) auth_ops \<Rightarrow> (json \<Rightarrow> 'r option) \<Rightarrow> string
   \<Rightarrow> ('a, 'w, 'r) client_op" where
  "get_json env au decode path s = and_then (client_get env au path s) (decode_body env decode)"

definition get_json_with_params :: "'w client_env \<Rightarrow> ('a, 'w) auth_ops \<Rightarrow> (json \<Rightarrow> 'r option) \<Rightarrow> string
   \<Rightarrow> (string \<times> string) list \<Rightarrow> ('a, 'w, 'r) client_op" where
  "get_json_with_params env au decode path params s =
     and_then (get_with_params env au path params s) (decode_body env decode)"

definition post_json :: "'w client_env \<Rightarrow> ('a, 'w) auth_ops \<Rightarrow> (json \<Rightarrow> 'r option) \<Rightarrow> string \<Rightarrow> string
   \<Rightarrow> ('a, 'w, 'r) client_op" where
  "post_json env au decode path body s = and_then (client_post env au path body s) (decode_body env decode)"

definition patch_json :: "'w client_env \<Rightarrow> ('a, 'w) auth_ops \<Rightarrow> (json \<Rightarrow> 'r option) \<Rightarrow> string \<Rightarrow> string
   \<Rightarrow> ('a, 'w, 'r) client_op" where
  "patch_json env au decode path body s = and_then (client_patch env au path body s) (decode_body env decode)"

text \<open>GraphQL: partial data next to errors is dropped.\<close>

definition graphql_data_from_envelope :: "json \<Rightarrow> client_error + json" where
  "graphql_data_from_envelope envelope = (case envelope of
      JObject m \<Rightarrow>
        (let data = (case map_of m ''data'' of Some d \<Rightarrow> Inr d
             | None \<Rightarrow> Inl (TransportFailed (InvalidEnvelope ''GraphQL endpoint response did not contain data'')))
         in case map_of m ''errors'' of
              None \<Rightarrow> data
            | Some (JArray errors) \<Rightarrow> if errors \<noteq> [] then Inl (GraphqlFailed (graphql_error_detail errors)) else data
            | Some _ \<Rightarrow> Inl (TransportFailed (InvalidEnvelope ''GraphQL endpoint returned an invalid errors field'')))
    | _ \<Rightarrow> Inl (TransportFailed (InvalidEnvelope ''GraphQL endpoint returned a non-object response envelope'')))"

definition graphql_body :: "'w client_env \<Rightarrow> string \<Rightarrow> json \<Rightarrow> string" where
  "graphql_body env query variables =
     env_print_json env (JObject [(''query'', JString query), (''variables'', variables)])"

definition execute_graphql :: "'w client_env \<Rightarrow> ('a, 'w) auth_ops \<Rightarrow> string \<Rightarrow> json \<Rightarrow> ('a, 'w, json) client_op" where
  "execute_graphql env au query variables s =
     and_then (post_json env au Some ''/api/now/graphql'' (graphql_body env query variables) s)
       (\<lambda>envelope s. (graphql_data_from_envelope envelope, s))"

text \<open>Attachments: one request, without the retry, and without the session cookies of the others.\<close>

definition one_request ::
  "'w client_env \<Rightarrow> ('a, 'w) auth_ops \<Rightarrow> (headers \<Rightarrow> http_request) \<Rightarrow> ('a, 'w, http_response) client_op" where
  "one_request env au request s =
     and_then (authenticate_classified au s) (\<lambda>auth_headers s.
     and_then (send_request env (request auth_headers) s) (\<lambda>response s.
     and_then (on_authenticator (observe_response_headers au (rs_headers response)) s) (\<lambda>_ s. (Inr response, s))))"

definition upload_request :: "string \<Rightarrow> string \<Rightarrow> string \<Rightarrow> string \<Rightarrow> string \<Rightarrow> headers \<Rightarrow> http_request" where
  "upload_request url table table_sys_id file_name file_bytes auth_headers =
     (let flds = [(''table_name'', table), (''table_sys_id'', table_sys_id), (''file_name'', file_name)]
      in \<lparr>rq_method = POST, rq_url = url, rq_params = flds,
          rq_headers = (''accept'', ''application/json'') # auth_headers,
          rq_body = MultipartBody flds file_name file_bytes\<rparr>)"

definition upload_attachment :: "'w client_env \<Rightarrow> ('a, 'w) auth_ops \<Rightarrow> string \<Rightarrow> string \<Rightarrow> string \<Rightarrow> string
   \<Rightarrow> ('a, 'w, http_response) client_op" where
  "upload_attachment env au table table_sys_id file_name file_bytes s =
     (case authorize_instance_request env (fst s) POST ''/api/now/attachment/upload'' of
        Inl e \<Rightarrow> (Inl e, s)
      | Inr url \<Rightarrow> one_request env au (upload_request url table table_sys_id file_name file_bytes) s)"

definition download_request :: "string \<Rightarrow> headers \<Rightarrow> http_request" where
  "download_request url auth_headers = \<lparr>rq_method = GET, rq_url = url, rq_params = [],
     rq_headers = (''accept'', ''*/*'') # auth_headers, rq_body = NoBody\<rparr>"

definition download_attachment :: "'w client_env \<Rightarrow> ('a, 'w) auth_ops \<Rightarrow> string \<Rightarrow> ('a, 'w, http_response) client_op" where
  "download_attachment env au path s =
     (case authorize_instance_request env (fst s) GET path of
        Inl e \<Rightarrow> (Inl e, s)
      | Inr url \<Rightarrow> one_request env au (download_request url) s)"

subsection \<open>What an operation puts on the wire\<close>

text \<open>
  A relation between the state before and after an operation that composes along the \<open>?\<close>
  operator.
\<close>

locale run_relation =
  fixes rel :: "'s \<Rightarrow> 's \<Rightarrow> bool"
  assumes rel_refl: "rel s s" and rel_trans: "rel s t \<Longrightarrow> rel t u \<Longrightarrow> rel s u"
begin

lemma and_then_rel:
  assumes "rel s (snd rs)" "\<And>x t. rs = (Inr x, t) \<Longrightarrow> rel t (snd (f x t))"
  shows "rel s (snd (and_then rs f))"
  using assms rel_trans by (cases rs; cases "fst rs") auto

lemma map_result_rel: "rel s (snd rs) \<Longrightarrow> rel s (snd (case rs of (r, t) \<Rightarrow> (g r, t)))"
  by (cases rs) simp

end

text \<open>The operation sends requests with the property \<open>P\<close> only, and leaves the client's configuration.\<close>

definition emits ::
  "(http_request \<Rightarrow> bool) \<Rightarrow> 'a snow_client \<times> 'w host_world \<Rightarrow> 'a snow_client \<times> 'w host_world \<Rightarrow> bool" where
  "emits P s s' \<longleftrightarrow> sc_base_url (fst s') = sc_base_url (fst s) \<and> sc_policy (fst s') = sc_policy (fst s)
     \<and> sc_redirects (fst s') = sc_redirects (fst s)
     \<and> (\<exists>new. sent (snd s') = sent (snd s) @ new \<and> list_all P new)"

interpretation log: run_relation "emits P" for P
proof
  show "emits P s s" for s :: "'a snow_client \<times> 'b host_world"
    by (simp add: emits_def)
  show "emits P s u" if "emits P s t" "emits P t u" for s t u :: "'a snow_client \<times> 'b host_world"
    using that by (auto simp: emits_def)
qed

named_theorems emits_intros "what the operations put on the wire"

lemma emits_mono: "emits P s s' \<Longrightarrow> (\<And>x. P x \<Longrightarrow> Q x) \<Longrightarrow> emits Q s s'"
  by (auto simp: emits_def list_all_iff)

lemma emits_on_authenticator [emits_intros]: "emits P s (snd (on_authenticator f s))"
  by (auto simp: emits_def on_authenticator_def split: prod.splits)

lemma emits_send_request [emits_intros]: "P request \<Longrightarrow> emits P s (snd (send_request env request s))"
  by (auto simp: emits_def send_request_def execute_request_def split: prod.splits)

lemma emits_authenticate [emits_intros]: "emits P s (snd (authenticate_classified au s))"
  unfolding authenticate_classified_def by (rule log.map_result_rel) (rule emits_on_authenticator)

lemma emits_refresh [emits_intros]: "emits P s (snd (refresh_classified au s))"
  unfolding refresh_classified_def by (rule log.map_result_rel) (rule emits_on_authenticator)

lemma emits_observe [emits_intros]: "emits P s (snd (observe_session_response_headers env au hs s))"
  unfolding observe_session_response_headers_def
proof (rule log.and_then_rel, rule emits_on_authenticator)
  show "emits P t (snd (case t of (c, w) \<Rightarrow> (Inr (), (if native_session_credentials au (sc_authenticator c) = None
      then c\<lparr>sc_session := note_session_cookies (env_expired env (outside w)) hs (sc_session c)\<rparr> else c), w)))" for t
    by (cases t) (simp add: emits_def)
qed

lemma emits_attempts [emits_intros]:
  assumes "\<And>auth_headers. P (request auth_headers)"
  shows "emits P s (snd (request_attempts env au request n s))"
proof (induction n arbitrary: s rule: less_induct)
  case (less n)
  show ?case
    by (subst request_attempts.simps)
      (auto simp: Let_def log.rel_refl intro!: log.and_then_rel emits_intros assms less)
qed

lemma emits_request_inner:
  assumes "\<And>url auth_headers. authorize_instance_request env (fst s) method path = Inr url \<Longrightarrow>
     P (build_request method url body params extra_headers auth_headers)"
  shows "emits P s (snd (request_inner env au method path body params extra_headers s))"
  unfolding request_inner_def
  by (cases "authorize_instance_request env (fst s) method path")
    (auto simp: log.rel_refl intro!: emits_attempts assms)

lemma emits_one_request [emits_intros]:
  assumes "\<And>auth_headers. P (request auth_headers)"
  shows "emits P s (snd (one_request env au request s))"
  unfolding one_request_def
  by (auto simp: log.rel_refl intro!: log.and_then_rel emits_intros assms)

lemma emits_decode_body [emits_intros]: "emits P s (snd (decode_body env decode response s))"
  by (auto simp: decode_body_def log.rel_refl split: sum.split option.split)

end
