(* ===== verification/Script_Response.thy ===== *)
theory Script_Response
  imports Cookies
begin

text \<open>
  Responses to background scripts (\<open>src/src/client/script_response.rs\<close>): the credentials seen in
  the request and in the response are replaced in the script's output. The \<open>urlencoding\<close> crate
  is the argument \<open>enc\<close>, base64 decoding the argument \<open>b64\<close>.
\<close>

definition min_cookie_redaction_len :: nat where
  "min_cookie_redaction_len = 8"

definition is_credential_cookie :: "string \<Rightarrow> bool" where
  "is_credential_cookie name \<longleftrightarrow>
     (let n = to_ascii_lowercase (trim name) in
      n = ''jsessionid'' \<or> starts_with n ''glide_session'' \<or> starts_with n ''glide_user''
      \<or> starts_with n ''glide_sso'' \<or> str_contains n ''token'')"

text \<open>The secrets collected so far, in order.\<close>

definition add_secret :: "(string \<Rightarrow> string) \<Rightarrow> string \<Rightarrow> string list \<Rightarrow> string list" where
  "add_secret enc value secrets = (if value = [] then secrets else secrets @ [value, enc value])"

definition add_cookie :: "(string \<Rightarrow> string) \<Rightarrow> string \<Rightarrow> string \<Rightarrow> string list \<Rightarrow> string list" where
  "add_cookie enc name value secrets =
     (if is_credential_cookie name \<and> min_cookie_redaction_len \<le> length value
      then add_secret enc value secrets else secrets)"

definition observe_authorization ::
  "(string \<Rightarrow> string) \<Rightarrow> (string \<Rightarrow> string option) \<Rightarrow> string \<Rightarrow> string list \<Rightarrow> string list" where
  "observe_authorization enc b64 value secrets =
     (let secrets = add_secret enc value secrets in
      case split_once (CHR '' '') value of
        None \<Rightarrow> secrets
      | Some (scheme, credential) \<Rightarrow>
          (let secrets = add_secret enc credential secrets in
           if eq_ignore_ascii_case scheme ''basic''
           then (case b64 credential of
               Some decoded \<Rightarrow>
                 if valid_utf8 decoded
                 then (case split_once (CHR '':'') decoded of
                     Some (_, password) \<Rightarrow> add_secret enc password secrets | None \<Rightarrow> secrets)
                 else secrets
             | None \<Rightarrow> secrets)
           else secrets))"

definition observe_cookies :: "(string \<Rightarrow> string) \<Rightarrow> string \<Rightarrow> string list \<Rightarrow> string list" where
  "observe_cookies enc value = fold (\<lambda>cookie secrets. case split_once (CHR ''='') (trim cookie) of
       Some (name, v) \<Rightarrow> add_cookie enc name v secrets | None \<Rightarrow> secrets) (split_on (CHR '';'') value)"

definition observe_request ::
  "(string \<Rightarrow> string) \<Rightarrow> (string \<Rightarrow> string option) \<Rightarrow> headers \<Rightarrow> string list \<Rightarrow> string list" where
  "observe_request enc b64 hs secrets =
     (let text_of = (\<lambda>name. Option.bind (header_value name hs) header_text);
          secrets = (case text_of ''authorization'' of
              Some v \<Rightarrow> observe_authorization enc b64 v secrets | None \<Rightarrow> secrets);
          secrets = (case text_of ''cookie'' of Some v \<Rightarrow> observe_cookies enc v secrets | None \<Rightarrow> secrets)
      in case text_of ''x-usertoken'' of Some v \<Rightarrow> add_secret enc v secrets | None \<Rightarrow> secrets)"

definition observe_response :: "(string \<Rightarrow> string) \<Rightarrow> headers \<Rightarrow> string list \<Rightarrow> string list" where
  "observe_response enc hs = fold (\<lambda>cookie secrets. case header_text cookie of
       None \<Rightarrow> secrets
     | Some c \<Rightarrow> (case split_once (CHR ''='') (hd (split_on (CHR '';'') c)) of
         Some (name, v) \<Rightarrow> add_cookie enc name v secrets | None \<Rightarrow> secrets)) (header_values ''set-cookie'' hs)"

text \<open>\<open>str::replace\<close>: the matches from the left, not overlapping.\<close>

function replace_all :: "string \<Rightarrow> string \<Rightarrow> string \<Rightarrow> string" where
  "replace_all pat new s =
     (if pat = [] \<or> s = [] then s
      else if starts_with s pat then new @ replace_all pat new (drop (length pat) s)
      else hd s # replace_all pat new (tl s))"
  by pat_completeness auto
termination
proof (relation "measure (\<lambda>(_, _, s). length s)", goal_cases)
  case (2 pat new s)
  then have "0 < length pat" "0 < length s" by simp_all
  then show ?case by simp
next
  case (3 pat new s)
  then have "0 < length s" by simp
  then show ?case by simp
qed simp

declare replace_all.simps [simp del]

fun dedup :: "'a list \<Rightarrow> 'a list" where
  "dedup (x # y # xs) = (if x = y then dedup (x # xs) else x # dedup (y # xs))"
| "dedup xs = xs"

definition script_mark :: string where
  "script_mark = ''<redacted>''"

text \<open>\<open>sort_by_key(Reverse(len))\<close> is stable.\<close>

definition longest_first :: "string list \<Rightarrow> string list" where
  "longest_first secrets = sort_key (\<lambda>s. - int (length s)) secrets"

definition redact :: "string list \<Rightarrow> string \<Rightarrow> string" where
  "redact secrets body = fold (\<lambda>secret b. replace_all secret script_mark b) (dedup (longest_first secrets)) body"

subsection \<open>No credential is left\<close>

lemma set_dedup [simp]: "set (dedup xs) = set xs"
  by (induction xs rule: dedup.induct) auto

lemma add_secret_nonempty:
  assumes "[] \<notin> set secrets" "\<And>v. v \<noteq> [] \<Longrightarrow> enc v \<noteq> []"
  shows "[] \<notin> set (add_secret enc value secrets)"
  using assms(1) assms(2) [of "value"] by (cases "value = []") (auto simp: add_secret_def)

text \<open>
  A string without angle brackets that is no part of the mark occurs in a redacted text only
  where it occurred before: an occurrence cannot touch the mark.
\<close>

definition apart :: "string \<Rightarrow> bool" where
  "apart secret \<longleftrightarrow> CHR ''<'' \<notin> set secret \<and> CHR ''>'' \<notin> set secret \<and> \<not> str_contains script_mark secret
     \<and> secret \<noteq> []"

lemma sublist_across:
  assumes "x \<notin> set s" "str_contains (a @ x # b) s"
  shows "str_contains a s \<or> str_contains b s"
proof -
  have no: "prefix u (x # b) \<Longrightarrow> x \<notin> set u \<Longrightarrow> u = []" for u by (cases u) auto
  from assms(2) consider "str_contains a s" | "str_contains (x # b) s"
    | s1 s2 where "s = s1 @ s2" "suffix s1 a" "prefix s2 (x # b)"
    by (auto simp: sublist_append)
  then show ?thesis
  proof cases
    case 2
    then show ?thesis using no [of s] assms(1) by (auto simp: sublist_Cons_right)
  next
    case 3
    then have "s2 = []" using no [of s2] assms(1) by simp
    with 3 show ?thesis by (auto intro: suffix_imp_sublist)
  qed simp
qed

lemma apart_mark:
  assumes "apart s" "str_contains (script_mark @ b) s"
  shows "str_contains b s"
proof -
  have mark: "script_mark = CHR ''<'' # ''redacted'' @ [CHR ''>'']" by (simp add: script_mark_def)
  have "str_contains ([] @ CHR ''<'' # (''redacted'' @ CHR ''>'' # b)) s"
    using assms(2) by (simp add: mark)
  then have "str_contains [] s \<or> str_contains (''redacted'' @ CHR ''>'' # b) s"
    using assms(1) by (intro sublist_across) (auto simp: apart_def)
  moreover have "\<not> str_contains [] s" using assms(1) by (auto simp: apart_def)
  ultimately have "str_contains ''redacted'' s \<or> str_contains b s"
    using assms(1) sublist_across [of "CHR ''>''" s "''redacted''" b] by (auto simp: apart_def)
  moreover have "str_contains script_mark ''redacted''"
    unfolding mark by (metis append_Cons append_Nil sublist_appendI)
  then have "\<not> str_contains ''redacted'' s"
    using assms(1) sublist_order.order_trans by (auto simp: apart_def)
  ultimately show ?thesis by blast
qed

lemma replace_all_untouched:
  "prefix (takeWhile (\<lambda>c. c \<noteq> CHR ''<'') (replace_all pat script_mark s)) s"
proof (induction pat "script_mark" s rule: replace_all.induct)
  case (1 pat s)
  show ?case
  proof (cases "pat = [] \<or> s = []")
    case True
    then show ?thesis by (subst replace_all.simps) (auto simp: takeWhile_is_prefix)
  next
    case False
    show ?thesis
    proof (cases "starts_with s pat")
      case True
      then show ?thesis using False by (subst replace_all.simps) (simp add: script_mark_def)
    next
      case no: False
      with False 1 have "prefix (takeWhile (\<lambda>c. c \<noteq> CHR ''<'') (replace_all pat script_mark (tl s))) (tl s)" by simp
      then show ?thesis using False no
        by (subst replace_all.simps) (cases s, auto)
    qed
  qed
qed

lemma prefix_untouched:
  assumes "apart t" "prefix t (c # replace_all pat script_mark s)"
  shows "prefix t (c # s)"
proof -
  have t: "\<forall>x \<in> set t. x \<noteq> CHR ''<''" using assms(1) by (auto simp: apart_def)
  obtain z where z: "c # replace_all pat script_mark s = t @ z" using assms(2) by (auto simp: prefix_def)
  have "takeWhile (\<lambda>x. x \<noteq> CHR ''<'') (t @ z) = t @ takeWhile (\<lambda>x. x \<noteq> CHR ''<'') z"
    by (rule takeWhile_append2) (use t in blast)
  then have "prefix t (takeWhile (\<lambda>x. x \<noteq> CHR ''<'') (c # replace_all pat script_mark s))" by (simp add: z)
  moreover have "prefix (takeWhile (\<lambda>x. x \<noteq> CHR ''<'') (c # replace_all pat script_mark s)) (c # s)"
    using replace_all_untouched [of pat s] by auto
  ultimately show ?thesis using prefix_order.order_trans by blast
qed

text \<open>Replacing a secret removes it, and replacing another does not bring it back.\<close>

lemma replace_all_step:
  assumes "pat \<noteq> []" "s \<noteq> []"
  shows "replace_all pat script_mark s = (if starts_with s pat
    then script_mark @ replace_all pat script_mark (drop (length pat) s)
    else hd s # replace_all pat script_mark (tl s))"
  using assms by (subst replace_all.simps) simp

lemma replace_all_removes:
  assumes "apart secret"
  shows "\<not> str_contains (replace_all secret script_mark s) secret"
proof (induction "length s" arbitrary: s rule: less_induct)
  case less
  have ne: "secret \<noteq> []" using assms by (auto simp: apart_def)
  show ?case
  proof (cases s)
    case Nil
    then show ?thesis using ne by (subst replace_all.simps) simp
  next
    case (Cons c t)
    show ?thesis
    proof (cases "starts_with s secret")
      case True
      then have "length (drop (length secret) s) < length s" using ne Cons by simp
      from less [OF this] show ?thesis
        using apart_mark [OF assms] True Cons ne by (auto simp: replace_all_step)
    next
      case False
      moreover have "\<not> str_contains (replace_all secret script_mark t) secret" using less [of t] Cons by simp
      ultimately show ?thesis
        using prefix_untouched [OF assms, of c secret t] Cons ne by (auto simp: replace_all_step sublist_Cons_right)
    qed
  qed
qed

lemma replace_all_keeps_away:
  assumes "apart secret" "\<not> str_contains s secret"
  shows "\<not> str_contains (replace_all pat script_mark s) secret"
  using assms(2)
proof (induction "length s" arbitrary: s rule: less_induct)
  case less
  show ?case
  proof (cases "pat = [] \<or> s = []")
    case True
    then show ?thesis using less.prems by (subst replace_all.simps) auto
  next
    case False
    then obtain c t where s: "s = c # t" by (cases s) auto
    show ?thesis
    proof (cases "starts_with s pat")
      case True
      have "length (drop (length pat) s) < length s" "\<not> str_contains (drop (length pat) s) secret"
        using False less.prems sublist_order.order_trans [OF _ sublist_drop] by auto
      from less.hyps [OF this] show ?thesis
        using apart_mark [OF assms(1)] True False by (auto simp: replace_all_step)
    next
      case no: False
      have "\<not> str_contains t secret" "\<not> prefix secret (c # t)"
        using less.prems s by (auto simp: sublist_Cons_right)
      then show ?thesis
        using less.hyps [of t] prefix_untouched [OF assms(1), of c pat t] s False no
        by (auto simp: replace_all_step sublist_Cons_right)
    qed
  qed
qed

lemma redact_fold:
  assumes "apart secret" "secret \<in> set secrets \<or> \<not> str_contains body secret"
  shows "\<not> str_contains (fold (\<lambda>p b. replace_all p script_mark b) secrets body) secret"
  using assms(2)
proof (induction secrets arbitrary: body)
  case (Cons p secrets)
  have "secret \<in> set secrets \<or> \<not> str_contains (replace_all p script_mark body) secret"
    using Cons.prems replace_all_removes [OF assms(1)] replace_all_keeps_away [OF assms(1)] by auto
  from Cons.IH [OF this] show ?case by simp
qed simp

lemma redact_hides:
  "apart secret \<Longrightarrow> secret \<in> set secrets \<Longrightarrow> \<not> str_contains (redact secrets body) secret"
  unfolding redact_def by (rule redact_fold) (simp_all add: longest_first_def)

subsection \<open>What is collected\<close>

lemma add_secret_mono: "s \<in> set secrets \<Longrightarrow> s \<in> set (add_secret enc value secrets)"
  by (simp add: add_secret_def)

lemma add_cookie_mono: "s \<in> set secrets \<Longrightarrow> s \<in> set (add_cookie enc name value secrets)"
  by (simp add: add_cookie_def add_secret_mono)

lemma observe_cookies_mono: "s \<in> set secrets \<Longrightarrow> s \<in> set (observe_cookies enc value secrets)"
  unfolding observe_cookies_def
  by (rule fold_invariant [where Q = "\<lambda>_. True" and P = "\<lambda>a. s \<in> set a"])
    (auto simp: add_cookie_mono split: option.split)

lemma observe_response_mono: "s \<in> set secrets \<Longrightarrow> s \<in> set (observe_response enc hs secrets)"
  unfolding observe_response_def
  by (rule fold_invariant [where Q = "\<lambda>_. True" and P = "\<lambda>a. s \<in> set a"])
    (auto simp: add_cookie_mono split: option.split)

lemma authorization_collected:
  assumes "header_value ''authorization'' hs = Some a" "header_text a = Some a"
    "split_once (CHR '' '') a = Some (scheme, credential)" "credential \<noteq> []"
  shows "credential \<in> set (observe_request enc b64 hs [])"
proof -
  have "credential \<in> set (observe_authorization enc b64 a [])"
    using assms(3,4) by (auto simp: observe_authorization_def Let_def add_secret_def split: option.split prod.split)
  then show ?thesis using assms(1,2)
    by (auto simp: observe_request_def Let_def observe_cookies_mono add_secret_mono split: option.split)
qed



end
