(* ===== verification/Form_Session.thy ===== *)
theory Form_Session
  imports Http_Client Script_Response
begin

text \<open>
  UI form sessions and background scripts: the session part of \<open>src/src/client/session.rs\<close> and
  \<open>execute_background_script\<close> of \<open>src/src/client/transport.rs\<close>. A form session is the cookies and
  the CSRF token of one UI session; it is taken from a bootstrap page, after a form login when
  the page says that nobody is logged in.
\<close>

definition current_form_cookie_header :: "('a, 'w) auth_ops \<Rightarrow> 'a snow_client \<Rightarrow> string option" where
  "current_form_cookie_header au c = (case native_session_credentials au (sc_authenticator c) of
      Some native \<Rightarrow> Some (ns_cookie_header native)
    | None \<Rightarrow> ss_form_cookie_header (sc_session c))"

definition current_form_session :: "('a, 'w) auth_ops \<Rightarrow> 'a snow_client \<Rightarrow> string option" where
  "current_form_session au c =
     (case (if ss_native_form_bootstrapped (sc_session c)
            then native_session_credentials au (sc_authenticator c) else None) of
        Some native \<Rightarrow> Some (ns_csrf_token native)
      | None \<Rightarrow> ss_form_session (sc_session c))"

definition update_session :: "(session_state \<Rightarrow> session_state) \<Rightarrow> ('a, 'w, unit) client_op" where
  "update_session f s = (case s of (c, w) \<Rightarrow> (Inr (), c\<lparr>sc_session := f (sc_session c)\<rparr>, w))"

definition html_accept :: "string \<times> string" where
  "html_accept = (''accept'', ''text/html,application/xhtml+xml'')"

definition plain_get :: "string \<Rightarrow> headers \<Rightarrow> http_request" where
  "plain_get url hs = \<lparr>rq_method = GET, rq_url = url, rq_params = [], rq_headers = hs, rq_body = NoBody\<rparr>"

definition text_or_empty :: "http_response \<Rightarrow> string" where
  "text_or_empty r = (case rs_body r of Inr t \<Rightarrow> t | Inl _ \<Rightarrow> [])"

definition api_failure :: "'w client_env \<Rightarrow> 'a snow_client \<Rightarrow> nat \<Rightarrow> string option \<Rightarrow> client_error" where
  "api_failure env c status body = ApiFailed (from_status (env_parse_json env) status (sc_base_url c) body)"

subsection \<open>The form login\<close>

definition login_request :: "http_url \<Rightarrow> http_url \<Rightarrow> string \<Rightarrow> string \<Rightarrow> string \<Rightarrow> http_request" where
  "login_request login_url current username password cookie_header =
     (let cookies = (if cookie_header \<noteq> [] then [(''cookie'', cookie_header)] else []) in
      if current = login_url
      then \<lparr>rq_method = POST, rq_url = url_text current, rq_params = [], rq_headers = html_accept # cookies,
            rq_body = FormBody [(''user_name'', username), (''sys_action'', ''sysverb_login''),
              (''user_password'', password)]\<rparr>
      else plain_get (url_text current) (html_accept # cookies))"

text \<open>\<open>for _ in 0..5\<close>: \<open>n\<close> hops are left; the loop ends with the cookies collected.\<close>

fun login_hops :: "'w client_env \<Rightarrow> 'a snow_client \<Rightarrow> string \<Rightarrow> string \<Rightarrow> http_url \<Rightarrow> nat \<Rightarrow> http_url \<Rightarrow> string
   \<Rightarrow> 'w host_world \<Rightarrow> (client_error + string) \<times> 'w host_world" where
  "login_hops env c username password login_url 0 current cookie_header w = (Inr cookie_header, w)"
| "login_hops env c username password login_url (Suc n) current cookie_header w =
     and_then (execute_request env False (login_request login_url current username password cookie_header) w)
       (\<lambda>response w.
         let cookie_header = merge_cookie_header (env_expired env (outside w)) cookie_header (rs_headers response) in
         if is_redirection response then
           (case Option.bind (header_value ''location'' (rs_headers response)) header_text of
              None \<Rightarrow> (Inl (Failed ''login.do redirect missing Location header''), w)
            | Some location \<Rightarrow> (case join_url (env_urls env) current location of
                None \<Rightarrow> (Inl (InvalidRequestUrl location), w)
              | Some next_url \<Rightarrow> (case client_url env c (url_text next_url) of
                  Inl e \<Rightarrow> (Inl e, w)
                | Inr _ \<Rightarrow> login_hops env c username password login_url n next_url cookie_header w)))
         else if \<not> is_success response
         then (Inl (api_failure env c (rs_status response) (Some (text_or_empty response))), w)
         else (Inr cookie_header, w))"

definition form_login_cookie_header ::
  "'w client_env \<Rightarrow> string \<Rightarrow> string \<Rightarrow> ('a, 'w, string) client_op" where
  "form_login_cookie_header env username password s = (case s of (c, w) \<Rightarrow>
     (case client_url env c ''/login.do'' of
        Inl e \<Rightarrow> (Inl e, s)
      | Inr u \<Rightarrow> (case parse_url (env_urls env) u of
          None \<Rightarrow> (Inl (InvalidRequestUrl u), s)
        | Some login_url \<Rightarrow>
            (case login_hops env c username password login_url 5 login_url [] w of
               (Inl e, w') \<Rightarrow> (Inl e, c, w')
             | (Inr cookies, w') \<Rightarrow>
                 (if cookies = [] then Inl (Failed ''login.do form login returned no Set-Cookie headers'')
                  else Inr cookies, c, w')))))"

subsection \<open>Bootstrapping a form session\<close>

definition no_token_error :: client_error where
  "no_token_error = Failed ''Could not extract g_ck token from the bootstrap response''"

definition ensure_form_session_with_cookie ::
  "'w client_env \<Rightarrow> string \<Rightarrow> string \<Rightarrow> ('a, 'w, unit) client_op" where
  "ensure_form_session_with_cookie env bootstrap_path login_cookie_header s =
     (case client_url env (fst s) bootstrap_path of
        Inl e \<Rightarrow> (Inl e, s)
      | Inr url \<Rightarrow>
          and_then (send_request env (plain_get url [html_accept, (''cookie'', login_cookie_header)]) s)
            (\<lambda>response s.
              if \<not> is_success response
              then (Inl (api_failure env (fst s) (rs_status response) (Some (text_or_empty response))), s)
              else if logged_in_header_value (rs_headers response) = Some False
              then (Inl (Failed ''Bootstrap still returned x-is-logged-in=false after login.do''), s)
              else (case extract_g_ck_from_body (text_or_empty response) of
                  None \<Rightarrow> (Inl no_token_error, s)
                | Some token \<Rightarrow>
                    (let cookie_header = merge_cookie_header (env_expired env (outside (snd s)))
                           login_cookie_header (rs_headers response)
                     in case read_cookie_value cookie_header ''JSESSIONID'' of
                          None \<Rightarrow> (Inl (Failed ''Could not determine JSESSIONID from login/bootstrap cookies''), s)
                        | Some jsessionid \<Rightarrow>
                            update_session (\<lambda>ss. ss\<lparr>ss_jsessionid := Some jsessionid,
                              ss_form_cookie_header := Some cookie_header, ss_form_session := Some token\<rparr>) s))))"

text \<open>What the bootstrap keeps of a page that carries a token.\<close>

definition keep_form_session ::
  "'w client_env \<Rightarrow> ('a, 'w) auth_ops \<Rightarrow> http_response \<Rightarrow> string \<Rightarrow> ('a, 'w, unit) client_op" where
  "keep_form_session env au response token s =
     (let native = native_session_credentials au (sc_authenticator (fst s));
          jsessionid = (case native of
            Some n \<Rightarrow> read_cookie_value (ns_cookie_header n) ''JSESSIONID''
          | None \<Rightarrow> ss_jsessionid (sc_session (fst s)))
      in case jsessionid of
           None \<Rightarrow> (Inl (Failed ''Could not determine JSESSIONID for form session''), s)
         | Some j \<Rightarrow>
             (let cookies = merge_cookie_header (env_expired env (outside (snd s))) [] (rs_headers response);
                  cookie_header = (if cookies = [] then ''JSESSIONID='' @ j else cookies)
              in and_then (update_session (\<lambda>ss. if native = None
                     then ss\<lparr>ss_form_cookie_header := Some cookie_header, ss_jsessionid := Some j\<rparr> else ss) s)
                 (\<lambda>_ s. and_then (on_authenticator (update_native_csrf au token) s)
                   (\<lambda>_ s. update_session (\<lambda>ss. if native = None then ss\<lparr>ss_form_session := Some token\<rparr>
                      else ss\<lparr>ss_native_form_bootstrapped := True\<rparr>) s))))"

definition bootstrap_form_session ::
  "'w client_env \<Rightarrow> ('a, 'w) auth_ops \<Rightarrow> string \<Rightarrow> ('a, 'w, unit) client_op" where
  "bootstrap_form_session env au bootstrap_path s =
     (case authorize_instance_request env (fst s) GET bootstrap_path of
        Inl e \<Rightarrow> (Inl e, s)
      | Inr url \<Rightarrow>
          if current_form_session au (fst s) \<noteq> None then (Inr (), s)
          else and_then (on_authenticator (authenticate au) s) (\<lambda>auth_headers s.
               and_then (send_request env (plain_get url (auth_headers @ [html_accept])) s) (\<lambda>response s.
               and_then (observe_session_response_headers env au (rs_headers response) s) (\<lambda>_ s.
                 if \<not> is_success response
                 then (Inl (api_failure env (fst s) (rs_status response) (Some (text_or_empty response))), s)
                 else if logged_in_header_value (rs_headers response) = Some False then
                   (case parse_basic_credentials (env_b64 env) auth_headers of
                      Some (username, password) \<Rightarrow>
                        and_then (form_login_cookie_header env username password s)
                          (ensure_form_session_with_cookie env bootstrap_path)
                    | None \<Rightarrow> (Inl (Failed ''Bootstrap returned x-is-logged-in=false''), s))
                 else (case extract_g_ck_from_body (text_or_empty response) of
                     None \<Rightarrow> (Inl no_token_error, s)
                   | Some token \<Rightarrow> keep_form_session env au response token s)))))"

definition ensure_form_session ::
  "'w client_env \<Rightarrow> ('a, 'w) auth_ops \<Rightarrow> string \<Rightarrow> ('a, 'w, string) client_op" where
  "ensure_form_session env au bootstrap_path s =
     and_then (bootstrap_form_session env au bootstrap_path s) (\<lambda>_ s.
       case current_form_session au (fst s) of
         Some token \<Rightarrow> (Inr token, s)
       | None \<Rightarrow> (Inl (Failed ''No form-session CSRF token is available''), s))"

subsection \<open>Background scripts\<close>

record background_script_options =
  rollback :: bool
  sandbox :: bool
  scriptlet :: bool
  quota_managed_transaction :: bool

record background_script_response =
  bs_status :: nat
  bs_final_url :: string
  bs_server_timing :: "string option"
  bs_body :: string

definition script_form :: "string \<Rightarrow> string \<Rightarrow> string \<Rightarrow> background_script_options \<Rightarrow> (string \<times> string) list" where
  "script_form script token scope options =
     [(''script'', script), (''runscript'', ''Run script''), (''sysparm_ck'', token), (''sys_scope'', scope)]
     @ (if rollback options then [(''record_for_rollback'', ''on'')] else [])
     @ (if sandbox options then [(''sandbox'', ''on'')] else [])
     @ (if scriptlet options then [(''scriptlet'', ''on'')] else [])
     @ (if quota_managed_transaction options then [(''quota_managed_transaction'', ''on'')] else [])"

definition form_script_request ::
  "string \<Rightarrow> string \<Rightarrow> string \<Rightarrow> string \<Rightarrow> string \<Rightarrow> background_script_options \<Rightarrow> http_request" where
  "form_script_request url cookie_header token script scope options =
     \<lparr>rq_method = POST, rq_url = url, rq_params = [],
      rq_headers = [html_accept, (''cookie'', cookie_header), (''x-usertoken'', token)],
      rq_body = FormBody (script_form script token scope options)\<rparr>"

definition json_script_request :: "'w client_env \<Rightarrow> string \<Rightarrow> string \<Rightarrow> string \<Rightarrow> headers \<Rightarrow> http_request" where
  "json_script_request env url script scope auth_headers =
     \<lparr>rq_method = POST, rq_url = url, rq_params = [], rq_headers = auth_headers @ json_headers,
      rq_body = TextBody (env_print_json env (JObject [(''script'', JString script), (''scope'', JString scope)]))\<rparr>"

text \<open>The request, by the protocol the endpoint needs.\<close>

definition script_request :: "'w client_env \<Rightarrow> ('a, 'w) auth_ops \<Rightarrow> string \<Rightarrow> string \<Rightarrow> string \<Rightarrow> string
   \<Rightarrow> background_script_options \<Rightarrow> ('a, 'w, http_request) client_op" where
  "script_request env au url endpoint script scope options s =
     (if endpoint_requires_form_session (env_urls env) endpoint then
        and_then (bootstrap_form_session env au form_script_bootstrap_path s) (\<lambda>_ s.
          case current_form_session au (fst s) of
            None \<Rightarrow> (Inl (Failed ''No form-session CSRF token is available''), s)
          | Some token \<Rightarrow> (case current_form_cookie_header au (fst s) of
              None \<Rightarrow> (Inl (Failed ''No form-session cookies are available''), s)
            | Some cookie_header \<Rightarrow> (Inr (form_script_request url cookie_header token script scope options), s)))
      else and_then (authenticate_classified au s)
             (\<lambda>auth_headers s. (Inr (json_script_request env url script scope auth_headers), s)))"

definition execute_background_script :: "'w client_env \<Rightarrow> ('a, 'w) auth_ops \<Rightarrow> (string \<Rightarrow> string) \<Rightarrow> string
   \<Rightarrow> string \<Rightarrow> string \<Rightarrow> background_script_options \<Rightarrow> ('a, 'w, background_script_response) client_op" where
  "execute_background_script env au enc endpoint script scope options s =
     (case authorize_instance_request env (fst s) POST endpoint of
        Inl e \<Rightarrow> (Inl e, s)
      | Inr url \<Rightarrow>
          and_then (script_request env au url endpoint script scope options s) (\<lambda>request s.
          and_then (send_request env request s) (\<lambda>response s.
          and_then (observe_session_response_headers env au (rs_headers response) s) (\<lambda>_ s.
            case response_text response of
              Inl e \<Rightarrow> (Inl e, s)
            | Inr body \<Rightarrow>
                (Inr \<lparr>bs_status = rs_status response, bs_final_url = rs_url response,
                   bs_server_timing = Option.bind (header_value ''server-timing'' (rs_headers response)) header_text,
                   bs_body = redact (observe_response enc (rs_headers response)
                     (observe_request enc (env_b64 env) (rq_headers request) [])) body\<rparr>, s)))))"

end
