(* ===== verification/Client_Safety.thy ===== *)
theory Client_Safety
  imports Form_Session
begin

text \<open>
  What the authenticated client puts on the wire: only requests to its own instance over a safe
  scheme, only reads under the read-only policy, and each request at most twice.
\<close>

subsection \<open>Laws of the URL library and of \<open>reqwest\<close>\<close>

text \<open>The text of a URL parses back to it, and only HTTP requests can be built.\<close>

definition url_texts_parse :: "url_lib \<Rightarrow> bool" where
  "url_texts_parse ul \<longleftrightarrow> (\<forall>s u. parse_url ul s = Some u \<longrightarrow> parse_url ul (url_text u) = Some u)
     \<and> (\<forall>b s u. join_url ul b s = Some u \<longrightarrow> parse_url ul (url_text u) = Some u)"

definition builds_http_only :: "'w client_env \<Rightarrow> bool" where
  "builds_http_only env \<longleftrightarrow> (\<forall>r. env_buildable env r \<longrightarrow>
     starts_with (rq_url r) ''http://'' \<or> starts_with (rq_url r) ''https://'')"

text \<open>A URL of the instance: safe, and of the same origin as the base URL.\<close>

definition instance_url :: "url_lib \<Rightarrow> string \<Rightarrow> string \<Rightarrow> bool" where
  "instance_url ul base_url u \<longleftrightarrow> (case (parse_url ul base_url, parse_url ul u) of
      (Some base, Some url) \<Rightarrow> is_safe_authenticated_url base \<and> is_safe_authenticated_url url \<and> same_origin base url
    | _ \<Rightarrow> False)"

lemma resolve_instance_url:
  assumes "url_texts_parse ul" "resolve_authenticated_url ul base_url path = Inr u"
  shows "instance_url ul base_url u"
  using assms
  by (auto simp: resolve_authenticated_url_def instance_url_def url_texts_parse_def
      split: option.splits if_splits)

text \<open>The check of a redirect target is the check of that URL, if it is an HTTP one.\<close>

lemma resolve_checks_url:
  assumes "url_texts_parse ul" "parse_url ul v = Some u" "v = url_text u"
    "resolve_authenticated_url ul base_url v = Inr t"
    "starts_with v ''http://'' \<or> starts_with v ''https://''"
  shows "instance_url ul base_url v"
  using assms by (auto simp: resolve_authenticated_url_def instance_url_def split: option.splits if_splits)

definition good_request :: "'w client_env \<Rightarrow> string \<Rightarrow> execution_policy \<Rightarrow> http_request \<Rightarrow> bool" where
  "good_request env base_url policy r \<longleftrightarrow> instance_url (env_urls env) base_url (rq_url r)
     \<and> (policy_mode_of policy = ReadOnly \<longrightarrow> rq_method r = GET)"

lemma authorize_good:
  assumes "url_texts_parse (env_urls env)" "authorize_instance_request env c method path = Inr url"
  shows "instance_url (env_urls env) (sc_base_url c) url"
    and "policy_mode_of (sc_policy c) = ReadOnly \<Longrightarrow> method = GET"
  using assms resolve_instance_url
  by (auto simp: authorize_instance_request_def client_url_def bind_result_Inr_iff ensure_request_allowed_iff
      map_sum_def split: sum.splits if_splits)

lemma request_inner_good:
  assumes "url_texts_parse (env_urls env)"
  shows "emits (good_request env (sc_base_url (fst s)) (sc_policy (fst s))) s
    (snd (request_inner env au method path body params extra_headers s))"
  by (rule emits_request_inner) (use authorize_good [OF assms] in \<open>auto simp: good_request_def build_request_def\<close>)

lemma one_request_good:
  assumes "url_texts_parse (env_urls env)" "authorize_instance_request env (fst s) method path = Inr url"
    "\<And>h. rq_url (r h) = url" "\<And>h. rq_method (r h) = method"
  shows "emits (good_request env (sc_base_url (fst s)) (sc_policy (fst s))) s (snd (one_request env au r s))"
  by (rule emits_one_request) (use authorize_good [OF assms(1,2)] assms(3,4) in \<open>auto simp: good_request_def\<close>)

subsection \<open>The form login stays on the instance\<close>

text \<open>The login runs on the world only; its requests are those of a client it does not change.\<close>

lemma emits_execute:
  "P request \<Longrightarrow> emits P (c, w) (c, snd (execute_request env redirects request w))"
  by (auto simp: emits_def execute_request_def split: prod.split)

lemma execute_unbuildable: "\<not> env_buildable env request \<Longrightarrow> execute_request env r request w = (Inl (Failed ''request could not be built''), w)"
  by (simp add: execute_request_def)

lemma emits_execute_buildable:
  "(env_buildable env request \<Longrightarrow> P request) \<Longrightarrow> emits P (c, w) (c, snd (execute_request env redirects request w))"
  by (cases "env_buildable env request") (simp_all add: emits_execute execute_unbuildable log.rel_refl)

interpretation wire: run_relation "\<lambda>w w'. emits P (c, w) (c, w')" for P c
  by unfold_locales (auto intro: log.rel_refl log.rel_trans)

abbreviation on_instance :: "'w client_env \<Rightarrow> string \<Rightarrow> http_request \<Rightarrow> bool" where
  "on_instance env base_url r \<equiv> instance_url (env_urls env) base_url (rq_url r)"

definition login_hop :: "'w client_env \<Rightarrow> string \<Rightarrow> http_url \<Rightarrow> bool" where
  "login_hop env base_url u \<longleftrightarrow> parse_url (env_urls env) (url_text u) = Some u
     \<and> (starts_with (url_text u) ''http://'' \<or> starts_with (url_text u) ''https://''
          \<longrightarrow> instance_url (env_urls env) base_url (url_text u))"

lemma login_request_url [simp]: "rq_url (login_request l u n p ck) = url_text u"
  by (simp add: login_request_def plain_get_def Let_def)

lemma login_hop_emits:
  assumes "builds_http_only env" "login_hop env (sc_base_url c) u"
  shows "emits (on_instance env (sc_base_url c)) (c, w)
    (c, snd (execute_request env False (login_request l u n p ck) w))"
  by (rule emits_execute_buildable) (use assms in \<open>auto simp: login_hop_def builds_http_only_def\<close>)

lemma next_hop:
  assumes "url_texts_parse (env_urls env)" "join_url (env_urls env) current location = Some u"
    "client_url env c (url_text u) = Inr t"
  shows "login_hop env (sc_base_url c) u"
proof -
  have "parse_url (env_urls env) (url_text u) = Some u" using assms(1,2) by (auto simp: url_texts_parse_def)
  then show ?thesis
    using resolve_checks_url [OF assms(1) _ refl, of u "sc_base_url c" t] assms(3)
    by (auto simp: login_hop_def client_url_def)
qed

lemma login_hops_emits:
  assumes "builds_http_only env" "url_texts_parse (env_urls env)" "login_hop env (sc_base_url c) u"
  shows "emits (on_instance env (sc_base_url c)) (c, w)
    (c, snd (login_hops env c username password l n u ck w))"
  using assms(3)
proof (induction n arbitrary: u ck w)
  case 0
  show ?case by (simp add: log.rel_refl)
next
  case (Suc n)
  show ?case unfolding login_hops.simps
  proof (rule wire.and_then_rel, rule login_hop_emits [OF assms(1) Suc.prems])
    fix response w1
    show "emits (on_instance env (sc_base_url c)) (c, w1) (c, snd
      (let ck' = merge_cookie_header (env_expired env (outside w1)) ck (rs_headers response) in
       if is_redirection response then
         (case Option.bind (header_value ''location'' (rs_headers response)) header_text of
            None \<Rightarrow> (Inl (Failed ''login.do redirect missing Location header''), w1)
          | Some location \<Rightarrow> (case join_url (env_urls env) u location of
              None \<Rightarrow> (Inl (InvalidRequestUrl location), w1)
            | Some v \<Rightarrow> (case client_url env c (url_text v) of
                Inl e \<Rightarrow> (Inl e, w1)
              | Inr _ \<Rightarrow> login_hops env c username password l n v ck' w1)))
       else if \<not> is_success response
       then (Inl (api_failure env c (rs_status response) (Some (text_or_empty response))), w1)
       else (Inr ck', w1)))"
      by (auto simp: Let_def log.rel_refl split: option.split sum.split
          intro!: Suc.IH intro: next_hop [OF assms(2)])
  qed
qed

lemma lift_wire:
  "emits P (c, w) (c, snd rw) \<Longrightarrow>
     emits P (c, w) (snd (case rw of (Inl e, w') \<Rightarrow> (Inl e, c, w') | (Inr x, w') \<Rightarrow> (f x, c, w')))"
  by (cases rw; cases "fst rw") auto

lemma form_login_emits:
  assumes "builds_http_only env" "url_texts_parse (env_urls env)"
  shows "emits (on_instance env (sc_base_url (fst s))) s (snd (form_login_cookie_header env username password s))"
proof -
  obtain c w where s: "s = (c, w)" by (cases s)
  have "emits (on_instance env (sc_base_url c)) (c, w) (c, snd (login_hops env c username password l 5 l [] w))"
    if "client_url env c ''/login.do'' = Inr u" "parse_url (env_urls env) u = Some l" for u l
  proof (rule login_hops_emits [OF assms])
    have "instance_url (env_urls env) (sc_base_url c) u"
      using resolve_instance_url [OF assms(2)] that(1) by (simp add: client_url_def)
    moreover have "\<exists>v. u = url_text v \<and> parse_url (env_urls env) u = Some v"
      using that(1) assms(2) by (auto simp: client_url_def resolve_authenticated_url_def url_texts_parse_def
          split: option.splits if_splits)
    ultimately show "login_hop env (sc_base_url c) l" using that(2) by (auto simp: login_hop_def)
  qed
  then show ?thesis
    by (auto simp: s form_login_cookie_header_def log.rel_refl split: sum.split option.split
        intro!: lift_wire)
qed


subsection \<open>Every operation\<close>

lemma emits_update_session [emits_intros]: "emits P s (snd (update_session f s))"
  by (cases s) (simp add: update_session_def emits_def)

text \<open>The same for operations of a client with a given base URL and policy.\<close>

definition emits_at ::
  "string \<Rightarrow> execution_policy \<Rightarrow> (http_request \<Rightarrow> bool) \<Rightarrow> 'a snow_client \<times> 'w host_world \<Rightarrow> 'a snow_client \<times> 'w host_world \<Rightarrow> bool" where
  "emits_at base_url policy P s s' \<longleftrightarrow>
     (sc_base_url (fst s) = base_url \<and> sc_policy (fst s) = policy \<longrightarrow> emits P s s')"

interpretation own: run_relation "emits_at base_url policy P" for base_url policy P
proof
  show "emits_at base_url policy P s s" for s :: "'a snow_client \<times> 'b host_world"
    by (simp add: emits_at_def log.rel_refl)
  show "emits_at base_url policy P s u" if "emits_at base_url policy P s t" "emits_at base_url policy P t u"
    for s t u :: "'a snow_client \<times> 'b host_world"
    using that log.rel_trans [of P s t u] by (auto simp: emits_at_def emits_def)
qed

named_theorems own_intros "what the operations of one client put on the wire"

lemma emits_imp_at: "emits P s s' \<Longrightarrow> emits_at base_url policy P s s'"
  by (simp add: emits_at_def)

lemma emits_at_start:
  "(sc_base_url (fst s) = base_url \<Longrightarrow> sc_policy (fst s) = policy \<Longrightarrow> emits_at base_url policy P s s')
     \<Longrightarrow> emits_at base_url policy P s s'"
  by (auto simp: emits_at_def)

lemmas own_basics [own_intros] = emits_intros [THEN emits_imp_at]

lemma plain_get_url [simp]: "rq_url (plain_get url hs) = url" "rq_method (plain_get url hs) = GET"
  by (simp_all add: plain_get_def)

lemma ensure_with_cookie_emits [own_intros]:
  assumes "url_texts_parse (env_urls env)"
  shows "emits_at b p (on_instance env b) s (snd (ensure_form_session_with_cookie env path ck s))"
proof (rule emits_at_start, cases "client_url env (fst s) path")
  case (Inr url)
  assume "sc_base_url (fst s) = b"
  with Inr have "instance_url (env_urls env) b url"
    using resolve_instance_url [OF assms] by (auto simp: client_url_def)
  then show ?thesis
    by (auto simp: ensure_form_session_with_cookie_def Inr own.rel_refl Let_def
        intro!: own.and_then_rel own_intros split: option.split)
qed (simp add: ensure_form_session_with_cookie_def own.rel_refl)

lemma form_login_at [own_intros]:
  assumes "builds_http_only env" "url_texts_parse (env_urls env)"
  shows "emits_at b p (on_instance env b) s (snd (form_login_cookie_header env username password s))"
  using form_login_emits [OF assms, of s username password] by (auto simp: emits_at_def)

lemma keep_form_session_emits [own_intros]:
  "emits_at b p P s (snd (keep_form_session env au response token s))"
  by (auto simp: keep_form_session_def Let_def own.rel_refl intro!: own.and_then_rel own_intros split: option.split)

lemma bootstrap_emits [own_intros]:
  assumes "builds_http_only env" "url_texts_parse (env_urls env)"
  shows "emits_at b p (on_instance env b) s (snd (bootstrap_form_session env au path s))"
proof (rule emits_at_start, cases "authorize_instance_request env (fst s) GET path")
  case (Inr url)
  assume "sc_base_url (fst s) = b"
  with Inr have url: "instance_url (env_urls env) b url"
    using authorize_good(1) [OF assms(2)] by fastforce
  show ?thesis
    by (auto simp: bootstrap_form_session_def Inr own.rel_refl url assms
        intro!: own.and_then_rel own_intros split: option.split)
qed (simp add: bootstrap_form_session_def own.rel_refl)

lemma script_request_emits [own_intros]:
  assumes "builds_http_only env" "url_texts_parse (env_urls env)"
  shows "emits_at b p (on_instance env b) s (snd (script_request env au url endpoint script scope options s))"
  by (auto simp: script_request_def own.rel_refl assms intro!: own.and_then_rel own_intros split: option.split)

lemma script_request_url:
  "script_request env au url endpoint script scope options s = (Inr r, s') \<Longrightarrow> rq_url r = url"
proof (cases "endpoint_requires_form_session (env_urls env) endpoint")
  case True
  assume "script_request env au url endpoint script scope options s = (Inr r, s')"
  with True obtain t where "(case current_form_session au (fst t) of
      None \<Rightarrow> (Inl (Failed ''No form-session CSRF token is available''), t)
    | Some token \<Rightarrow> (case current_form_cookie_header au (fst t) of
        None \<Rightarrow> (Inl (Failed ''No form-session cookies are available''), t)
      | Some ck \<Rightarrow> (Inr (form_script_request url ck token script scope options), t))) = (Inr r, s')"
    by (auto simp: script_request_def and_then_Inr_iff)
  then show ?thesis
    by (cases "current_form_session au (fst t)"; cases "current_form_cookie_header au (fst t)")
      (auto simp: form_script_request_def)
qed (auto simp: script_request_def and_then_Inr_iff json_script_request_def)

lemma script_emits:
  assumes "builds_http_only env" "url_texts_parse (env_urls env)"
  shows "emits_at b p (good_request env b p) s
    (snd (execute_background_script env au enc endpoint script scope options s))"
proof (rule emits_at_start, cases "authorize_instance_request env (fst s) POST endpoint")
  case (Inr url)
  assume b: "sc_base_url (fst s) = b" and p: "sc_policy (fst s) = p"
  have url: "instance_url (env_urls env) b url" "policy_mode_of p \<noteq> ReadOnly"
    using authorize_good [OF assms(2) Inr] b p by auto
  have "emits_at b p (on_instance env b) s
    (snd (execute_background_script env au enc endpoint script scope options s))"
    by (auto simp: execute_background_script_def Inr own.rel_refl url assms script_request_url
        intro!: own.and_then_rel own_intros split: sum.split)
  then show ?thesis using url(2) by (auto simp: emits_at_def good_request_def elim: emits_mono)
qed (simp add: execute_background_script_def own.rel_refl)

text \<open>A call of the client's interface.\<close>

datatype client_call =
    RequestCall http_method string "string option" "(string \<times> string) list"
  | RawCall http_method string "string option" "(string \<times> string) list" headers
  | GraphqlCall string json
  | UploadCall string string string string
  | DownloadCall string
  | ScriptCall string string string background_script_options

fun run_call :: "'w client_env \<Rightarrow> ('a, 'w) auth_ops \<Rightarrow> (string \<Rightarrow> string) \<Rightarrow> client_call
   \<Rightarrow> 'a snow_client \<times> 'w host_world \<Rightarrow> 'a snow_client \<times> 'w host_world" where
  "run_call env au enc (RequestCall m path body params) s = snd (client_request env au m path body params s)"
| "run_call env au enc (RawCall m path body params hs) s = snd (request_with_headers env au m path body params hs s)"
| "run_call env au enc (GraphqlCall query variables) s = snd (execute_graphql env au query variables s)"
| "run_call env au enc (UploadCall table sys_id name bytes) s = snd (upload_attachment env au table sys_id name bytes s)"
| "run_call env au enc (DownloadCall path) s = snd (download_attachment env au path s)"
| "run_call env au enc (ScriptCall endpoint script scope options) s =
     snd (execute_background_script env au enc endpoint script scope options s)"

lemma request_inner_at:
  "url_texts_parse (env_urls env) \<Longrightarrow>
     emits_at b p (good_request env b p) s (snd (request_inner env au m path body params hs s))"
  using request_inner_good [of env s au m path body params hs] by (auto simp: emits_at_def)

lemma call_emits:
  assumes "builds_http_only env" "url_texts_parse (env_urls env)"
  shows "emits_at b p (good_request env b p) s (run_call env au enc call s)"
proof (cases call)
  case (RequestCall m path body params)
  then show ?thesis by (simp add: client_request_def request_inner_at assms)
next
  case (RawCall m path body params hs)
  then show ?thesis
    by (auto simp: request_with_headers_def request_inner_at assms own.rel_refl split: sum.split)
next
  case (GraphqlCall query variables)
  then show ?thesis
    by (auto simp: execute_graphql_def post_json_def client_post_def client_request_def own.rel_refl assms
        intro!: own.and_then_rel own_intros request_inner_at)
next
  case (UploadCall table sys_id name bytes)
  have "emits_at b p (good_request env b p) s (snd (one_request env au (upload_request url table sys_id name bytes) s))"
    if "authorize_instance_request env (fst s) POST ''/api/now/attachment/upload'' = Inr url" for url
    using one_request_good [OF assms(2) that] by (auto simp: emits_at_def upload_request_def Let_def)
  then show ?thesis using UploadCall
    by (auto simp: upload_attachment_def own.rel_refl split: sum.split)
next
  case (DownloadCall path)
  have "emits_at b p (good_request env b p) s (snd (one_request env au (download_request url) s))"
    if "authorize_instance_request env (fst s) GET path = Inr url" for url
    using one_request_good [OF assms(2) that] by (auto simp: emits_at_def download_request_def)
  then show ?thesis using DownloadCall
    by (auto simp: download_attachment_def own.rel_refl split: sum.split)
next
  case (ScriptCall endpoint script scope options)
  then show ?thesis by (simp add: script_emits assms)
qed

lemma calls_emit:
  assumes "builds_http_only env" "url_texts_parse (env_urls env)"
  shows "emits_at b p (good_request env b p) s (fold (run_call env au enc) calls s)"
proof (induction calls arbitrary: s)
  case (Cons c calls)
  show ?case using own.rel_trans [OF call_emits [OF assms] Cons] by simp
qed (simp add: own.rel_refl)


text \<open>A small world for the witnesses: one instance, and a server that answers from a list.\<close>

definition demo_url :: "string \<Rightarrow> string \<Rightarrow> http_url" where
  "demo_url path txt = \<lparr>pu_scheme = ''https'', pu_host = Some ''x'', pu_port = Some 443,
     url_path = path, url_text = txt, url_origin = Some (''https'', ''x'', 443)\<rparr>"

definition demo_urls :: url_lib where
  "demo_urls = \<lparr>parse_url = (\<lambda>s. if s = ''https://x'' \<or> s = ''https://x/'' then Some (demo_url ''/'' ''https://x/'')
       else if s = ''https://x/a'' then Some (demo_url ''/a'' ''https://x/a'') else None),
     join_url = (\<lambda>b s. if s = ''/a'' then Some (demo_url ''/a'' ''https://x/a'') else None)\<rparr>"

definition demo_env :: "http_response list client_env" where
  "demo_env = \<lparr>env_urls = demo_urls,
     env_execute = (\<lambda>_ _ rs. case rs of [] \<Rightarrow> (Inl RequestTimeout, []) | r # rs \<Rightarrow> (Inr r, rs)),
     env_buildable = (\<lambda>r. starts_with (rq_url r) ''http://'' \<or> starts_with (rq_url r) ''https://''),
     env_parse_json = (\<lambda>_. None), env_print_json = (\<lambda>_. []), env_expired = (\<lambda>_ _. None), env_b64 = (\<lambda>_. None)\<rparr>"

definition demo_auth :: "bool \<Rightarrow> (nat, http_response list) auth_ops" where
  "demo_auth refreshes = \<lparr>authenticate = (\<lambda>a w. (Inr [(''authorization'', show_nat a)], a, w)),
     refresh = (\<lambda>a w. (Inr refreshes, a + 1, w)), observe_response_headers = (\<lambda>_ a w. (Inr (), a, w)),
     native_session_credentials = (\<lambda>_. None), update_native_csrf = (\<lambda>_ a w. (Inr (), a, w)),
     auth_type = (\<lambda>_. Oauth2)\<rparr>"

definition demo_client :: "execution_policy \<Rightarrow> nat snow_client" where
  "demo_client p = \<lparr>sc_base_url = ''https://x'', sc_authenticator = 0, sc_session = no_session,
     sc_policy = p, sc_redirects = True\<rparr>"

definition demo_response :: "nat \<Rightarrow> http_response" where
  "demo_response status = \<lparr>rs_status = status, rs_headers = [], rs_url = ''https://x/a'', rs_body = Inr ''{}''\<rparr>"

lemma demo_laws: "builds_http_only demo_env" "url_texts_parse (env_urls demo_env)"
  by (simp_all add: builds_http_only_def url_texts_parse_def demo_env_def demo_urls_def demo_url_def)

lemma demo_read:
  "sent (snd (fold (run_call demo_env (demo_auth True) id) [RequestCall GET ''/a'' None [], RequestCall POST ''/a'' None []]
      (demo_client read_only, \<lparr>outside = [demo_response 200], sent = []\<rparr>)))
    = [build_request GET ''https://x/a'' None [] [] [(''authorization'', show_nat 0)]]"
  by code_simp


definition same_request :: "http_request \<Rightarrow> http_request \<Rightarrow> bool" where
  "same_request a b \<longleftrightarrow> rq_method a = rq_method b \<and> rq_url a = rq_url b \<and> rq_params a = rq_params b
     \<and> rq_body a = rq_body b"

lemma silent: "emits (\<lambda>_. False) s s' \<Longrightarrow> sent (snd s') = sent (snd s)"
  by (auto simp: emits_def list_all_iff)

lemmas silent_steps = emits_authenticate [THEN silent] emits_refresh [THEN silent] emits_observe [THEN silent]

lemma send_request_logs:
  "send_request env r s = (Inr response, s') \<Longrightarrow> sent (snd s') = sent (snd s) @ [r]"
  "\<exists>new. sent (snd (snd (send_request env r s))) = sent (snd s) @ new \<and> (new = [] \<or> new = [r])"
  by (auto simp: send_request_def execute_request_def split: prod.splits if_splits)

text \<open>Why there is a second attempt.\<close>

definition second_attempt_due ::
  "'w client_env \<Rightarrow> ('a, 'w) auth_ops \<Rightarrow> http_request \<Rightarrow> bool" where
  "second_attempt_due env au r \<longleftrightarrow>
     (\<exists>(t :: 'a snow_client \<times> 'w host_world) response u (v :: 'a snow_client \<times> 'w host_world) v'.
        send_request env r t = (Inr response, u) \<and> rs_status response = 401
        \<and> refresh_classified au v = (Inr True, v'))"

definition logged_attempts ::
  "'w client_env \<Rightarrow> ('a, 'w) auth_ops \<Rightarrow> (headers \<Rightarrow> http_request) \<Rightarrow> nat \<Rightarrow> http_request list \<Rightarrow> bool" where
  "logged_attempts env au request n new \<longleftrightarrow> length new \<le> n \<and> (\<forall>r\<in>set new. \<exists>h. r = request h)
     \<and> (2 \<le> length new \<longrightarrow> second_attempt_due env au (hd new))"

text \<open>What comes after the first response of an attempt: the end, or another attempt.\<close>

lemma logged_attempts_more:
  assumes "second_attempt_due env au (request h)" "logged_attempts env au request n new"
  shows "logged_attempts env au request (Suc n) (request h # new)"
  using assms by (auto simp: logged_attempts_def)

lemma after_response_log:
  assumes send: "send_request env (request h) s1 = (Inr response, s2)" and "sent (snd s1) = log0"
    and more: "\<And>s. 0 < n \<Longrightarrow> \<exists>new. sent (snd (snd (attempt s))) = sent (snd s) @ new \<and> logged_attempts env au request n new"
  shows "\<exists>new. sent (snd (snd (and_then (observe_session_response_headers env au (rs_headers response) s2) (\<lambda>_ s.
       let finish = (\<lambda>s. if is_success response then (Inr response, s) else (Inl (e s), s))
       in if rs_status response = 401 \<and> 0 < n
          then and_then (refresh_classified au s) (\<lambda>refreshed s. if refreshed then attempt s else finish s)
          else finish s)))) = log0 @ new \<and> logged_attempts env au request (Suc n) new"
proof -
  have one: "logged_attempts env au request (Suc n) [request h]" by (simp add: logged_attempts_def exI [of _ h])
  have s2: "sent (snd s2) = log0 @ [request h]" using send_request_logs(1) [OF send] assms(2) by simp
  obtain c s3 where observe: "observe_session_response_headers env au (rs_headers response) s2 = (c, s3)"
    by (rule prod.exhaust)
  then have s3: "sent (snd s3) = log0 @ [request h]"
    using silent_steps(3) [of env au "rs_headers response" s2] s2 by simp
  obtain d s4 where refresh: "refresh_classified au s3 = (d, s4)" by (rule prod.exhaust)
  then have s4: "sent (snd s4) = log0 @ [request h]" using silent_steps(2) [of au s3] s3 by simp
  show ?thesis
  proof (cases "(\<exists>x. c = Inr x) \<and> d = Inr True \<and> rs_status response = 401 \<and> 0 < n")
    case True
    obtain new where new: "sent (snd (snd (attempt s4))) = sent (snd s4) @ new" "logged_attempts env au request n new"
      using more [of s4] True by auto
    have "second_attempt_due env au (request h)"
      using send refresh True unfolding second_attempt_due_def by blast
    from logged_attempts_more [OF this new(2)] show ?thesis
      using observe refresh True s4 new(1) by (auto simp: Let_def)
  qed (use observe refresh s3 s4 one in \<open>cases c; cases d; auto simp: Let_def\<close>)
qed

lemma attempts_log:
  "\<exists>new. sent (snd (snd (request_attempts env au request n s))) = sent (snd s) @ new
     \<and> logged_attempts env au request (Suc n) new"
proof (induction n arbitrary: s rule: less_induct)
  case (less n)
  obtain a s1 where auth: "authenticate_classified au s = (a, s1)" by (rule prod.exhaust)
  then have s1: "sent (snd s1) = sent (snd s)" using silent_steps(1) [of au s] by simp
  have none: "logged_attempts env au request (Suc n) []" by (simp add: logged_attempts_def)
  have one: "logged_attempts env au request (Suc n) [request h]" for h by (simp add: logged_attempts_def exI [of _ h])
  show ?case
  proof (cases a)
    case (Inl e)
    then show ?thesis using auth s1 none by (subst request_attempts.simps) auto
  next
    case h: (Inr h)
    obtain b s2 where send: "send_request env (request h) s1 = (b, s2)" by (rule prod.exhaust)
    show ?thesis
    proof (cases b)
      case (Inl e)
      then show ?thesis using auth h send s1 none one [of h] send_request_logs(2) [of env "request h" s1]
        by (subst request_attempts.simps) auto
    next
      case (Inr response)
      have "\<exists>new. sent (snd (snd (request_attempts env au request (n - 1) t))) = sent (snd t) @ new
          \<and> logged_attempts env au request n new" if "0 < n" for t
        using less.IH [of "n - 1" t] that by simp
      from after_response_log [where request = request and h = h, OF send [unfolded Inr] s1 this]
      show ?thesis using auth h send Inr
        by (subst request_attempts.simps) simp
    qed
  qed
qed

text \<open>
  C27. A request is sent at most twice, the second time only when the instance answered 401 and the
  authenticator says that it refreshed its credentials; both attempts are the same request but
  for the authentication headers. A request the policy or the URL check refuses is not sent, and
  the authenticator is not asked for credentials.
\<close>


theorem request_is_sent_at_most_twice:
  assumes "request_inner env au method path body params hs s = (result, s')"
  shows "\<exists>new. sent (snd s') = sent (snd s) @ new \<and> length new \<le> 2
    \<and> (\<forall>r\<in>set new. \<exists>url. authorize_instance_request env (fst s) method path = Inr url
         \<and> same_request r (build_request method url body params hs []))
    \<and> (length new = 2 \<longrightarrow> second_attempt_due env au (hd new))
    \<and> (\<forall>e. authorize_instance_request env (fst s) method path = Inl e \<longrightarrow> result = Inl e \<and> s' = s)"
proof (cases "authorize_instance_request env (fst s) method path")
  case (Inl e)
  then show ?thesis using assms by (auto simp: request_inner_def)
next
  case (Inr url)
  then show ?thesis
    using attempts_log [of env au "build_request method url body params hs" 1 s] assms
    by (fastforce simp: request_inner_def max_auth_retries_def logged_attempts_def same_request_def build_request_def)
qed

lemma demo_retry:
  "sent (snd (snd (request_inner demo_env (demo_auth True) GET ''/a'' None [] []
      (demo_client full_access, \<lparr>outside = [demo_response 401, demo_response 200], sent = []\<rparr>))))
    = [build_request GET ''https://x/a'' None [] [] [(''authorization'', show_nat 0)],
       build_request GET ''https://x/a'' None [] [] [(''authorization'', show_nat 1)]]"
  by code_simp

theorem request_is_sent_at_most_twice_witness:
  "\<exists>first second. sent (snd (snd (request_inner demo_env (demo_auth True) GET ''/a'' None [] []
      (demo_client full_access, \<lparr>outside = [demo_response 401, demo_response 200], sent = []\<rparr>)))) = [first, second]
    \<and> same_request first second \<and> second_attempt_due demo_env (demo_auth True) first"
  using request_is_sent_at_most_twice [of demo_env "demo_auth True" GET "''/a''" None "[]" "[]"
      "(demo_client full_access, \<lparr>outside = [demo_response 401, demo_response 200], sent = []\<rparr>)", OF surjective_pairing]
    demo_retry
  by (auto simp: same_request_def)

end
