(* ===== verification/Btree_Map.thy ===== *)
theory Btree_Map
  imports Hash_Map "HOL-Library.List_Lexorder" "HOL-Library.Char_ord"
begin

text \<open>
  \<open>BTreeMap\<close> and \<open>BTreeSet\<close> with string keys: an association list in the order of its keys, and
  a sorted list without duplicates. Strings are compared byte by byte.
\<close>

type_synonym 'v btree_map = "(string \<times> 'v) list"
type_synonym btree_set = "string list"

definition bt_get :: "'v btree_map \<Rightarrow> string \<Rightarrow> 'v option" where
  "bt_get m k = map_of m k"

fun bt_insert :: "string \<Rightarrow> 'v \<Rightarrow> 'v btree_map \<Rightarrow> 'v btree_map" where
  "bt_insert k v [] = [(k, v)]"
| "bt_insert k v ((k', v') # m) =
     (if k < k' then (k, v) # (k', v') # m
      else if k = k' then (k, v) # m
      else (k', v') # bt_insert k v m)"

definition bt_remove :: "string \<Rightarrow> 'v btree_map \<Rightarrow> 'v btree_map" where
  "bt_remove k m = filter (\<lambda>(k', v). k' \<noteq> k) m"

definition bt_keys :: "'v btree_map \<Rightarrow> string list" where
  "bt_keys m = map fst m"

definition bt_collect :: "(string \<times> 'v) list \<Rightarrow> 'v btree_map" where
  "bt_collect kvs = fold (\<lambda>(k, v). bt_insert k v) kvs []"

definition bs_collect :: "string list \<Rightarrow> btree_set" where
  "bs_collect xs = sort (remdups xs)"

definition bt_wf :: "'v btree_map \<Rightarrow> bool" where
  "bt_wf m \<longleftrightarrow> sorted_wrt (<) (bt_keys m)"

interpretation bt: key_value_map "[]" bt_get bt_insert bt_remove
proof
  show "bt_get (bt_insert k v m) k' = (if k' = k then Some v else bt_get m k')" for k k' and v :: 'a and m
    by (induction k v m rule: bt_insert.induct) (auto simp: bt_get_def)
  show "bt_get (bt_remove k m) k' = (if k' = k then None else bt_get m k')" for k k' and m :: "'a btree_map"
    by (induction m) (auto simp: bt_get_def bt_remove_def)
qed (simp add: bt_get_def)

lemma bt_keys_set: "set (bt_keys m) = bt.key_set m"
  by (auto simp: bt_keys_def bt.key_set_def bt_get_def map_of_eq_None_iff)

lemma bt_keys_Nil [simp]: "bt_keys m = [] \<longleftrightarrow> m = []"
  by (simp add: bt_keys_def)

lemma bt_insert_neq_Nil [simp]: "bt_insert k v m \<noteq> []"
  by (cases "(k, v, m)" rule: bt_insert.cases) auto

lemma set_bt_keys [simp]:
  "set (bt_keys []) = {}"
  "set (bt_keys (bt_insert k v m)) = insert k (set (bt_keys m))"
  "set (bt_keys (bt_remove k m)) = set (bt_keys m) - {k}"
  by (simp_all add: bt_keys_set bt.key_set_empty bt.key_set_insert bt.key_set_remove)

lemma bt_get_None_iff: "bt_get m k = None \<longleftrightarrow> k \<notin> set (bt_keys m)"
  by (auto simp: bt_keys_set bt.key_set_def)

lemma bt_wf_Nil [simp]: "bt_wf []"
  by (simp add: bt_wf_def bt_keys_def)

lemma bt_wf_Cons: "bt_wf ((k, v) # m) \<longleftrightarrow> (\<forall>x \<in> set (bt_keys m). k < x) \<and> bt_wf m"
  by (simp add: bt_wf_def bt_keys_def)

lemma bt_keys_Cons [simp]: "bt_keys ((k, v) # m) = k # bt_keys m"
  by (simp add: bt_keys_def)

lemma bt_wf_insert [simp]: "bt_wf m \<Longrightarrow> bt_wf (bt_insert k v m)"
proof (induction m)
  case (Cons kv m)
  obtain k' v' where [simp]: "kv = (k', v')" by (cases kv)
  have "k < x" if "k < k'" "x \<in> set (bt_keys m)" for x
    using that Cons.prems by (auto simp: bt_wf_Cons intro: less_trans)
  then show ?case
    using Cons by (auto simp: bt_wf_Cons)
qed (simp add: bt_wf_def bt_keys_def)

lemma bt_wf_remove [simp]: "bt_wf m \<Longrightarrow> bt_wf (bt_remove k m)"
  by (auto simp: bt_wf_def bt_keys_def bt_remove_def sorted_wrt_map intro: sorted_wrt_filter)

lemma bt_wf_distinct: "bt_wf m \<Longrightarrow> distinct (bt_keys m)"
  by (simp add: bt_wf_def strict_sorted_iff)

lemma bt_wf_collect [simp]: "bt_wf (bt_collect kvs)"
proof -
  have "bt_wf m \<Longrightarrow> bt_wf (fold (\<lambda>(k, v). bt_insert k v) kvs m)" for m
    by (induction kvs arbitrary: m) auto
  then show ?thesis by (simp add: bt_collect_def)
qed

lemma bt_get_collect: "bt_get (bt_collect kvs) k = map_of (rev kvs) k"
  using bt.get_fold_insert [of kvs "[]" k] by (simp add: bt_collect_def bt.get_empty split: option.splits)

lemma bs_collect [simp]: "set (bs_collect xs) = set xs" "distinct (bs_collect xs)" "sorted (bs_collect xs)"
  by (simp_all add: bs_collect_def)

lemma bs_collect_Nil [simp]: "bs_collect xs = [] \<longleftrightarrow> xs = []"
  by (metis bs_collect(1) set_empty)

lemma length_bt_remove: "k \<in> set (bt_keys m) \<Longrightarrow> length (bt_remove k m) < length m"
  by (induction m) (auto simp: bt_keys_def bt_remove_def intro: le_imp_less_Suc)

end
