(* ===== verification/Dependency_Order.thy ===== *)
theory Dependency_Order
  imports Btree_Map "HOL-Library.While_Combinator"
begin

text \<open>
  The two orders of tables by their dependencies: the queue of \<open>topo_sort_dependencies\<close>
  (\<open>src/src/cli/commands/data/package.rs\<close>) and the repeated scan of \<open>topological_order\<close>
  (\<open>src/src/cli/commands/seed.rs\<close>). Both get the tables with their dependencies and answer
  an order, or the tables left over (\<open>Inl\<close>), which the code names in its error. One interface
  says what the callers rely on; both algorithms are instances of it.
\<close>

type_synonym dependencies = "btree_set btree_map"

definition deps_of :: "dependencies \<Rightarrow> string \<Rightarrow> string set" where
  "deps_of deps t = (case bt_get deps t of Some ds \<Rightarrow> set ds | None \<Rightarrow> {})"

text \<open>An order: every table once, and after all its dependencies.\<close>

definition follows_dependencies :: "dependencies \<Rightarrow> string list \<Rightarrow> bool" where
  "follows_dependencies deps ts \<longleftrightarrow> distinct ts \<and> set ts \<subseteq> set (bt_keys deps)
     \<and> (\<forall>i < length ts. deps_of deps (ts ! i) \<subseteq> set (take i ts))"

definition dependency_order :: "dependencies \<Rightarrow> string list \<Rightarrow> bool" where
  "dependency_order deps ts \<longleftrightarrow> follows_dependencies deps ts \<and> set ts = set (bt_keys deps)"

text \<open>A reason why there is none: tables that each depend on one of them or on an unknown one.\<close>

definition blocked_tables :: "dependencies \<Rightarrow> string list \<Rightarrow> bool" where
  "blocked_tables deps names \<longleftrightarrow> names \<noteq> [] \<and> set names \<subseteq> set (bt_keys deps)
     \<and> (\<forall>t \<in> set names. \<exists>d \<in> deps_of deps t. d \<in> set names \<or> d \<notin> set (bt_keys deps))"

lemma follows_Nil [simp]: "follows_dependencies deps []"
  by (simp add: follows_dependencies_def)

lemma follows_snoc:
  assumes "follows_dependencies deps ts" "t \<in> set (bt_keys deps)" "t \<notin> set ts" "deps_of deps t \<subseteq> set ts"
  shows "follows_dependencies deps (ts @ [t])"
  using assms by (auto simp: follows_dependencies_def nth_append less_Suc_eq)

lemma follows_before:
  assumes "follows_dependencies deps ts" "ts = us @ t # vs" "d \<in> deps_of deps t"
  shows "d \<in> set us"
  using assms by (auto simp: follows_dependencies_def dest!: spec [of _ "length us"])

text \<open>Blocked tables are in no order.\<close>

lemma blocked_no_order:
  assumes "blocked_tables deps names"
  shows "\<not> dependency_order deps ts"
proof
  assume ts: "dependency_order deps ts"
  have "t \<notin> set names" if "t \<in> set ts" for t
  proof -
    have "ts ! i \<notin> set names" if "i < length ts" for i
      using that
    proof (induction i rule: less_induct)
      case (less i)
      show ?case
      proof
        assume "ts ! i \<in> set names"
        then obtain d where d: "d \<in> deps_of deps (ts ! i)" "d \<in> set names \<or> d \<notin> set (bt_keys deps)"
          using assms by (auto simp: blocked_tables_def)
        then have "d \<in> set (take i ts)"
          using ts less.prems by (auto simp: dependency_order_def follows_dependencies_def)
        then obtain j where "j < i" "d = ts ! j" "j < length ts" by (auto simp: in_set_conv_nth)
        then show False using d(2) less ts by (auto simp: dependency_order_def)
      qed
    qed
    then show ?thesis using that by (auto simp: in_set_conv_nth)
  qed
  then show False using assms ts by (cases names) (auto simp: blocked_tables_def dependency_order_def)
qed

text \<open>What the callers rely on.\<close>

locale dependency_sort =
  fixes order_tables :: "dependencies \<Rightarrow> string list + string list"
  assumes ordered: "bt_wf deps \<Longrightarrow> order_tables deps = Inr ts \<Longrightarrow> dependency_order deps ts"
    and stuck: "bt_wf deps \<Longrightarrow> order_tables deps = Inl names \<Longrightarrow> blocked_tables deps names"
begin

lemma orders_iff: "bt_wf deps \<Longrightarrow> (\<exists>ts. order_tables deps = Inr ts) \<longleftrightarrow> (\<exists>ts. dependency_order deps ts)"
  by (metis blocked_no_order ordered stuck sum.exhaust)

lemma dependencies_before:
  assumes "bt_wf deps" "order_tables deps = Inr ts" "ts = us @ t # vs" "d \<in> deps_of deps t"
  shows "d \<in> set us"
  using follows_before [OF _ assms(3,4)] ordered [OF assms(1,2)] by (simp add: dependency_order_def)

lemma no_self_dependency:
  assumes "bt_wf deps" "order_tables deps = Inr ts" "t \<in> set (bt_keys deps)"
  shows "t \<notin> deps_of deps t"
proof
  assume t: "t \<in> deps_of deps t"
  have ts: "dependency_order deps ts" by (rule ordered [OF assms(1,2)])
  then obtain us vs where "ts = us @ t # vs" using assms(3) by (metis dependency_order_def split_list)
  with dependencies_before [OF assms(1,2) this t] ts show False
    by (auto simp: dependency_order_def follows_dependencies_def)
qed

end

subsection \<open>The repeated scan of the seed planner\<close>

text \<open>\<open>remaining.iter().find(..)\<close>: the first table whose dependencies are all placed.\<close>

definition next_ready :: "dependencies \<Rightarrow> string list \<Rightarrow> string option" where
  "next_ready remaining placed =
     map_option fst (List.find (\<lambda>(name, ds). list_all (\<lambda>d. d \<in> set placed) ds) remaining)"

lemma next_ready_Some:
  assumes "next_ready remaining placed = Some t"
  obtains ds where "(t, ds) \<in> set remaining" "set ds \<subseteq> set placed"
proof -
  obtain ds where "List.find (\<lambda>(name, ds). list_all (\<lambda>d. d \<in> set placed) ds) remaining = Some (t, ds)"
    using assms by (auto simp: next_ready_def)
  then have "(t, ds) \<in> set remaining" "list_all (\<lambda>d. d \<in> set placed) ds"
    by (auto simp: find_Some_iff) (metis nth_mem)
  then show thesis by (auto intro!: that simp: list_all_iff)
qed

lemma next_ready_key: "next_ready remaining placed = Some t \<Longrightarrow> t \<in> set (bt_keys remaining)"
  by (erule next_ready_Some) (force simp: bt_keys_def)

lemma next_ready_None:
  "next_ready remaining placed = None \<longleftrightarrow> (\<forall>(t, ds) \<in> set remaining. \<not> set ds \<subseteq> set placed)"
  by (auto simp: next_ready_def find_None_iff list_all_iff subset_iff)

function seed_order :: "dependencies \<Rightarrow> string list \<Rightarrow> string list + string list" where
  "seed_order remaining placed =
     (if remaining = [] then Inr placed
      else (case next_ready remaining placed of
          Some name \<Rightarrow> seed_order (bt_remove name remaining) (placed @ [name])
        | None \<Rightarrow> Inl (bt_keys remaining)))"
  by auto
termination
  by (relation "measure (\<lambda>(remaining, placed). length remaining)")
    (auto intro!: length_bt_remove dest: next_ready_key)

declare seed_order.simps [simp del]

definition topological_order :: "dependencies \<Rightarrow> string list + string list" where
  "topological_order deps = seed_order deps []"

text \<open>The tables not yet placed keep their dependencies.\<close>

definition seed_state :: "dependencies \<Rightarrow> dependencies \<Rightarrow> string list \<Rightarrow> bool" where
  "seed_state deps remaining placed \<longleftrightarrow> bt_wf remaining \<and> follows_dependencies deps placed
     \<and> set (bt_keys remaining) = set (bt_keys deps) - set placed
     \<and> (\<forall>t \<in> set (bt_keys remaining). bt_get remaining t = bt_get deps t)"

lemma seed_state_entry:
  assumes "seed_state deps remaining placed" "(t, ds) \<in> set remaining"
  shows "t \<in> set (bt_keys deps)" "t \<notin> set placed" "deps_of deps t = set ds"
proof -
  have t: "t \<in> set (bt_keys remaining)" using assms(2) by (force simp: bt_keys_def)
  then show "t \<in> set (bt_keys deps)" "t \<notin> set placed" using assms(1) by (auto simp: seed_state_def)
  have "bt_get remaining t = Some ds"
    using assms bt_wf_distinct [of remaining] by (auto simp: seed_state_def bt_get_def bt_keys_def intro: map_of_is_SomeI)
  then show "deps_of deps t = set ds" using assms(1) t by (simp add: seed_state_def deps_of_def)
qed

lemma seed_order_result:
  assumes "seed_state deps remaining placed"
  shows "case seed_order remaining placed of
      Inr ts \<Rightarrow> dependency_order deps ts | Inl names \<Rightarrow> blocked_tables deps names"
  using assms
proof (induction remaining placed rule: seed_order.induct)
  case (1 remaining placed)
  show ?case
  proof (cases "remaining = []")
    case True
    then show ?thesis using 1(2)
      by (subst seed_order.simps)
        (auto simp: seed_state_def dependency_order_def follows_dependencies_def)
  next
    case False
    show ?thesis
    proof (cases "next_ready remaining placed")
      case None
      have "blocked_tables deps (bt_keys remaining)"
        unfolding blocked_tables_def
      proof (intro conjI ballI)
        show "set (bt_keys remaining) \<subseteq> set (bt_keys deps)" using 1(2) by (auto simp: seed_state_def)
        fix t assume "t \<in> set (bt_keys remaining)"
        then obtain ds where t: "(t, ds) \<in> set remaining" by (auto simp: bt_keys_def)
        then obtain d where "d \<in> set ds" "d \<notin> set placed" using None by (fastforce simp: next_ready_None)
        then show "\<exists>d\<in>deps_of deps t. d \<in> set (bt_keys remaining) \<or> d \<notin> set (bt_keys deps)"
          using seed_state_entry(3) [OF 1(2) t] 1(2) by (auto simp: seed_state_def intro!: bexI [of _ d])
      qed (use False in simp)
      then show ?thesis using False None by (subst seed_order.simps) simp
    next
      case (Some name)
      then obtain ds where ds: "(name, ds) \<in> set remaining" "set ds \<subseteq> set placed" by (rule next_ready_Some)
      have "seed_state deps (bt_remove name remaining) (placed @ [name])"
        using 1(2) seed_state_entry [OF 1(2) ds(1)] ds(2)
        by (auto simp: seed_state_def bt.get_remove intro: follows_snoc)
      from 1(1) [OF False Some this] show ?thesis using False Some by (subst seed_order.simps) simp
    qed
  qed
qed

interpretation seed: dependency_sort topological_order
proof
  fix deps :: dependencies
  assume wf: "bt_wf deps"
  have init: "seed_state deps deps []" using wf by (simp add: seed_state_def)
  show "topological_order deps = Inr ts \<Longrightarrow> dependency_order deps ts" for ts
    using seed_order_result [OF init] by (simp add: topological_order_def)
  show "topological_order deps = Inl names \<Longrightarrow> blocked_tables deps names" for names
    using seed_order_result [OF init] by (simp add: topological_order_def)
qed

subsection \<open>The queue of the dataset packages\<close>

text \<open>\<open>outgoing\<close>: the tables that depend on a table.\<close>

definition add_outgoing :: "string \<Rightarrow> string \<Rightarrow> btree_set btree_map \<Rightarrow> btree_set btree_map" where
  "add_outgoing table dep out =
     bt_insert dep (insort_insert table (case bt_get out dep of Some ts \<Rightarrow> ts | None \<Rightarrow> [])) out"

definition outgoing_of :: "dependencies \<Rightarrow> btree_set btree_map" where
  "outgoing_of deps = fold (\<lambda>(table, ds). fold (add_outgoing table) ds) deps []"

text \<open>\<open>for child in children\<close>: the edge is removed, and a child without edges becomes ready.\<close>

definition release_child ::
  "string \<Rightarrow> string \<Rightarrow> dependencies \<times> string list \<Rightarrow> dependencies \<times> string list" where
  "release_child table child = (\<lambda>(incoming, ready). case bt_get incoming child of
      None \<Rightarrow> (incoming, ready)
    | Some ds \<Rightarrow> (let ds' = removeAll table ds in
        (bt_insert child ds' incoming, if ds' = [] then ready @ [child] else ready)))"

record topo_state =
  incoming :: dependencies
  ready :: "string list"
  ordered_tables :: "string list"

text \<open>The body of \<open>while let Some(table) = ready.pop_front()\<close>.\<close>

definition topo_step :: "btree_set btree_map \<Rightarrow> topo_state \<Rightarrow> topo_state" where
  "topo_step out st = (case ready st of
      [] \<Rightarrow> st
    | table # rest \<Rightarrow>
        (case (case bt_get out table of
            Some children \<Rightarrow> fold (release_child table) children (incoming st, rest)
          | None \<Rightarrow> (incoming st, rest)) of
           (inc, rdy) \<Rightarrow> \<lparr>incoming = bt_remove table inc, ready = rdy,
              ordered_tables = ordered_tables st @ [table]\<rparr>))"

definition topo_start :: "dependencies \<Rightarrow> topo_state" where
  "topo_start deps = \<lparr>incoming = deps,
     ready = map fst (filter (\<lambda>(table, ds). ds = []) deps), ordered_tables = []\<rparr>"

text \<open>The loop may not end on its own; that it does is shown below.\<close>

definition topo_run :: "dependencies \<Rightarrow> topo_state option" where
  "topo_run deps = while_option (\<lambda>st. ready st \<noteq> []) (topo_step (outgoing_of deps)) (topo_start deps)"

definition topo_sort_dependencies :: "dependencies \<Rightarrow> (string list + string list) option" where
  "topo_sort_dependencies deps = map_option (\<lambda>st.
     if incoming st \<noteq> [] then Inl (bt_keys (incoming st)) else Inr (ordered_tables st)) (topo_run deps)"

text \<open>The outgoing edges are the dependencies turned round.\<close>

definition children_of :: "btree_set btree_map \<Rightarrow> string \<Rightarrow> string list" where
  "children_of out t = (case bt_get out t of Some ts \<Rightarrow> ts | None \<Rightarrow> [])"

lemma children_add_outgoing:
  "children_of (add_outgoing table dep out) t =
     (if t = dep then insort_insert table (children_of out t) else children_of out t)"
  by (simp add: children_of_def add_outgoing_def bt.get_insert)

lemma children_add_all:
  "set (children_of (fold (add_outgoing table) ds out) t) =
     (if t \<in> set ds then insert table (set (children_of out t)) else set (children_of out t))"
  by (induction ds arbitrary: out) (auto simp: children_add_outgoing set_insort_insert)

definition distinct_children :: "btree_set btree_map \<Rightarrow> bool" where
  "distinct_children out \<longleftrightarrow> (\<forall>t. distinct (children_of out t))"

lemma distinct_children_add: "distinct_children out \<Longrightarrow> distinct_children (fold (add_outgoing table) ds out)"
  by (induction ds arbitrary: out) (auto simp: distinct_children_def children_add_outgoing distinct_insort_insert)

lemma outgoing_fold:
  "set (children_of (fold (\<lambda>(table, ds). fold (add_outgoing table) ds) deps out) t)
     = set (children_of out t) \<union> {table. \<exists>ds. (table, ds) \<in> set deps \<and> t \<in> set ds}"
  "distinct_children out \<Longrightarrow> distinct_children (fold (\<lambda>(table, ds). fold (add_outgoing table) ds) deps out)"
  by (induction deps arbitrary: out) (auto simp: children_add_all distinct_children_add split: if_splits)

lemma children_outgoing:
  assumes "bt_wf deps"
  shows "set (children_of (outgoing_of deps) t) = {c \<in> set (bt_keys deps). t \<in> deps_of deps c}"
    and "distinct (children_of (outgoing_of deps) t)"
proof -
  have "map_of deps c = Some ds" if "(c, ds) \<in> set deps" for c ds
    using bt_wf_distinct [OF assms] that by (auto simp: bt_keys_def intro: map_of_is_SomeI)
  then have "{table. \<exists>ds. (table, ds) \<in> set deps \<and> t \<in> set ds} = {c \<in> set (bt_keys deps). t \<in> deps_of deps c}"
    by (force simp: bt_keys_def deps_of_def bt_get_def dest: map_of_SomeD split: option.splits)
  then show "set (children_of (outgoing_of deps) t) = {c \<in> set (bt_keys deps). t \<in> deps_of deps c}"
    using outgoing_fold(1) [of deps "[]" t] by (simp add: outgoing_of_def children_of_def bt.get_empty)
  show "distinct (children_of (outgoing_of deps) t)"
    using outgoing_fold(2) [of "[]" deps] by (simp add: outgoing_of_def distinct_children_def children_of_def bt.get_empty)
qed

text \<open>Releasing the children of a table removes the table from their dependencies.\<close>

lemma release_children:
  assumes "fold (release_child table) cs (inc, rdy) = (inc', rdy')" "distinct cs" "bt_wf inc"
  shows "bt_wf inc'" "set (bt_keys inc') = set (bt_keys inc)"
    "bt_get inc' t = (if t \<in> set cs then map_option (removeAll table) (bt_get inc t) else bt_get inc t)"
    "rdy' = rdy @ filter (\<lambda>c. \<exists>ds. bt_get inc c = Some ds \<and> set ds \<subseteq> {table}) cs"
proof -
  have removed: "removeAll table ds = [] \<longleftrightarrow> set ds \<subseteq> {table}" for ds
    by (induction ds) auto
  have "bt_wf inc' \<and> set (bt_keys inc') = set (bt_keys inc)
    \<and> (\<forall>t. bt_get inc' t = (if t \<in> set cs then map_option (removeAll table) (bt_get inc t) else bt_get inc t))
    \<and> rdy' = rdy @ filter (\<lambda>c. \<exists>ds. bt_get inc c = Some ds \<and> set ds \<subseteq> {table}) cs"
    using assms
  proof (induction cs arbitrary: inc rdy)
    case (Cons c cs)
    obtain inc1 rdy1 where 1: "release_child table c (inc, rdy) = (inc1, rdy1)" by (rule prod.exhaust)
    have inc1: "bt_wf inc1" "set (bt_keys inc1) = set (bt_keys inc)"
      "bt_get inc1 t = (if t = c then map_option (removeAll table) (bt_get inc t) else bt_get inc t)"
      "rdy1 = rdy @ (if \<exists>ds. bt_get inc c = Some ds \<and> set ds \<subseteq> {table} then [c] else [])" for t
      using 1 Cons.prems(3) bt_get_None_iff [of inc c]
      by (auto simp: release_child_def Let_def bt.get_insert removed split: option.splits if_splits)
    have "filter (\<lambda>c. \<exists>ds. bt_get inc1 c = Some ds \<and> set ds \<subseteq> {table}) cs
        = filter (\<lambda>c. \<exists>ds. bt_get inc c = Some ds \<and> set ds \<subseteq> {table}) cs"
      using Cons.prems(2) by (intro filter_cong) (auto simp: inc1(3))
    then show ?case
      using Cons.IH [of inc1 rdy1] Cons.prems 1 inc1 by auto
  qed simp
  then show "bt_wf inc'" "set (bt_keys inc') = set (bt_keys inc)"
    "bt_get inc' t = (if t \<in> set cs then map_option (removeAll table) (bt_get inc t) else bt_get inc t)"
    "rdy' = rdy @ filter (\<lambda>c. \<exists>ds. bt_get inc c = Some ds \<and> set ds \<subseteq> {table}) cs"
    by blast+
qed

text \<open>
  The state of the loop: the tables not yet popped keep their open dependencies, and the queue
  holds those of them that have none left.
\<close>

definition topo_inv :: "dependencies \<Rightarrow> topo_state \<Rightarrow> bool" where
  "topo_inv deps st \<longleftrightarrow> (let placed = set (ordered_tables st); open_tables = set (bt_keys deps) - placed in
     bt_wf (incoming st) \<and> follows_dependencies deps (ordered_tables st)
     \<and> set (bt_keys (incoming st)) = open_tables
     \<and> (\<forall>t \<in> open_tables. deps_of (incoming st) t = deps_of deps t - placed)
     \<and> distinct (ready st) \<and> set (ready st) = {t \<in> open_tables. deps_of deps t \<subseteq> placed})"

lemma topo_start_inv: "bt_wf deps \<Longrightarrow> topo_inv deps (topo_start deps)"
proof -
  assume wf: "bt_wf deps"
  have "map_of deps t = Some ds" if "(t, ds) \<in> set deps" for t ds
    using bt_wf_distinct [OF wf] that by (auto simp: bt_keys_def intro: map_of_is_SomeI)
  then have "fst ` {x \<in> set deps. case x of (t, ds) \<Rightarrow> ds = []} = {t \<in> set (bt_keys deps). deps_of deps t = {}}"
    by (force simp: bt_keys_def deps_of_def bt_get_def)
  moreover have "distinct (map fst (filter (\<lambda>(t, ds). ds = []) deps))"
    using bt_wf_distinct [OF wf] by (auto simp: bt_keys_def intro: distinct_map_filter)
  ultimately show ?thesis using wf by (simp add: topo_inv_def topo_start_def)
qed

lemma topo_step_inv:
  assumes wf: "bt_wf deps" and inv: "topo_inv deps st" and "ready st \<noteq> []"
  shows "topo_inv deps (topo_step (outgoing_of deps) st)
    \<and> card (set (bt_keys deps)) - length (ordered_tables (topo_step (outgoing_of deps) st))
        < card (set (bt_keys deps)) - length (ordered_tables st)"
proof -
  obtain table rest where r: "ready st = table # rest" using assms(3) by (cases "ready st") auto
  define placed where "placed = set (ordered_tables st)"
  define cs where "cs = children_of (outgoing_of deps) table"
  obtain inc rdy where f: "fold (release_child table) cs (incoming st, rest) = (inc, rdy)" by (rule prod.exhaust)
  have step: "topo_step (outgoing_of deps) st
      = \<lparr>incoming = bt_remove table inc, ready = rdy, ordered_tables = ordered_tables st @ [table]\<rparr>"
    using f by (simp add: topo_step_def r cs_def children_of_def split: option.splits)
  have cs: "set cs = {c \<in> set (bt_keys deps). table \<in> deps_of deps c}" "distinct cs"
    using children_outgoing [OF wf] by (auto simp: cs_def)
  have inv': "bt_wf (incoming st)" "follows_dependencies deps (ordered_tables st)"
      "set (bt_keys (incoming st)) = set (bt_keys deps) - placed"
      "\<And>t. t \<in> set (bt_keys deps) - placed \<Longrightarrow> deps_of (incoming st) t = deps_of deps t - placed"
      "distinct (table # rest)" "set (table # rest) = {t \<in> set (bt_keys deps) - placed. deps_of deps t \<subseteq> placed}"
    using inv by (simp_all add: topo_inv_def Let_def placed_def r)
  note released = release_children [OF f cs(2) inv'(1)]
  have table: "table \<in> set (bt_keys deps)" "table \<notin> placed" "deps_of deps table \<subseteq> placed"
    using inv'(6) by auto
  have order: "follows_dependencies deps (ordered_tables st @ [table])"
    using follows_snoc [OF inv'(2)] table by (simp add: placed_def)
  have entry: "deps_of inc t = deps_of deps t - insert table placed"
    if "t \<in> set (bt_keys deps) - insert table placed" for t
    using inv'(4) [of t] that released(3) [of t] bt_get_None_iff [of "incoming st" t] inv'(3) cs(1)
    by (auto simp: deps_of_def split: option.splits if_splits)
  have free: "(\<exists>ds. bt_get (incoming st) c = Some ds \<and> set ds \<subseteq> {table})
      \<longleftrightarrow> c \<in> set (bt_keys deps) - placed \<and> deps_of deps c \<subseteq> insert table placed" for c
    using inv'(3) inv'(4) [of c] bt_get_None_iff [of "incoming st" c]
    by (auto simp: deps_of_def split: option.splits)
  have rdy: "rdy = rest @ filter (\<lambda>c. c \<in> set (bt_keys deps) - placed \<and> deps_of deps c \<subseteq> insert table placed) cs"
    using released(4) by (simp add: free)
  have "set rdy = {t \<in> set (bt_keys deps) - insert table placed. deps_of deps t \<subseteq> insert table placed}"
    using inv'(5,6) cs(1) table by (auto simp: rdy)
  moreover have "distinct rdy" using inv'(5,6) cs table by (auto simp: rdy)
  ultimately have "topo_inv deps (topo_step (outgoing_of deps) st)"
    unfolding step topo_inv_def using order entry released(1,2) inv'(3)
    by (auto simp: Let_def placed_def deps_of_def bt.get_remove)
  moreover have "length (ordered_tables st @ [table]) \<le> card (set (bt_keys deps))"
    using order by (metis card_mono distinct_card finite_set follows_dependencies_def)
  ultimately show ?thesis by (simp add: step)
qed

lemma topo_run_returns:
  assumes "bt_wf deps"
  shows "\<exists>st. topo_run deps = Some st \<and> topo_inv deps st \<and> ready st = []"
proof -
  have "\<exists>st. topo_run deps = Some st"
    unfolding topo_run_def
    by (rule measure_while_option_Some [where P = "topo_inv deps"
          and f = "\<lambda>st. card (set (bt_keys deps)) - length (ordered_tables st)"])
      (use topo_step_inv [OF assms] topo_start_inv [OF assms] in auto)
  then obtain st where st: "topo_run deps = Some st" by blast
  moreover have "topo_inv deps st"
    using while_option_rule [where P = "topo_inv deps", OF _ st [unfolded topo_run_def]]
      topo_step_inv [OF assms] topo_start_inv [OF assms] by blast
  moreover have "ready st = []" using while_option_stop [OF st [unfolded topo_run_def]] by simp
  ultimately show ?thesis by blast
qed

text \<open>The loop ends, and with a result that the callers may rely on.\<close>

lemma topo_sort_result:
  assumes "bt_wf deps"
  shows "\<exists>out. topo_sort_dependencies deps = Some out
    \<and> (case out of Inr ts \<Rightarrow> dependency_order deps ts | Inl names \<Rightarrow> blocked_tables deps names)"
proof -
  obtain st where st: "topo_run deps = Some st" and inv: "topo_inv deps st" and "ready st = []"
    using topo_run_returns [OF assms] by blast
  then have none: "\<not> deps_of deps t \<subseteq> set (ordered_tables st)" if "t \<in> set (bt_keys (incoming st))" for t
    using that by (auto simp: topo_inv_def Let_def)
  show ?thesis
  proof (cases "incoming st = []")
    case True
    then show ?thesis using st inv
      by (auto simp: topo_sort_dependencies_def topo_inv_def Let_def dependency_order_def follows_dependencies_def)
  next
    case False
    then have "blocked_tables deps (bt_keys (incoming st))"
      using inv none by (fastforce simp: blocked_tables_def topo_inv_def Let_def)
    then show ?thesis using st False by (simp add: topo_sort_dependencies_def)
  qed
qed

definition topo_result :: "dependencies \<Rightarrow> string list + string list" where
  "topo_result deps = the (topo_sort_dependencies deps)"

interpretation package: dependency_sort topo_result
proof
  fix deps :: dependencies
  assume wf: "bt_wf deps"
  show "topo_result deps = Inr ts \<Longrightarrow> dependency_order deps ts" for ts
    using topo_sort_result [OF wf] by (auto simp: topo_result_def)
  show "topo_result deps = Inl names \<Longrightarrow> blocked_tables deps names" for names
    using topo_sort_result [OF wf] by (auto simp: topo_result_def)
qed

text \<open>
  C34. Both sorts of the tables by their dependencies end, accept exactly the same
  specifications, namely those that have an order at all, and answer an order in which every
  table stands once and after all its dependencies. A refusal names tables that block each
  other or depend on an unknown one.
\<close>

theorem table_orders_respect_dependencies:
  assumes "bt_wf deps"
  shows "\<exists>queued. topo_sort_dependencies deps = Some queued
    \<and> (\<forall>ts. queued = Inr ts \<or> topological_order deps = Inr ts \<longrightarrow> dependency_order deps ts)
    \<and> (\<forall>names. queued = Inl names \<or> topological_order deps = Inl names \<longrightarrow> blocked_tables deps names)
    \<and> ((\<exists>ts. queued = Inr ts) \<longleftrightarrow> (\<exists>ts. dependency_order deps ts))
    \<and> ((\<exists>ts. topological_order deps = Inr ts) \<longleftrightarrow> (\<exists>ts. dependency_order deps ts))"
proof -
  obtain queued where q: "topo_sort_dependencies deps = Some queued"
    using topo_sort_result [OF assms] by blast
  then have r: "topo_result deps = queued" by (simp add: topo_result_def)
  show ?thesis
    using q package.ordered [OF assms] package.stuck [OF assms] package.orders_iff [OF assms]
      seed.ordered [OF assms] seed.stuck [OF assms] seed.orders_iff [OF assms]
    by (auto simp: r)
qed

theorem table_orders_respect_dependencies_witness:
  "dependency_order [(''a'', [''b'']), (''b'', []), (''c'', [''a'', ''b''])] [''b'', ''a'', ''c'']
   \<and> blocked_tables [(''a'', [''b'']), (''b'', [''a''])] [''a'', ''b'']"
proof -
  have wf: "bt_wf [(''a'', [''b'']), (''b'', []), (''c'', [''a'', ''b''])]"
    "bt_wf [(''a'', [''b'']), (''b'', [''a''])]" by code_simp+
  have "topological_order [(''a'', [''b'']), (''b'', []), (''c'', [''a'', ''b''])] = Inr [''b'', ''a'', ''c'']"
    "topological_order [(''a'', [''b'']), (''b'', [''a''])] = Inl [''a'', ''b'']" by code_simp+
  then show ?thesis
    using table_orders_respect_dependencies [OF wf(1)] table_orders_respect_dependencies [OF wf(2)] by blast
qed

end
