(* ===== verification/Seed.thy ===== *)
theory Seed
  imports Dependency_Order Http_Client Script_Response Identifiers
begin

text \<open>
  Seed runs (\<open>src/src/cli/commands/seed.rs\<close>): a specification of test records is planned in
  dependency order, created over the Table API, and tracked in a file from which the run is
  deleted again. The state of a command is the client with its world, and the directory of
  the tracking files. serde's decoder of the specification file is an argument, and so is
  what the disk refuses.
\<close>

record seed_reference =
  sref_table :: string
  sref_strategy :: string

record seed_table =
  st_name :: string
  st_count :: "nat option"
  st_records :: "json btree_map list"
  st_template :: "json btree_map option"
  st_references :: "seed_reference btree_map"

record seed_spec =
  ss_version :: nat
  ss_kind :: string
  ss_seed :: "nat option"
  ss_tables :: "seed_table list"

record planned_table =
  pl_table :: string
  pl_records :: nat
  pl_depends_on :: "string list"

record seed_plan =
  sp_seed :: "nat option"
  sp_tables :: "planned_table list"
  sp_total_records :: nat

record seed_run_record =
  rr_table :: string
  rr_sys_id :: string

record seed_run =
  ru_kind :: string
  ru_version :: nat
  ru_run_id :: string
  ru_instance :: string
  ru_spec_seed :: "nat option"
  ru_records :: "seed_run_record list"

datatype seed_error =
    SeedOutputFormat
  | SeedSpecUnreadable
  | SeedSpecInvalid
  | SeedSpecVersion nat
  | SeedSpecKind
  | SeedNoTables
  | SeedTableName identifier_error
  | SeedDuplicateTable string
  | SeedCountWithoutTemplate string
  | SeedTemplateWithoutCount string
  | SeedCountOverflow string
  | SeedEmptyTable string
  | SeedEmptyReferenceField string
  | SeedReferencedTable string string identifier_error
  | SeedSelfReference string
  | SeedStrategy string string string
  | SeedUndefinedReference string string
  | SeedCycle "string list"
  | SeedTotalOverflow
  | SeedNotConfirmed
  | SeedAborted
  | SeedRunId
  | SeedRunMissing string
  | SeedRunInvalid string
  | SeedRunMismatch string
  | SeedRunTable string
  | SeedRunRecordId string
  | SeedDiskFailed
  | SeedMissingDefinition string
  | SeedReferenceNotCreated string
  | SeedReferenceEmpty string
  | SeedPartiallyApplied string client_error
  | SeedNoSysId string string
  | SeedOtherInstance string
  | SeedClientFailed client_error

definition seed_json_output :: "output_format \<Rightarrow> seed_error + unit" where
  "seed_json_output format = (case format of
      Json \<Rightarrow> Inr () | Text \<Rightarrow> Inr () | Auto \<Rightarrow> Inr () | _ \<Rightarrow> Inl SeedOutputFormat)"

subsection \<open>The plan\<close>

text \<open>\<open>read\<close> is the text of a file, \<open>decode\<close> serde's decoder of a specification.\<close>

definition read_seed_spec ::
  "(string \<Rightarrow> string option) \<Rightarrow> (string \<Rightarrow> seed_spec option) \<Rightarrow> string \<Rightarrow> seed_error + seed_spec" where
  "read_seed_spec read decode path = (case read path of
      None \<Rightarrow> Inl SeedSpecUnreadable
    | Some bytes \<Rightarrow> (case decode bytes of
        None \<Rightarrow> Inl SeedSpecInvalid
      | Some spec \<Rightarrow>
          if ss_version spec \<noteq> 1 then Inl (SeedSpecVersion (ss_version spec))
          else if ss_kind spec \<noteq> ''seed-spec'' then Inl SeedSpecKind
          else if ss_tables spec = [] then Inl SeedNoTables
          else Inr spec))"

text \<open>\<open>for (field, reference) in definition.references\<close>.\<close>

fun reference_targets ::
  "string \<Rightarrow> seed_reference btree_map \<Rightarrow> btree_set \<Rightarrow> seed_error + btree_set" where
  "reference_targets name [] deps = Inr deps"
| "reference_targets name ((field, reference) # refs) deps =
     (if field = [] then Inl (SeedEmptyReferenceField name)
      else (case table_name_try_from (sref_table reference) of
          Inl e \<Rightarrow> Inl (SeedReferencedTable name field e)
        | Inr target \<Rightarrow>
            if table_name_as_str target = name then Inl (SeedSelfReference name)
            else if sref_strategy reference \<noteq> ''round_robin''
            then Inl (SeedStrategy (sref_strategy reference) name field)
            else reference_targets name refs (insort_insert (table_name_as_str target) deps)))"

text \<open>One table of the specification: its name, the number of its records and its dependencies.\<close>

definition plan_table :: "seed_table \<Rightarrow> dependencies \<Rightarrow> seed_error + (string \<times> nat \<times> btree_set)" where
  "plan_table definition deps = (case table_name_try_from (st_name definition) of
      Inl e \<Rightarrow> Inl (SeedTableName e)
    | Inr table \<Rightarrow>
       (let name = table_name_as_str table in
        if name \<in> set (bt_keys deps) then Inl (SeedDuplicateTable name)
        else if st_count definition \<noteq> None \<and> st_template definition = None
        then Inl (SeedCountWithoutTemplate name)
        else if st_count definition = None \<and> st_template definition \<noteq> None
        then Inl (SeedTemplateWithoutCount name)
        else (case checked_add (case st_count definition of Some n \<Rightarrow> n | None \<Rightarrow> 0) (length (st_records definition)) of
            None \<Rightarrow> Inl (SeedCountOverflow name)
          | Some amount \<Rightarrow>
              if amount = 0 then Inl (SeedEmptyTable name)
              else map_sum id (\<lambda>ds. (name, amount, ds)) (reference_targets name (st_references definition) []))))"

fun plan_tables ::
  "seed_table list \<Rightarrow> dependencies \<Rightarrow> nat btree_map \<Rightarrow> seed_error + dependencies \<times> nat btree_map" where
  "plan_tables [] deps counts = Inr (deps, counts)"
| "plan_tables (definition # tables) deps counts =
     bind_result (plan_table definition deps) (\<lambda>(name, amount, ds).
       plan_tables tables (bt_insert name ds deps) (bt_insert name amount counts))"

definition undefined_reference :: "dependencies \<Rightarrow> (string \<times> string) option" where
  "undefined_reference deps =
     List.find (\<lambda>(name, dep). dep \<notin> set (bt_keys deps)) (concat (map (\<lambda>(name, ds). map (Pair name) ds) deps))"

fun total_count :: "nat list \<Rightarrow> nat \<Rightarrow> nat option" where
  "total_count [] acc = Some acc"
| "total_count (n # ns) acc = Option.bind (checked_add acc n) (total_count ns)"

definition build_plan :: "seed_spec \<Rightarrow> seed_error + seed_plan" where
  "build_plan spec = bind_result (plan_tables (ss_tables spec) [] []) (\<lambda>(deps, counts).
     case undefined_reference deps of
       Some (name, dep) \<Rightarrow> Inl (SeedUndefinedReference name dep)
     | None \<Rightarrow> (case topological_order deps of
         Inl names \<Rightarrow> Inl (SeedCycle names)
       | Inr order \<Rightarrow> (case total_count (map snd counts) 0 of
           None \<Rightarrow> Inl SeedTotalOverflow
         | Some all_records \<Rightarrow> Inr \<lparr>sp_seed = ss_seed spec,
             sp_tables = map (\<lambda>table. \<lparr>pl_table = table,
               pl_records = (case bt_get counts table of Some n \<Rightarrow> n | None \<Rightarrow> 0),
               pl_depends_on = (case bt_get deps table of Some ds \<Rightarrow> ds | None \<Rightarrow> [])\<rparr>) order,
             sp_total_records = all_records\<rparr>)))"

text \<open>The confirmation: whether standard input is a terminal, and the line read from it.\<close>

definition confirm_seed :: "bool \<Rightarrow> string \<Rightarrow> seed_error + unit" where
  "confirm_seed terminal answer =
     (if \<not> terminal then Inl SeedNotConfirmed
      else if \<not> eq_ignore_ascii_case (trim answer) ''y'' then Inl SeedAborted
      else Inr ())"

subsection \<open>The tracking files\<close>

text \<open>A file that is no JSON of a run is \<^term>\<open>None\<close>.\<close>

type_synonym run_directory = "seed_run option btree_map"

type_synonym ('a, 'w) seed_state = "('a snow_client \<times> 'w host_world) \<times> run_directory"

type_synonym ('a, 'w, 'r) seed_op = "('a, 'w) seed_state \<Rightarrow> (seed_error + 'r) \<times> ('a, 'w) seed_state"

record disk_env =
  disk_writes :: "seed_run \<Rightarrow> bool"
  disk_removes :: "string \<Rightarrow> bool"

definition run_id_byte :: "char \<Rightarrow> bool" where
  "run_id_byte c \<longleftrightarrow> is_ascii_alphanumeric c \<or> c = CHR ''-''"

definition run_path :: "string \<Rightarrow> seed_error + string" where
  "run_path run_id = (if run_id = [] \<or> \<not> list_all run_id_byte run_id then Inl SeedRunId
     else Inr (run_id @ ''.json''))"

definition run_records_check :: "seed_run \<Rightarrow> seed_error + unit" where
  "run_records_check run = (case List.find (\<lambda>r. \<not> isl (table_name_try_from (rr_table r)) \<longrightarrow> isl (sys_id_try_from (rr_sys_id r)))
       (ru_records run) of
      None \<Rightarrow> Inr ()
    | Some r \<Rightarrow> Inl (if isl (table_name_try_from (rr_table r)) then SeedRunTable (ru_run_id run)
                     else SeedRunRecordId (ru_run_id run)))"

definition read_run :: "string \<Rightarrow> run_directory \<Rightarrow> seed_error + seed_run" where
  "read_run run_id dir = bind_result (run_path run_id) (\<lambda>path. case bt_get dir path of
      None \<Rightarrow> Inl (SeedRunMissing run_id)
    | Some None \<Rightarrow> Inl (SeedRunInvalid run_id)
    | Some (Some run) \<Rightarrow>
        if ru_run_id run \<noteq> run_id \<or> ru_kind run \<noteq> ''seed-run'' \<or> ru_version run \<noteq> 1
        then Inl (SeedRunMismatch run_id)
        else bind_result (run_records_check run) (\<lambda>_. Inr run))"

definition write_run :: "disk_env \<Rightarrow> seed_run \<Rightarrow> ('a, 'w, unit) seed_op" where
  "write_run disk run s = (case run_path (ru_run_id run) of
      Inl e \<Rightarrow> (Inl e, s)
    | Inr path \<Rightarrow> if disk_writes disk run then (Inr (), fst s, bt_insert path (Some run) (snd s))
        else (Inl SeedDiskFailed, s))"

definition on_client :: "(client_error \<Rightarrow> seed_error) \<Rightarrow> ('a, 'w, 'r) client_op \<Rightarrow> ('a, 'w, 'r) seed_op" where
  "on_client wrap f s = (case f (fst s) of (r, c) \<Rightarrow> (map_sum wrap id r, c, snd s))"

subsection \<open>Applying a plan\<close>

definition fill_template :: "nat \<Rightarrow> nat \<Rightarrow> json btree_map \<Rightarrow> json btree_map" where
  "fill_template seed index template = map (\<lambda>(field, value). (field, case value of
      JString t \<Rightarrow> JString (replace_all ''{{seed}}'' (show_nat seed) (replace_all ''{{index}}'' (show_nat index) t))
    | v \<Rightarrow> v)) template"

definition seed_records :: "nat option \<Rightarrow> seed_table \<Rightarrow> json btree_map list" where
  "seed_records seed definition = st_records definition
     @ (case st_template definition of
          None \<Rightarrow> []
        | Some template \<Rightarrow> map (\<lambda>index. fill_template (case seed of Some n \<Rightarrow> n | None \<Rightarrow> 0) index template)
            [1 ..< Suc (case st_count definition of Some n \<Rightarrow> n | None \<Rightarrow> 0)])"

fun fill_references :: "string list btree_map \<Rightarrow> nat \<Rightarrow> seed_reference btree_map \<Rightarrow> json btree_map
   \<Rightarrow> seed_error + json btree_map" where
  "fill_references created index [] body = Inr body"
| "fill_references created index ((field, reference) # refs) body =
     (case bt_get created (sref_table reference) of
        None \<Rightarrow> Inl (SeedReferenceNotCreated (sref_table reference))
      | Some targets \<Rightarrow>
          if targets = [] then Inl (SeedReferenceEmpty (sref_table reference))
          else fill_references created index refs
                 (bt_insert field (JString (targets ! (index mod length targets))) body))"

definition created_record :: "json \<Rightarrow> json option" where
  "created_record v = Option.bind (struct_fields [''result''] v) (required Some ''result'')"

definition create_path :: "string \<Rightarrow> string" where
  "create_path table = ''/api/now/table/'' @ table"

text \<open>Creating one record and tracking it.\<close>

definition create_one :: "'w client_env \<Rightarrow> ('a, 'w) auth_ops \<Rightarrow> disk_env \<Rightarrow> string \<Rightarrow> json btree_map
   \<Rightarrow> seed_run \<times> string list btree_map \<Rightarrow> ('a, 'w, seed_run \<times> string list btree_map) seed_op" where
  "create_one env au disk table body = (\<lambda>(run, created) s.
     and_then (on_client (SeedPartiallyApplied (ru_run_id run))
         (post_json env au created_record (create_path table) (env_print_json env (JObject body))) s) (\<lambda>response s.
       case Option.bind (json_get ''sys_id'' response) json_as_str of
         None \<Rightarrow> (Inl (SeedNoSysId table (ru_run_id run)), s)
       | Some sys_id \<Rightarrow>
          (let run' = run\<lparr>ru_records := ru_records run @ [\<lparr>rr_table = table, rr_sys_id = sys_id\<rparr>]\<rparr>;
               created' = bt_insert table ((case bt_get created table of Some ids \<Rightarrow> ids | None \<Rightarrow> []) @ [sys_id]) created
           in and_then (write_run disk run' s) (\<lambda>_ s. (Inr (run', created'), s)))))"

fun create_records :: "'w client_env \<Rightarrow> ('a, 'w) auth_ops \<Rightarrow> disk_env \<Rightarrow> string \<Rightarrow> seed_reference btree_map
   \<Rightarrow> nat \<Rightarrow> json btree_map list \<Rightarrow> seed_run \<times> string list btree_map
   \<Rightarrow> ('a, 'w, seed_run \<times> string list btree_map) seed_op" where
  "create_records env au disk table refs index [] m s = (Inr m, s)"
| "create_records env au disk table refs index (row # rows) m s =
     (case fill_references (snd m) index refs row of
        Inl e \<Rightarrow> (Inl e, s)
      | Inr body \<Rightarrow> and_then (create_one env au disk table body m s)
          (create_records env au disk table refs (Suc index) rows))"

fun create_tables :: "'w client_env \<Rightarrow> ('a, 'w) auth_ops \<Rightarrow> disk_env \<Rightarrow> nat option \<Rightarrow> seed_table btree_map
   \<Rightarrow> planned_table list \<Rightarrow> seed_run \<times> string list btree_map
   \<Rightarrow> ('a, 'w, seed_run \<times> string list btree_map) seed_op" where
  "create_tables env au disk seed definitions [] m s = (Inr m, s)"
| "create_tables env au disk seed definitions (planned # tables) m s =
     (case bt_get definitions (pl_table planned) of
        None \<Rightarrow> (Inl (SeedMissingDefinition (pl_table planned)), s)
      | Some definition \<Rightarrow>
          and_then (create_records env au disk (pl_table planned) (st_references definition) 0
              (seed_records seed definition) m s)
            (create_tables env au disk seed definitions tables))"

definition new_run :: "string \<Rightarrow> seed_spec \<Rightarrow> string \<Rightarrow> seed_run" where
  "new_run uuid spec instance_url = \<lparr>ru_kind = ''seed-run'', ru_version = 1, ru_run_id = ''seed-'' @ uuid,
     ru_instance = instance_url, ru_spec_seed = ss_seed spec, ru_records = []\<rparr>"

definition seed_definitions :: "seed_spec \<Rightarrow> seed_table btree_map" where
  "seed_definitions spec = bt_collect (map (\<lambda>t. (st_name t, t)) (ss_tables spec))"

definition apply_seed :: "'w client_env \<Rightarrow> ('a, 'w) auth_ops \<Rightarrow> disk_env \<Rightarrow> string \<Rightarrow> seed_spec \<Rightarrow> seed_plan
   \<Rightarrow> ('a, 'w, seed_run) seed_op" where
  "apply_seed env au disk uuid spec plan s =
     (let run = new_run uuid spec (sc_base_url (fst (fst s))) in
      and_then (write_run disk run s) (\<lambda>_ s.
      and_then (create_tables env au disk (sp_seed plan) (seed_definitions spec) (sp_tables plan) (run, []) s)
        (\<lambda>m s. (Inr (fst m), s))))"

subsection \<open>Deleting a run\<close>

definition delete_path :: "seed_run_record \<Rightarrow> string" where
  "delete_path r = ''/api/now/table/'' @ rr_table r @ ''/'' @ rr_sys_id r"

function cleanup_loop :: "'w client_env \<Rightarrow> ('a, 'w) auth_ops \<Rightarrow> disk_env \<Rightarrow> seed_run \<Rightarrow> nat
   \<Rightarrow> ('a, 'w, nat) seed_op" where
  "cleanup_loop env au disk run deleted s =
     (if ru_records run = [] then (Inr deleted, s)
      else and_then (on_client SeedClientFailed (client_delete env au (delete_path (last (ru_records run)))) s) (\<lambda>_ s.
        let run' = run\<lparr>ru_records := butlast (ru_records run)\<rparr> in
        and_then (write_run disk run' s) (\<lambda>_ s. cleanup_loop env au disk run' (Suc deleted) s)))"
  by pat_completeness auto
termination
  by (relation "measure (\<lambda>(env, au, disk, run, deleted, s). length (ru_records run))") auto

declare cleanup_loop.simps [simp del]

definition cleanup_seed :: "'w client_env \<Rightarrow> ('a, 'w) auth_ops \<Rightarrow> disk_env \<Rightarrow> string \<Rightarrow> ('a, 'w, nat) seed_op" where
  "cleanup_seed env au disk run_id s = (case read_run run_id (snd s) of
      Inl e \<Rightarrow> (Inl e, s)
    | Inr run \<Rightarrow>
        if sc_base_url (fst (fst s)) \<noteq> ru_instance run then (Inl (SeedOtherInstance run_id), s)
        else and_then (cleanup_loop env au disk run 0 s) (\<lambda>deleted s.
          case run_path run_id of
            Inl e \<Rightarrow> (Inl e, s)
          | Inr path \<Rightarrow> if disk_removes disk path then (Inr deleted, fst s, bt_remove path (snd s))
              else (Inl SeedDiskFailed, s)))"

subsection \<open>The commands\<close>

datatype seed_output =
    PlanOutput seed_plan
  | ApplyOutput string nat "planned_table list"
  | CleanupPreview string "seed_run_record list"
  | CleanupOutput string nat

text \<open>
  What a command finds: whether standard input is a terminal and what is typed, a fresh UUID,
  and the files.
\<close>

record seed_host =
  sh_terminal :: bool
  sh_answer :: string
  sh_uuid :: string
  sh_read :: "string \<Rightarrow> string option"
  sh_decode :: "string \<Rightarrow> seed_spec option"
  sh_disk :: disk_env

definition confirmed :: "seed_host \<Rightarrow> bool \<Rightarrow> seed_error + unit" where
  "confirmed host yes = (if yes then Inr () else confirm_seed (sh_terminal host) (sh_answer host))"

definition cleanup_preview :: "seed_run \<Rightarrow> seed_output" where
  "cleanup_preview run = CleanupPreview (ru_run_id run) (rev (ru_records run))"

definition handle_seed :: "'w client_env \<Rightarrow> ('a, 'w) auth_ops \<Rightarrow> seed_host \<Rightarrow> output_format \<Rightarrow> seed_commands
   \<Rightarrow> ('a, 'w, seed_output) seed_op" where
  "handle_seed env au host format command s = (case seed_json_output format of
      Inl e \<Rightarrow> (Inl e, s)
    | Inr _ \<Rightarrow> (case command of
        SeedPlan file \<Rightarrow> (bind_result (read_seed_spec (sh_read host) (sh_decode host) file) (\<lambda>spec.
            map_sum id PlanOutput (build_plan spec)), s)
      | SeedApply file dry_run yes \<Rightarrow>
          (case bind_result (read_seed_spec (sh_read host) (sh_decode host) file) (\<lambda>spec.
              map_sum id (Pair spec) (build_plan spec)) of
             Inl e \<Rightarrow> (Inl e, s)
           | Inr (spec, plan) \<Rightarrow>
               if dry_run then (Inr (PlanOutput plan), s)
               else (case confirmed host yes of
                  Inl e \<Rightarrow> (Inl e, s)
                | Inr _ \<Rightarrow> and_then (apply_seed env au (sh_disk host) (sh_uuid host) spec plan s) (\<lambda>run s.
                    (Inr (ApplyOutput (ru_run_id run) (length (ru_records run)) (sp_tables plan)), s))))
      | SeedCleanup run_id dry_run yes \<Rightarrow>
          if dry_run then (map_sum id cleanup_preview (read_run run_id (snd s)), s)
          else (case confirmed host yes of
             Inl e \<Rightarrow> (Inl e, s)
           | Inr _ \<Rightarrow> and_then (cleanup_seed env au (sh_disk host) run_id s) (\<lambda>deleted s.
               (Inr (CleanupOutput run_id deleted), s)))))"

end
