(* ===== verification/Seed_Runs.thy ===== *)
theory Seed_Runs
  imports Seed Client_Safety
begin

text \<open>
  A planned seed run: it never lacks a record to refer to, its tracking file lists what was
  created, in an order whose reverse is safe for deletion, and the cleanup deletes exactly
  that, record by record.
\<close>

subsection \<open>What a plan promises\<close>

lemma reference_targets_ok:
  assumes "reference_targets name refs deps = Inr ds"
  shows "set ds = set deps \<union> (\<lambda>(f, r). sref_table r) ` set refs"
  using assms
proof (induction name refs deps rule: reference_targets.induct)
  case (2 name field reference refs deps)
  then show ?case
    by (auto simp: set_insort_insert table_name_try_from_iff as_str_defs split: if_splits sum.splits)
qed simp

text \<open>How the plan describes a table of the specification.\<close>

definition planned_as :: "dependencies \<Rightarrow> nat btree_map \<Rightarrow> seed_table \<Rightarrow> bool" where
  "planned_as deps counts d \<longleftrightarrow>
     deps_of deps (st_name d) = (\<lambda>(f, r). sref_table r) ` set (st_references d)
     \<and> (\<exists>n. bt_get counts (st_name d) = Some n \<and> 0 < n \<and> (\<forall>seed. length (seed_records seed d) = n))"

lemma plan_table_ok:
  assumes "plan_table d deps = Inr (name, n, ds)"
  shows "name = st_name d" "name \<notin> set (bt_keys deps)" "0 < n" "\<forall>seed. length (seed_records seed d) = n"
    "set ds = (\<lambda>(f, r). sref_table r) ` set (st_references d)"
proof -
  obtain t where t: "table_name_try_from (st_name d) = Inr t"
    using assms by (auto simp: plan_table_def split: sum.splits)
  then have name: "table_name_as_str t = st_name d"
    by (simp add: table_name_try_from_iff as_str_defs)
  have ok: "name = st_name d \<and> name \<notin> set (bt_keys deps) \<and> 0 < n
      \<and> checked_add (case st_count d of Some n \<Rightarrow> n | None \<Rightarrow> 0) (length (st_records d)) = Some n
      \<and> (st_count d = None \<longleftrightarrow> st_template d = None)" and targets: "reference_targets name (st_references d) [] = Inr ds"
    using assms unfolding plan_table_def t
    by (auto simp: name Let_def map_sum_def split: if_splits option.splits sum.splits)
  from ok show "name = st_name d" "name \<notin> set (bt_keys deps)" "0 < n" by auto
  show "set ds = (\<lambda>(f, r). sref_table r) ` set (st_references d)"
    using reference_targets_ok [OF targets] by simp
  show "\<forall>seed. length (seed_records seed d) = n"
    using ok by (auto simp: seed_records_def split: option.splits)
qed

lemma plan_tables_ok:
  assumes "plan_tables tables deps counts = Inr (deps', counts')"
    "bt_wf deps" "bt_wf counts" "set (bt_keys counts) = set (bt_keys deps)"
  shows "bt_wf deps'" "bt_wf counts'" "set (bt_keys counts') = set (bt_keys deps')"
    "set (bt_keys deps') = set (bt_keys deps) \<union> st_name ` set tables"
    "distinct (map st_name tables)" "set (map st_name tables) \<inter> set (bt_keys deps) = {}"
    "\<forall>k \<in> set (bt_keys deps). bt_get deps' k = bt_get deps k \<and> bt_get counts' k = bt_get counts k"
    "\<forall>d \<in> set tables. planned_as deps' counts' d"
proof -
  have "bt_wf deps' \<and> bt_wf counts' \<and> set (bt_keys counts') = set (bt_keys deps')
    \<and> set (bt_keys deps') = set (bt_keys deps) \<union> st_name ` set tables
    \<and> distinct (map st_name tables) \<and> set (map st_name tables) \<inter> set (bt_keys deps) = {}
    \<and> (\<forall>k \<in> set (bt_keys deps). bt_get deps' k = bt_get deps k \<and> bt_get counts' k = bt_get counts k)
    \<and> (\<forall>d \<in> set tables. planned_as deps' counts' d)"
    using assms
  proof (induction tables deps counts rule: plan_tables.induct)
    case (2 d tables deps counts)
    obtain name n ds where p: "plan_table d deps = Inr (name, n, ds)"
      and rest: "plan_tables tables (bt_insert name ds deps) (bt_insert name n counts) = Inr (deps', counts')"
      using 2(2) by (auto simp: bind_result_Inr_iff)
    note d = plan_table_ok [OF p]
    have IH: "bt_wf deps' \<and> bt_wf counts' \<and> set (bt_keys counts') = set (bt_keys deps')
      \<and> set (bt_keys deps') = set (bt_keys (bt_insert name ds deps)) \<union> st_name ` set tables
      \<and> distinct (map st_name tables) \<and> set (map st_name tables) \<inter> set (bt_keys (bt_insert name ds deps)) = {}
      \<and> (\<forall>k \<in> set (bt_keys (bt_insert name ds deps)). bt_get deps' k = bt_get (bt_insert name ds deps) k
           \<and> bt_get counts' k = bt_get (bt_insert name n counts) k)
      \<and> (\<forall>d \<in> set tables. planned_as deps' counts' d)"
      using 2 p rest by simp
    then have "planned_as deps' counts' d"
      using d by (simp add: planned_as_def deps_of_def bt.get_insert)
    then show ?case
      using IH d(1,2) by (auto simp: bt.get_insert)
  qed simp
  then show "bt_wf deps'" "bt_wf counts'" "set (bt_keys counts') = set (bt_keys deps')"
    "set (bt_keys deps') = set (bt_keys deps) \<union> st_name ` set tables"
    "distinct (map st_name tables)" "set (map st_name tables) \<inter> set (bt_keys deps) = {}"
    "\<forall>k \<in> set (bt_keys deps). bt_get deps' k = bt_get deps k \<and> bt_get counts' k = bt_get counts k"
    "\<forall>d \<in> set tables. planned_as deps' counts' d"
    by - (elim conjE, assumption)+
qed

lemma total_count_sum: "total_count ns acc = Some t \<Longrightarrow> t = acc + sum_list ns"
  by (induction ns arbitrary: acc) (auto simp: bind_eq_Some_conv add.assoc [symmetric])

lemma sum_over_keys:
  fixes m :: "nat btree_map"
  assumes "bt_wf m" "distinct ts" "set ts = set (bt_keys m)"
  shows "sum_list (map (\<lambda>t. the (bt_get m t)) ts) = sum_list (map snd m)"
proof -
  have "bt_get m k = Some v" if "(k, v) \<in> set m" for k v
    using bt_wf_distinct [OF assms(1)] that by (auto simp: bt_keys_def bt_get_def intro: map_of_is_SomeI)
  then have "map snd m = map (\<lambda>t. the (bt_get m t)) (bt_keys m)" by (force simp: bt_keys_def)
  moreover have "sum_list (map f ts) = sum_list (map f (bt_keys m))" for f :: "string \<Rightarrow> nat"
    using assms(2,3) bt_wf_distinct [OF assms(1)] by (metis sum.distinct_set_conv_list)
  ultimately show ?thesis by simp
qed

text \<open>The tables of a plan, with their definitions.\<close>

definition plans :: "seed_spec \<Rightarrow> dependencies \<Rightarrow> string list \<Rightarrow> bool" where
  "plans spec deps ts \<longleftrightarrow> dependency_order deps ts
     \<and> (\<forall>t \<in> set ts. \<exists>d n. bt_get (seed_definitions spec) t = Some d
          \<and> deps_of deps t = (\<lambda>(f, r). sref_table r) ` set (st_references d)
          \<and> 0 < n \<and> (\<forall>seed. length (seed_records seed d) = n))"

lemma build_plan_ok:
  assumes "build_plan spec = Inr plan"
  obtains deps where "plans spec deps (map pl_table (sp_tables plan))"
    "\<forall>p \<in> set (sp_tables plan). deps_of deps (pl_table p) = set (pl_depends_on p)
       \<and> (\<forall>d seed. bt_get (seed_definitions spec) (pl_table p) = Some d \<longrightarrow> length (seed_records seed d) = pl_records p)"
    "sp_total_records plan = sum_list (map pl_records (sp_tables plan))"
proof -
  obtain deps counts ts total where p: "plan_tables (ss_tables spec) [] [] = Inr (deps, counts)"
    and order: "topological_order deps = Inr ts" and total: "total_count (map snd counts) 0 = Some total"
    and plan: "plan = \<lparr>sp_seed = ss_seed spec, sp_tables = map (\<lambda>table. \<lparr>pl_table = table,
               pl_records = (case bt_get counts table of Some n \<Rightarrow> n | None \<Rightarrow> 0),
               pl_depends_on = (case bt_get deps table of Some ds \<Rightarrow> ds | None \<Rightarrow> [])\<rparr>) ts,
             sp_total_records = total\<rparr>"
    using assms by (auto simp: build_plan_def bind_result_Inr_iff split: option.splits sum.splits prod.splits)
  have keys: "set (bt_keys ([] :: nat btree_map)) = set (bt_keys ([] :: dependencies))" by simp
  note tables = plan_tables_ok [OF p bt_wf_Nil bt_wf_Nil keys]
  have ts: "dependency_order deps ts" by (rule seed.ordered [OF tables(1) order])
  have defs: "\<exists>d. bt_get (seed_definitions spec) t = Some d \<and> st_name d = t \<and> planned_as deps counts d"
    if "t \<in> set ts" for t
  proof -
    have "t \<in> st_name ` set (ss_tables spec)"
      using that ts tables(4) by (simp add: dependency_order_def)
    then obtain d where d: "d \<in> set (ss_tables spec)" "t = st_name d" by auto
    have "map_of (rev (map (\<lambda>t. (st_name t, t)) (ss_tables spec))) (st_name d) = Some d"
      using tables(5) d(1) by (intro map_of_is_SomeI) (auto simp: rev_map [symmetric] o_def)
    then show ?thesis using d tables(8) by (auto simp: seed_definitions_def bt_get_collect)
  qed
  have counted: "\<forall>t \<in> set ts. bt_get counts t \<noteq> None"
    using defs by (fastforce simp: planned_as_def)
  have names: "map pl_table (sp_tables plan) = ts" by (simp add: plan o_def)
  show thesis
  proof (rule that [of deps])
    show "plans spec deps (map pl_table (sp_tables plan))"
      unfolding plans_def names using ts defs by (force simp: planned_as_def)
    show "\<forall>p \<in> set (sp_tables plan). deps_of deps (pl_table p) = set (pl_depends_on p)
       \<and> (\<forall>d seed. bt_get (seed_definitions spec) (pl_table p) = Some d \<longrightarrow> length (seed_records seed d) = pl_records p)"
    proof
      fix p assume "p \<in> set (sp_tables plan)"
      then have "pl_table p \<in> set ts" "pl_records p = the (bt_get counts (pl_table p))"
          "set (pl_depends_on p) = deps_of deps (pl_table p)"
        using counted by (fastforce simp: plan deps_of_def split: option.splits)+
      then show "deps_of deps (pl_table p) = set (pl_depends_on p) \<and> (\<forall>d seed.
          bt_get (seed_definitions spec) (pl_table p) = Some d \<longrightarrow> length (seed_records seed d) = pl_records p)"
        using defs [of "pl_table p"] by (auto simp: planned_as_def)
    qed
    have "map pl_records (sp_tables plan) = map (\<lambda>t. the (bt_get counts t)) ts"
      using counted by (fastforce simp: plan split: option.split)
    moreover have "sp_total_records plan = sum_list (map (\<lambda>t. the (bt_get counts t)) ts)"
      using total_count_sum [OF total] sum_over_keys [OF tables(2), of ts] ts tables(3)
      by (simp add: plan dependency_order_def follows_dependencies_def)
    ultimately show "sp_total_records plan = sum_list (map pl_records (sp_tables plan))" by simp
  qed
qed

subsection \<open>The run is tracked\<close>

definition reference_error :: "seed_error \<Rightarrow> bool" where
  "reference_error e \<longleftrightarrow> (\<exists>t. e = SeedMissingDefinition t \<or> e = SeedReferenceNotCreated t \<or> e = SeedReferenceEmpty t)"

definition tracked :: "seed_run \<Rightarrow> ('a, 'w) seed_state \<Rightarrow> bool" where
  "tracked run s \<longleftrightarrow> (\<exists>path. run_path (ru_run_id run) = Inr path \<and> bt_get (snd s) path = Some (Some run))"

text \<open>The records of a table created so far.\<close>

definition created_in :: "seed_run \<Rightarrow> string \<Rightarrow> string list" where
  "created_in run t = map rr_sys_id (filter (\<lambda>r. rr_table r = t) (ru_records run))"

definition knows_created :: "seed_run \<Rightarrow> string list btree_map \<Rightarrow> bool" where
  "knows_created run created \<longleftrightarrow>
     (\<forall>t. bt_get created t = (if created_in run t = [] then None else Some (created_in run t)))"

text \<open>A run grows by records of one table.\<close>

definition grows_by :: "seed_run \<Rightarrow> seed_run_record list \<Rightarrow> seed_run \<Rightarrow> bool" where
  "grows_by run new run' \<longleftrightarrow> run' = run\<lparr>ru_records := ru_records run @ new\<rparr>"

lemma grows_by_Nil [simp]: "grows_by run [] run"
  by (simp add: grows_by_def)

lemma grows_by_trans: "grows_by run xs run1 \<Longrightarrow> grows_by run1 ys run2 \<Longrightarrow> grows_by run (xs @ ys) run2"
  by (simp add: grows_by_def)

text \<open>
  What a part of a run ends with: the file lists the old records and new ones, and on success
  these are as many as asked for; a failure is not for want of a record to refer to.
\<close>

definition part_ends :: "seed_run \<Rightarrow> (seed_run_record list \<Rightarrow> bool) \<Rightarrow> nat
   \<Rightarrow> (seed_error + seed_run \<times> string list btree_map) \<times> ('a, 'w) seed_state \<Rightarrow> bool" where
  "part_ends run P n out \<longleftrightarrow> (\<exists>new run'. grows_by run new run' \<and> P new \<and> tracked run' (snd out)
     \<and> (case fst out of Inl e \<Rightarrow> \<not> reference_error e
        | Inr (m, created) \<Rightarrow> m = run' \<and> knows_created run' created \<and> length new = n))"

lemma part_endsI_error:
  "tracked run s \<Longrightarrow> P [] \<Longrightarrow> \<not> reference_error e \<Longrightarrow> part_ends run P n (Inl e, s)"
  by (auto simp: part_ends_def intro!: exI [of _ "[]"] exI [of _ run])

lemma part_ends_then:
  assumes "part_ends run P n out" and "P1 = (\<lambda>new. \<exists>xs ys. new = xs @ ys \<and> P xs \<and> Q ys)" "Q []"
    and "\<And>new run' created s. \<lbrakk>grows_by run new run'; P new; tracked run' s; knows_created run' created;
      length new = n; out = (Inr (run', created), s)\<rbrakk> \<Longrightarrow> part_ends run' Q k (f (run', created) s)"
  shows "part_ends run P1 (n + k) (and_then out f)"
proof -
  obtain r s where out: "out = (r, s)" by (cases out)
  obtain new run' where 1: "grows_by run new run'" "P new" "tracked run' s"
      "case r of Inl e \<Rightarrow> \<not> reference_error e
        | Inr (m, created) \<Rightarrow> m = run' \<and> knows_created run' created \<and> length new = n"
    using assms(1) by (auto simp: part_ends_def out)
  show ?thesis
  proof (cases r)
    case (Inl e)
    have "P1 new" unfolding assms(2)
      by (rule exI [of _ new], rule exI [of _ "[]"]) (simp add: 1(2) assms(3))
    then show ?thesis using 1 Inl by (auto simp: part_ends_def out)
  next
    case (Inr m)
    then obtain created where m: "m = (run', created)" "knows_created run' created" "length new = n"
      using 1(4) by (cases m) auto
    obtain new2 run2 where 2: "grows_by run' new2 run2" "Q new2" "tracked run2 (snd (f (run', created) s))"
        "case fst (f (run', created) s) of Inl e \<Rightarrow> \<not> reference_error e
          | Inr (m, created) \<Rightarrow> m = run2 \<and> knows_created run2 created \<and> length new2 = k"
      using assms(4) [OF 1(1-3) m(2,3)] by (auto simp: part_ends_def out Inr m(1))
    moreover have "P1 (new @ new2)" unfolding assms(2) using 1(2) 2(2) by blast
    ultimately show ?thesis
      using m grows_by_trans [OF 1(1) 2(1)]
      by (auto simp: part_ends_def out Inr split: sum.splits intro!: exI [of _ "new @ new2"] exI [of _ run2])
  qed
qed

lemma tracked_write:
  assumes "tracked run s" "grows_by run [r] run'"
  shows "case write_run disk run' s of
      (Inl e, s') \<Rightarrow> \<not> reference_error e \<and> tracked run s'
    | (Inr _, s') \<Rightarrow> tracked run' s'"
  using assms
  by (auto simp: tracked_def grows_by_def write_run_def bt.get_insert reference_error_def split: sum.splits)

lemma created_in_grows:
  "grows_by run [r] run' \<Longrightarrow> created_in run' t = created_in run t @ (if rr_table r = t then [rr_sys_id r] else [])"
  by (simp add: grows_by_def created_in_def)

lemma create_one_ends:
  assumes "tracked run s" "knows_created run created"
  shows "part_ends run (\<lambda>new. list_all (\<lambda>r. rr_table r = table) new) 1
    (create_one env au disk table body (run, created) s)"
proof -
  obtain r s1 where post: "on_client (SeedPartiallyApplied (ru_run_id run))
      (post_json env au created_record (create_path table) (env_print_json env (JObject body))) s = (r, s1)"
    by (rule prod.exhaust)
  then have s1: "tracked run s1" "\<And>e. r = Inl e \<Longrightarrow> \<not> reference_error e"
    using assms(1) by (auto simp: on_client_def tracked_def reference_error_def map_sum_def split: prod.splits sum.splits)
  show ?thesis
  proof (cases r)
    case (Inl e)
    then show ?thesis using post s1 by (auto simp: create_one_def intro: part_endsI_error)
  next
    case (Inr response)
    show ?thesis
    proof (cases "Option.bind (json_get ''sys_id'' response) json_as_str")
      case None
      then show ?thesis using post s1 Inr
        by (auto simp: create_one_def reference_error_def intro: part_endsI_error)
    next
      case (Some sys_id)
      define run' where "run' = run\<lparr>ru_records := ru_records run @ [\<lparr>rr_table = table, rr_sys_id = sys_id\<rparr>]\<rparr>"
      have run': "grows_by run [\<lparr>rr_table = table, rr_sys_id = sys_id\<rparr>] run'"
        by (simp add: grows_by_def run'_def)
      obtain w s2 where w: "write_run disk run' s1 = (w, s2)" by (rule prod.exhaust)
      show ?thesis
      proof (cases w)
        case (Inl e)
        then show ?thesis using post s1 Inr Some w tracked_write [OF s1(1) run', of disk]
          by (auto simp: create_one_def Let_def run'_def [symmetric] intro: part_endsI_error)
      next
        case (Inr u)
        let ?created = "bt_insert table ((case bt_get created table of Some ids \<Rightarrow> ids | None \<Rightarrow> []) @ [sys_id]) created"
        have "knows_created run' ?created"
          using assms(2) created_in_grows [OF run']
          by (auto simp: knows_created_def bt.get_insert split: option.splits)
        then show ?thesis
          using post \<open>r = Inr response\<close> Some w Inr run' tracked_write [OF s1(1) run', of disk]
          by (auto simp: create_one_def Let_def run'_def [symmetric] part_ends_def
              intro!: exI [of _ "[\<lparr>rr_table = table, rr_sys_id = sys_id\<rparr>]"])
      qed
    qed
  qed
qed

definition has_targets :: "seed_run \<Rightarrow> seed_reference btree_map \<Rightarrow> bool" where
  "has_targets run refs \<longleftrightarrow> (\<forall>(f, r) \<in> set refs. created_in run (sref_table r) \<noteq> [])"

lemma has_targets_grows: "has_targets run refs \<Longrightarrow> grows_by run new run' \<Longrightarrow> has_targets run' refs"
  by (auto simp: has_targets_def grows_by_def created_in_def)

lemma fill_references_ok:
  assumes "knows_created run created" "has_targets run refs"
  shows "\<exists>body'. fill_references created index refs body = Inr body'"
  using assms(2)
proof (induction refs arbitrary: body)
  case (Cons fr refs)
  obtain field reference where fr: "fr = (field, reference)" by (cases fr)
  have "bt_get created (sref_table reference) = Some (created_in run (sref_table reference))"
      "created_in run (sref_table reference) \<noteq> []" "has_targets run refs"
    using assms(1) Cons.prems by (auto simp: has_targets_def knows_created_def fr)
  then show ?case using Cons.IH by (simp add: fr)
qed simp

lemma list_all_append_parts:
  "(\<lambda>new. list_all p new) = (\<lambda>new. \<exists>xs ys. new = xs @ ys \<and> list_all p xs \<and> list_all p ys)"
  by (rule ext) (metis append_Nil list_all_append list.pred_inject(1))

lemma create_records_ends:
  assumes "tracked run s" "knows_created run created" "has_targets run refs"
  shows "part_ends run (\<lambda>new. list_all (\<lambda>r. rr_table r = table) new) (length rows)
    (create_records env au disk table refs index rows (run, created) s)"
  using assms
proof (induction rows arbitrary: index run created s)
  case Nil
  then show ?case by (auto simp: part_ends_def intro!: exI [of _ "[]"] exI [of _ run])
next
  case (Cons row rows)
  obtain body where body: "fill_references created index refs row = Inr body"
    using fill_references_ok [OF Cons.prems(2,3)] by blast
  have "part_ends run (\<lambda>new. list_all (\<lambda>r. rr_table r = table) new) (1 + length rows)
      (and_then (create_one env au disk table body (run, created) s) (create_records env au disk table refs (Suc index) rows))"
  proof (rule part_ends_then [OF create_one_ends [OF Cons.prems(1,2)] list_all_append_parts])
    fix new run' created' and s' :: "('a, 'b) seed_state"
    assume "grows_by run new run'" "tracked run' s'" "knows_created run' created'"
    then show "part_ends run' (\<lambda>new. list_all (\<lambda>r. rr_table r = table) new) (length rows)
        (create_records env au disk table refs (Suc index) rows (run', created') s')"
      using Cons.IH has_targets_grows [OF Cons.prems(3)] by blast
  qed simp
  then show ?case by (simp add: body)
qed

text \<open>Records grouped by their tables, the tables in the order of a list.\<close>

fun grouped :: "string list \<Rightarrow> seed_run_record list \<Rightarrow> bool" where
  "grouped [] new \<longleftrightarrow> new = []"
| "grouped (t # ts) new \<longleftrightarrow> (\<exists>xs ys. new = xs @ ys \<and> list_all (\<lambda>r. rr_table r = t) xs \<and> grouped ts ys)"

lemma grouped_Nil [simp]: "grouped ts []"
  by (induction ts) auto

lemma create_tables_ends:
  assumes plan: "plans spec deps (ts @ map pl_table planned)"
    "\<forall>p \<in> set planned. \<forall>d. bt_get (seed_definitions spec) (pl_table p) = Some d \<longrightarrow> length (seed_records seed d) = pl_records p"
    and "tracked run s" "knows_created run created" "\<forall>t \<in> set ts. created_in run t \<noteq> []"
  shows "part_ends run (grouped (map pl_table planned)) (sum_list (map pl_records planned))
    (create_tables env au disk seed (seed_definitions spec) planned (run, created) s)"
  using assms
proof (induction planned arbitrary: ts run created s)
  case Nil
  then show ?case by (auto simp: part_ends_def intro!: exI [of _ "[]"] exI [of _ run])
next
  case (Cons p planned)
  let ?t = "pl_table p"
  obtain d n where d: "bt_get (seed_definitions spec) ?t = Some d"
      "deps_of deps ?t = (\<lambda>(f, r). sref_table r) ` set (st_references d)" "0 < n"
      "length (seed_records seed d) = n"
    using Cons.prems(1) by (auto simp: plans_def)
  have n: "length (seed_records seed d) = pl_records p" using Cons.prems(2) d(1) by simp
  have "deps_of deps ?t \<subseteq> set ts"
    using Cons.prems(1) follows_before [of deps "ts @ ?t # map pl_table planned" ts ?t "map pl_table planned"]
    by (auto simp: plans_def dependency_order_def)
  then have targets: "has_targets run (st_references d)"
    using Cons.prems(5) d(2) by (fastforce simp: has_targets_def)
  have "part_ends run (grouped (map pl_table (p # planned))) (pl_records p + sum_list (map pl_records planned))
      (and_then (create_records env au disk ?t (st_references d) 0 (seed_records seed d) (run, created) s)
        (create_tables env au disk seed (seed_definitions spec) planned))"
  proof (rule part_ends_then [where Q = "grouped (map pl_table planned)",
      OF create_records_ends [OF Cons.prems(3,4) targets, where rows = "seed_records seed d", unfolded n]])
    fix new run' created' and s' :: "('a, 'b) seed_state"
    assume new: "grows_by run new run'" "list_all (\<lambda>r. rr_table r = ?t) new" "tracked run' s'"
      "knows_created run' created'" "length new = pl_records p"
    have "created_in run' t \<noteq> []" if "t \<in> set (ts @ [?t])" for t
    proof (cases "t = ?t")
      case True
      have "filter (\<lambda>r. rr_table r = ?t) new = new" using new(2) by (auto simp: list_all_iff filter_id_conv)
      then show ?thesis using new(1,5) d(3,4) n True by (auto simp: created_in_def grows_by_def)
    next
      case False
      then show ?thesis using that Cons.prems(5) new(1) by (auto simp: created_in_def grows_by_def)
    qed
    then show "part_ends run' (grouped (map pl_table planned)) (sum_list (map pl_records planned))
        (create_tables env au disk seed (seed_definitions spec) planned (run', created') s')"
      using Cons.IH [of "ts @ [?t]" run' s' created'] Cons.prems(1,2) new(3,4) by simp
  qed (auto simp: fun_eq_iff)
  then show ?case by (simp add: d(1) del: grouped.simps)
qed

text \<open>In a grouped list of an order, no record comes before one of a table it may refer to.\<close>

definition deletable_in_reverse :: "(string \<Rightarrow> string set) \<Rightarrow> seed_run_record list \<Rightarrow> bool" where
  "deletable_in_reverse refers rs \<longleftrightarrow>
     (\<forall>i j. i \<le> j \<longrightarrow> j < length rs \<longrightarrow> rr_table (rs ! j) \<notin> refers (rr_table (rs ! i)))"

lemma grouped_tables: "grouped ts rs \<Longrightarrow> rr_table ` set rs \<subseteq> set ts"
  by (induction ts rs rule: grouped.induct) (auto simp: list_all_iff, blast)

lemma grouped_deletable:
  assumes "grouped ts rs" "follows_dependencies deps (us @ ts)"
  shows "deletable_in_reverse (deps_of deps) rs"
  using assms
proof (induction ts arbitrary: us rs)
  case (Cons t ts)
  obtain xs ys where rs: "rs = xs @ ys" "list_all (\<lambda>r. rr_table r = t) xs" "grouped ts ys"
    using Cons.prems(1) by auto
  have ys: "deletable_in_reverse (deps_of deps) ys"
    using Cons.IH [OF rs(3), of "us @ [t]"] Cons.prems(2) by simp
  have "deps_of deps t \<subseteq> set us"
    using follows_before [OF Cons.prems(2), of us t ts] by auto
  moreover have "t \<notin> set us" "set us \<inter> set ts = {}"
    using Cons.prems(2) by (auto simp: follows_dependencies_def)
  ultimately have t: "u \<notin> deps_of deps t" if "u \<in> insert t (set ts)" for u
    using that by auto
  have "rr_table (rs ! j) \<notin> deps_of deps (rr_table (rs ! i))" if "i \<le> j" "j < length rs" for i j
  proof (cases "i < length xs")
    case True
    then have "rr_table (rs ! i) = t" using rs(1,2) by (simp add: nth_append list_all_length)
    moreover have "rr_table (rs ! j) \<in> insert t (set ts)"
    proof (cases "j < length xs")
      case False
      then have "ys ! (j - length xs) \<in> set ys" using rs(1) that by simp
      then show ?thesis using False grouped_tables [OF rs(3)] rs(1) by (auto simp: nth_append)
    qed (use rs(1,2) in \<open>simp add: nth_append list_all_length\<close>)
    ultimately show ?thesis using t by simp
  next
    case False
    then show ?thesis using ys that rs(1) by (auto simp: deletable_in_reverse_def nth_append)
  qed
  then show ?case by (simp add: deletable_in_reverse_def)
qed (simp add: deletable_in_reverse_def)

definition plan_refers :: "seed_plan \<Rightarrow> string \<Rightarrow> string set" where
  "plan_refers plan t = (\<Union>p \<in> set (sp_tables plan). if pl_table p = t then set (pl_depends_on p) else {})"

lemma uuid_run_path:
  assumes "list_all is_ascii_hexdigit uuid"
  shows "run_path (''seed-'' @ uuid) = Inr (''seed-'' @ uuid @ ''.json'')"
proof -
  have "is_ascii_hexdigit c \<Longrightarrow> run_id_byte c" for c
    by (auto simp: run_id_byte_def is_ascii_hexdigit_def is_ascii_alphanumeric_def is_ascii_digit_def
        is_ascii_uppercase_def is_ascii_lowercase_def)
  then have "list_all run_id_byte uuid" using assms by (auto simp: list_all_iff)
  moreover have "list_all run_id_byte ''seed-''" by code_simp
  ultimately show ?thesis by (simp add: run_path_def)
qed


text \<open>A world for the witnesses: a table and one that refers to it, and a server that answers from a list.\<close>

definition demo_seed_env :: "http_response list client_env" where
  "demo_seed_env = demo_env\<lparr>
     env_urls := \<lparr>parse_url = (\<lambda>u. if u = ''https://x'' then Some (demo_url ''/'' u) else None),
       join_url = (\<lambda>b p. Some (demo_url p (''https://x'' @ p)))\<rparr>,
     env_parse_json := (\<lambda>b. Some (JObject [(''result'', JObject [(''sys_id'', JString b)])]))\<rparr>"

definition demo_spec :: seed_spec where
  "demo_spec = \<lparr>ss_version = 1, ss_kind = ''seed-spec'', ss_seed = None, ss_tables =
     [\<lparr>st_name = ''a'', st_count = Some 1, st_records = [], st_template = Some [(''n'', JString ''{{index}}'')],
        st_references = [(''f'', \<lparr>sref_table = ''b'', sref_strategy = ''round_robin''\<rparr>)]\<rparr>,
      \<lparr>st_name = ''b'', st_count = None, st_records = [[]], st_template = None, st_references = []\<rparr>]\<rparr>"

definition demo_plan :: seed_plan where
  "demo_plan = \<lparr>sp_seed = None, sp_tables =
     [\<lparr>pl_table = ''b'', pl_records = 1, pl_depends_on = []\<rparr>, \<lparr>pl_table = ''a'', pl_records = 1, pl_depends_on = [''b'']\<rparr>],
     sp_total_records = 2\<rparr>"

definition demo_seed_state :: "nat list \<Rightarrow> (nat, http_response list) seed_state" where
  "demo_seed_state statuses = ((demo_client full_access, \<lparr>outside = map (\<lambda>n.
     \<lparr>rs_status = n, rs_headers = [], rs_url = ''https://x'', rs_body = Inr ''0123456789abcdef0123456789abcdef''\<rparr>) statuses,
     sent = []\<rparr>), [])"

definition demo_disk :: disk_env where
  "demo_disk = \<lparr>disk_writes = (\<lambda>_. True), disk_removes = (\<lambda>_. True)\<rparr>"





definition demo_run :: seed_run where
  "demo_run = new_run ''0f'' demo_spec ''https://x''"

lemma demo_planned: "build_plan demo_spec = Inr demo_plan"
proof -
  let ?deps = "[(''a'', [''b'']), (''b'', [])]"
  have "table_name_try_from ''a'' = Inr (TableName ''a'')" "table_name_try_from ''b'' = Inr (TableName ''b'')"
    by code_simp+
  then have "plan_table (hd (ss_tables demo_spec)) [] = Inr (''a'', 1, [''b''])"
    "plan_table (hd (tl (ss_tables demo_spec))) [(''a'', [''b''])] = Inr (''b'', 1, [])"
    by (simp_all add: demo_spec_def plan_table_def as_str_defs checked_add_def usize_max_def insort_insert_key_def)
  then have "plan_tables (ss_tables demo_spec) [] [] = Inr (?deps, [(''a'', 1), (''b'', 1)])"
    by (simp add: demo_spec_def)
  moreover have "undefined_reference ?deps = None" by code_simp
  moreover have "topological_order ?deps = Inr [''b'', ''a'']" by code_simp
  moreover have "total_count [1, 1] 0 = Some 2" by (simp add: checked_add_def usize_max_def)
  ultimately show ?thesis
    by (simp add: build_plan_def demo_plan_def bt_get_def demo_spec_def)
qed

lemma demo_uuid: "list_all is_ascii_hexdigit ''0f''"
  by code_simp

lemma demo_disk_writes: "disk_writes demo_disk run"
  by (simp add: demo_disk_def)

lemma demo_apply_result:
  "\<exists>run. fst (apply_seed demo_seed_env (demo_auth True) demo_disk ''0f'' demo_spec demo_plan (demo_seed_state [201, 201])) = Inr run"
proof -
  have "sc_base_url (fst (fst (demo_seed_state [201, 201]))) = ''https://x''" by code_simp
  moreover have "write_run demo_disk demo_run (demo_seed_state [201, 201])
      = (Inr (), fst (demo_seed_state [201, 201]), [(''seed-0f.json'', Some demo_run)])" by code_simp
  moreover have "isl (fst (create_tables demo_seed_env (demo_auth True) demo_disk (sp_seed demo_plan)
      (seed_definitions demo_spec) (sp_tables demo_plan) (demo_run, [])
      (fst (demo_seed_state [201, 201]), [(''seed-0f.json'', Some demo_run)]))) = False" by code_simp
  ultimately show ?thesis
    by (cases "create_tables demo_seed_env (demo_auth True) demo_disk (sp_seed demo_plan)
      (seed_definitions demo_spec) (sp_tables demo_plan) (demo_run, [])
      (fst (demo_seed_state [201, 201]), [(''seed-0f.json'', Some demo_run)])")
      (auto simp: apply_seed_def Let_def demo_run_def [symmetric] and_then_def split: sum.splits)
qed


subsection \<open>The cleanup\<close>

text \<open>Deleting records one after the other, up to the first failure.\<close>

fun delete_all :: "'w client_env \<Rightarrow> ('a, 'w) auth_ops \<Rightarrow> seed_run_record list \<Rightarrow> ('a, 'w, unit) client_op" where
  "delete_all env au [] c = (Inr (), c)"
| "delete_all env au (r # rs) c = and_then (client_delete env au (delete_path r) c) (\<lambda>_. delete_all env au rs)"

definition remaining :: "seed_run \<Rightarrow> nat \<Rightarrow> seed_run" where
  "remaining run n = run\<lparr>ru_records := take n (ru_records run)\<rparr>"

text \<open>What a cleanup of a run of \<open>n\<close> records leaves.\<close>

definition cleaned_up :: "'w client_env \<Rightarrow> ('a, 'w) auth_ops \<Rightarrow> seed_run \<Rightarrow> 'a snow_client \<times> 'w host_world
   \<Rightarrow> nat \<Rightarrow> seed_error + nat \<Rightarrow> 'a snow_client \<times> 'w host_world \<Rightarrow> bool" where
  "cleaned_up env au run c0 k result c1 \<longleftrightarrow> k \<le> length (ru_records run)
     \<and> (\<exists>c. delete_all env au (take k (rev (ru_records run))) c0 = (Inr (), c)
       \<and> (if k = length (ru_records run) then result = Inr k \<and> c1 = c
          else (\<exists>e. client_delete env au (delete_path (rev (ru_records run) ! k)) c = (Inl e, c1)
                  \<and> result = Inl (SeedClientFailed e))))"

lemma cleanup_loop_ends:
  assumes "tracked run s" "\<forall>r. disk_writes disk r" "cleanup_loop env au disk run n s = (result, s')"
  shows "\<exists>k r. cleaned_up env au run (fst s) k r (fst s') \<and> result = map_sum id ((+) n) r
    \<and> tracked (remaining run (length (ru_records run) - k)) s'
    \<and> (\<forall>p. run_path (ru_run_id run) \<noteq> Inr p \<longrightarrow> bt_get (snd s') p = bt_get (snd s) p)"
  using assms(1,3)
proof (induction "length (ru_records run)" arbitrary: run n s)
  case 0
  then have "ru_records run = []" by simp
  moreover from this have "remaining run 0 = run" by (simp add: remaining_def)
  ultimately show ?case using 0
    by (subst (asm) cleanup_loop.simps)
      (auto simp: cleaned_up_def intro!: exI [of _ 0] exI [of _ "Inr 0"])
next
  case (Suc m)
  then have ne: "ru_records run \<noteq> []" by auto
  then obtain xs x where recs: "ru_records run = xs @ [x]" by (cases "ru_records run" rule: rev_exhaust) auto
  let ?run = "run\<lparr>ru_records := xs\<rparr>"
  obtain d c where d: "client_delete env au (delete_path x) (fst s) = (d, c)" by (rule prod.exhaust)
  show ?case
  proof (cases d)
    case (Inl e)
    have "remaining run (length (ru_records run)) = run" by (simp add: remaining_def)
    moreover have "result = Inl (SeedClientFailed e)" "s' = (c, snd s)"
      using Suc.prems(2) d Inl by (auto simp: cleanup_loop.simps [of env au disk run n s] on_client_def recs)
    moreover from this have "cleaned_up env au run (fst s) 0 result (fst s')"
      using d Inl by (simp add: cleaned_up_def recs)
    ultimately show ?thesis using Suc.prems(1)
      by (auto simp: tracked_def intro!: exI [of _ 0] exI [of _ result])
  next
    case (Inr x)
    obtain path where path: "run_path (ru_run_id run) = Inr path" using Suc.prems(1) by (auto simp: tracked_def)
    define s1 where "s1 = (c, bt_insert path (Some ?run) (snd s))"
    have loop: "cleanup_loop env au disk ?run (Suc n) s1 = (result, s')"
      using Suc.prems d Inr path assms(2)
      by (subst (asm) cleanup_loop.simps) (simp add: on_client_def write_run_def s1_def Let_def recs)
    have "tracked ?run s1" using path by (simp add: tracked_def s1_def bt.get_insert)
    moreover have "m = length (ru_records ?run)" using Suc.hyps(2) by (simp add: recs)
    ultimately obtain k r where IH: "cleaned_up env au ?run c k r (fst s')" "result = map_sum id ((+) (Suc n)) r"
        "tracked (remaining ?run (m - k)) s'"
        "\<forall>p. run_path (ru_run_id ?run) \<noteq> Inr p \<longrightarrow> bt_get (snd s') p = bt_get (snd s1) p"
      using Suc.hyps(1) [OF _ _ loop] by (auto simp: s1_def)
    have "cleaned_up env au run (fst s) (Suc k) (map_sum id Suc r) (fst s')"
      using IH(1) d Inr recs Suc.hyps(2) by (auto simp: cleaned_up_def split: if_splits)
    moreover have "remaining run (length (ru_records run) - Suc k) = remaining ?run (m - k)"
      using Suc.hyps(2) by (simp add: remaining_def recs)
    ultimately show ?thesis
      using IH(2-4) path Suc.hyps(2)
      by (cases r) (auto simp: s1_def bt.get_insert intro!: exI [of _ "Suc k"] exI [of _ "map_sum id Suc r"])
  qed
qed

text \<open>
  C36. A cleanup deletes exactly the tracked records, the last created first, one request after
  the other, and forgets each as soon as it is deleted: when a deletion fails, the tracking file
  lists just the records that are left, and when none is left the file is gone. No other
  tracking file changes, and a run of another instance is not touched at all.
\<close>

theorem cleanup_deletes_tracked_records:
  assumes "read_run run_id (snd s) = Inr run" "\<forall>r. disk_writes disk r" "\<forall>p. disk_removes disk p"
    "cleanup_seed env au disk run_id s = (result, s')"
  shows "(ru_instance run \<noteq> sc_base_url (fst (fst s)) \<longrightarrow> isl result \<and> s' = s)
    \<and> (ru_instance run = sc_base_url (fst (fst s)) \<longrightarrow>
        (\<exists>k. cleaned_up env au run (fst s) k result (fst s')
          \<and> bt_get (snd s') (run_id @ ''.json'') = (if k = length (ru_records run) then None
              else Some (Some (remaining run (length (ru_records run) - k))))))
    \<and> (\<forall>p. p \<noteq> run_id @ ''.json'' \<longrightarrow> bt_get (snd s') p = bt_get (snd s) p)"
proof (cases "ru_instance run = sc_base_url (fst (fst s))")
  case True
  have path: "run_path run_id = Inr (run_id @ ''.json'')" "tracked run s" and id: "ru_run_id run = run_id"
    using assms(1)
    by (auto simp: read_run_def bind_result_Inr_iff tracked_def run_path_def split: option.splits if_splits)
  obtain r s1 where loop: "cleanup_loop env au disk run 0 s = (r, s1)" by (rule prod.exhaust)
  obtain k r' where k: "cleaned_up env au run (fst s) k r' (fst s1)" "r = map_sum id ((+) 0) r'"
      "tracked (remaining run (length (ru_records run) - k)) s1"
      "\<forall>p. run_path (ru_run_id run) \<noteq> Inr p \<longrightarrow> bt_get (snd s1) p = bt_get (snd s) p"
    using cleanup_loop_ends [OF path(2) assms(2) loop] by blast
  have r: "r' = r" using k(2) by (cases r') auto
  have tracking: "bt_get (snd s1) (run_id @ ''.json'') = Some (Some (remaining run (length (ru_records run) - k)))"
    using k(3) path(1) id by (simp add: tracked_def remaining_def)
  show ?thesis
  proof (cases r)
    case (Inl e)
    then have "k \<noteq> length (ru_records run)" using k(1) r by (auto simp: cleaned_up_def)
    then show ?thesis
      using assms True k(1,4) path id loop Inl r tracking
      by (auto simp: cleanup_seed_def intro!: exI [of _ k])
  next
    case (Inr n)
    then have "k = length (ru_records run)" using k(1) r by (auto simp: cleaned_up_def split: if_splits)
    moreover have "result = r" "s' = (fst s1, bt_remove (run_id @ ''.json'') (snd s1))"
      using assms True loop Inr path(1) by (simp_all add: cleanup_seed_def)
    ultimately show ?thesis
      using True k(1,4) r path(1) id by (auto simp: bt.get_remove intro!: exI [of _ k])
  qed
qed (use assms in \<open>auto simp: cleanup_seed_def\<close>)

definition demo_tracked :: seed_run where
  "demo_tracked = demo_run\<lparr>ru_records := [\<lparr>rr_table = ''b'', rr_sys_id = ''0123456789abcdef0123456789abcdef''\<rparr>,
     \<lparr>rr_table = ''a'', rr_sys_id = ''0123456789abcdef0123456789abcdef''\<rparr>]\<rparr>"

definition demo_tracked_state :: "nat list \<Rightarrow> (nat, http_response list) seed_state" where
  "demo_tracked_state statuses = (fst (demo_seed_state statuses), [(''seed-0f.json'', Some demo_tracked)])"

theorem cleanup_deletes_tracked_records_witness:
  "\<exists>result s'. cleanup_seed demo_seed_env (demo_auth True) demo_disk ''seed-0f'' (demo_tracked_state [204]) = (result, s')
     \<and> (\<exists>k. cleaned_up demo_seed_env (demo_auth True) demo_tracked (fst (demo_tracked_state [204])) k result (fst s'))"
proof -
  have read: "read_run ''seed-0f'' (snd (demo_tracked_state [204])) = Inr demo_tracked" by code_simp
  have "ru_instance demo_tracked = sc_base_url (fst (fst (demo_tracked_state [204])))" by code_simp
  moreover obtain result s' where run: "cleanup_seed demo_seed_env (demo_auth True) demo_disk ''seed-0f''
      (demo_tracked_state [204]) = (result, s')" by (rule prod.exhaust)
  ultimately show ?thesis
    using cleanup_deletes_tracked_records [OF read _ _ run] by (auto simp: demo_disk_def)
qed

text \<open>
  A record that is gone already blocks its run: as long as the instance refuses to delete the last
  record, every cleanup ends with the same error and leaves the file as it is.
\<close>

lemma gone_record_blocks_cleanup:
  assumes "read_run run_id (snd s) = Inr run" "ru_instance run = sc_base_url (fst (fst s))" "ru_records run = rs @ [r]"
    "client_delete env au (delete_path r) (fst s) = (Inl e, c)"
  shows "cleanup_seed env au disk run_id s = (Inl (SeedClientFailed e), c, snd s)"
  using assms by (simp add: cleanup_seed_def cleanup_loop.simps [of env au disk run 0 s] on_client_def)

end
