(* ===== verification/Dictionary.thy ===== *)
theory Dictionary
  imports Pagination Http_Client Btree_Map
begin

text \<open>
  Rows of the Table API through the authenticated client (\<open>src/src/client/table.rs\<close>,
  \<open>src/src/models/record.rs\<close>) and the effective schema of a table, read from the dictionary
  of the instance (\<open>src/src/cli/commands/dictionary.rs\<close>). The functions of this theory get
  the table read as the argument \<open>read\<close>; \<open>client_rows\<close> is the client's.
\<close>

type_synonym row = "json btree_map"

type_synonym ('s, 'r) table_read = "table_name \<Rightarrow> string option \<Rightarrow> string option \<Rightarrow> pagination_config
   \<Rightarrow> order_by option \<Rightarrow> 's \<Rightarrow> (client_error list_error + 'r list) \<times> 's"

text \<open>A record is any JSON object; its fields are kept in the order of their names.\<close>

definition decode_row :: "json \<Rightarrow> row option" where
  "decode_row v = (case v of JObject m \<Rightarrow> Some (bt_collect (rev m)) | _ \<Rightarrow> None)"

definition decode_rows :: "json \<Rightarrow> row list option" where
  "decode_rows v = Option.bind (struct_fields [''result''] v) (required (\<lambda>v. case v of
      JArray vs \<Rightarrow> those (map decode_row vs) | _ \<Rightarrow> None) ''result'')"

definition client_page_get :: "'w client_env \<Rightarrow> ('a, 'w) auth_ops
   \<Rightarrow> ('a snow_client \<times> 'w host_world, client_error, row) page_get" where
  "client_page_get env au path params s =
     and_then (get_with_params env au path params s) (\<lambda>response s.
       and_then (decode_body env decode_rows response s) (\<lambda>rows s.
         (Inr \<lparr>header_total = Option.bind (header_value ''x-total-count'' (rs_headers response)) header_text,
               page_result = rows\<rparr>, s)))"

text \<open>
  A read with a positive page size returns (\<open>fetch_pages_returns\<close>); its result is taken out of
  the \<^typ>\<open>'a option\<close> here, once for the callers, which all have one.
\<close>

definition client_rows :: "'w client_env \<Rightarrow> ('a, 'w) auth_ops \<Rightarrow> ('a snow_client \<times> 'w host_world, row) table_read" where
  "client_rows env au table query flds pc ob s =
     the (get_table_records (client_page_get env au) table query flds pc ob s)"

lemma client_rows_read:
  assumes "0 < pc_page_size pc"
  shows "get_table_records (client_page_get env au) table query flds pc ob s
    = Some (client_rows env au table query flds pc ob s)"
proof -
  obtain out where "fetch_pages (client_page_get env au) (table_path table)
      (case ob of Some o' \<Rightarrow> Some (apply_to_query o' query) | None \<Rightarrow> query) flds False
      (pc_limit pc) (pc_page_size pc) (pc_offset pc) [] None s = Some out"
    by (rule exE [OF fetch_pages_returns [OF assms]])
  then show ?thesis
    by (simp add: client_rows_def get_table_records_def get_table_records_with_meta_def
        get_table_records_with_domain_def Let_def)
qed

definition get_str :: "row \<Rightarrow> string \<Rightarrow> string option" where
  "get_str r field = Option.bind (bt_get r field) json_as_str"

definition row_sys_id :: "row \<Rightarrow> string option" where
  "row_sys_id r = get_str r ''sys_id''"

definition or_empty :: "string option \<Rightarrow> string" where
  "or_empty s = (case s of Some x \<Rightarrow> x | None \<Rightarrow> [])"

subsection \<open>The hierarchy of a table\<close>

datatype dictionary_error =
    TableReadFailed "client_error list_error"
  | DictionaryTableName identifier_error

definition dictionary_page_size :: nat where
  "dictionary_page_size = 500"

definition max_hierarchy_depth :: nat where
  "max_hierarchy_depth = 32"

definition reading :: "('s, 'r) table_read \<Rightarrow> table_name \<Rightarrow> string \<Rightarrow> string \<Rightarrow> pagination_config
   \<Rightarrow> order_by option \<Rightarrow> 's \<Rightarrow> (dictionary_error + 'r list) \<times> 's" where
  "reading read table query flds pc ob s =
     (case read table (Some query) (Some flds) pc ob s of (r, s') \<Rightarrow> (map_sum TableReadFailed id r, s'))"

definition reference_value :: "row \<Rightarrow> string \<Rightarrow> string option" where
  "reference_value r field = (case bt_get r field of
      Some (JString t) \<Rightarrow> Some t
    | Some (JObject m) \<Rightarrow> Option.bind (map_of m ''value'') json_as_str
    | _ \<Rightarrow> None)"

definition fetch_table_definition :: "('s, row) table_read \<Rightarrow> string \<Rightarrow> 's
   \<Rightarrow> (dictionary_error + (table_name \<times> string option) option) \<times> 's" where
  "fetch_table_definition read query s =
     and_then (reading read (TableName ''sys_db_object'') query ''name,super_class''
         (default_pagination\<lparr>pc_limit := Some 1\<rparr>) None s) (\<lambda>rows s.
       case rows of
         [] \<Rightarrow> (Inr None, s)
       | r # _ \<Rightarrow> (case table_name_try_from (or_empty (get_str r ''name'')) of
           Inl e \<Rightarrow> (Inl (DictionaryTableName e), s)
         | Inr name \<Rightarrow> (Inr (Some (name, case reference_value r ''super_class'' of
               Some i \<Rightarrow> if i = [] then None else Some i | None \<Rightarrow> None)), s)))"

definition is_not_found :: "dictionary_error \<Rightarrow> bool" where
  "is_not_found e = (case e of
      TableReadFailed (ClientFailed (ApiFailed a)) \<Rightarrow> ae_status a = 404 | _ \<Rightarrow> False)"

text \<open>\<open>while let Some((name, super_class)) = next\<close>.\<close>

function hierarchy_walk :: "('s, row) table_read \<Rightarrow> table_name list \<Rightarrow> (table_name \<times> string option) option
   \<Rightarrow> 's \<Rightarrow> (dictionary_error + table_name list) \<times> 's" where
  "hierarchy_walk read chain next_table s = (case next_table of
      None \<Rightarrow> (Inr chain, s)
    | Some (name, super_class) \<Rightarrow>
        if name \<in> set chain \<or> max_hierarchy_depth \<le> length chain then (Inr chain, s)
        else (case super_class of
            None \<Rightarrow> (Inr (chain @ [name]), s)
          | Some i \<Rightarrow> and_then (fetch_table_definition read (''sys_id='' @ i) s) (\<lambda>next_table s.
              hierarchy_walk read (chain @ [name]) next_table s)))"
  by pat_completeness auto
termination
  by (relation "measure (\<lambda>(read, chain, next_table, s). max_hierarchy_depth - length chain)") auto

declare hierarchy_walk.simps [simp del]

definition fetch_table_hierarchy :: "('s, row) table_read \<Rightarrow> table_name \<Rightarrow> 's
   \<Rightarrow> (dictionary_error + table_name list) \<times> 's" where
  "fetch_table_hierarchy read table s =
     and_then (case fetch_table_definition read (''name='' @ table_name_as_str table) s of
         (Inl e, s) \<Rightarrow> (if is_not_found e then (Inr None, s) else (Inl e, s))
       | ok \<Rightarrow> ok) (\<lambda>next_table s.
     and_then (hierarchy_walk read [] next_table s) (\<lambda>chain s.
       (Inr (if chain = [] then [table] else chain), s)))"

subsection \<open>The columns\<close>

text \<open>\<open>position(..).unwrap_or(usize::MAX)\<close>.\<close>

definition column_depth :: "table_name list \<Rightarrow> row \<Rightarrow> nat" where
  "column_depth tables r =
     (let name = or_empty (get_str r ''name'') in
      if name \<in> set (map table_name_as_str tables)
      then length (takeWhile (\<lambda>t. table_name_as_str t \<noteq> name) tables) else usize_max)"

definition column_name :: "row \<Rightarrow> string" where
  "column_name r = or_empty (get_str r ''element'')"

definition keep_column :: "table_name list \<Rightarrow> row \<Rightarrow> row hash_map \<Rightarrow> row hash_map" where
  "keep_column tables r by_element = (case hm_get by_element (column_name r) of
      Some existing \<Rightarrow> if column_depth tables existing \<le> column_depth tables r then by_element
        else hm_insert (column_name r) r by_element
    | None \<Rightarrow> hm_insert (column_name r) r by_element)"

text \<open>The keys of the map are distinct, so the order it is iterated in does not show.\<close>

definition keep_most_derived_columns :: "row list \<Rightarrow> table_name list \<Rightarrow> row list" where
  "keep_most_derived_columns rows tables =
     map snd (sort_key fst (fold (keep_column tables) rows []))"

definition dictionary_query :: "table_name list \<Rightarrow> string" where
  "dictionary_query tables = (case tables of
      [single] \<Rightarrow> ''name='' @ table_name_as_str single @ ''^elementISNOTEMPTY^element!=sys_tags''
    | _ \<Rightarrow> ''nameIN'' @ join '','' (map table_name_as_str tables) @ ''^elementISNOTEMPTY^element!=sys_tags'')"

definition fetch_dictionary_columns :: "('s, row) table_read \<Rightarrow> table_name list \<Rightarrow> string \<Rightarrow> 's
   \<Rightarrow> (dictionary_error + row list) \<times> 's" where
  "fetch_dictionary_columns read tables flds s =
     and_then (reading read (TableName ''sys_dictionary'') (dictionary_query tables) flds
         (default_pagination\<lparr>pc_page_size := dictionary_page_size\<rparr>)
         (case order_by_from_str ''element'' of Inr ob \<Rightarrow> Some ob | Inl _ \<Rightarrow> None) s)
       (\<lambda>rows s. (Inr (keep_most_derived_columns rows tables), s))"

subsection \<open>What they answer\<close>

text \<open>The chain has no table twice and is bounded, whatever the instance answers.\<close>

lemma hierarchy_walk_chain:
  assumes "hierarchy_walk read chain next_table s = (Inr chain', s')" "distinct chain" "length chain \<le> max_hierarchy_depth"
  shows "distinct chain' \<and> length chain' \<le> max_hierarchy_depth \<and> prefix chain chain'"
  using assms
proof (induction "max_hierarchy_depth - length chain" arbitrary: chain next_table s rule: less_induct)
  case less
  have step: "distinct chain' \<and> length chain' \<le> max_hierarchy_depth \<and> prefix chain chain'"
    if "hierarchy_walk read (chain @ [name]) n t = (Inr chain', s')" "name \<notin> set chain"
      "length chain < max_hierarchy_depth" for name n t
    using less(1) [of "chain @ [name]" n t] less(3) that append_prefixD [of chain "[name]" chain'] by auto
  show ?case
    using less(2,3,4) step
    by (subst (asm) hierarchy_walk.simps)
      (auto simp: and_then_Inr_iff not_le split: option.splits prod.splits if_splits)
qed

lemma fetch_table_hierarchy_chain:
  assumes "fetch_table_hierarchy read table s = (Inr chain, s')"
  shows "distinct chain \<and> chain \<noteq> [] \<and> length chain \<le> max_hierarchy_depth"
  using assms hierarchy_walk_chain [of read "[]"]
  by (fastforce simp: fetch_table_hierarchy_def and_then_Inr_iff max_hierarchy_depth_def split: if_splits)

text \<open>The kept columns: one per name, and no row of that name is of a nearer table.\<close>

definition nearest_columns :: "table_name list \<Rightarrow> row list \<Rightarrow> row hash_map \<Rightarrow> bool" where
  "nearest_columns tables rows m \<longleftrightarrow> distinct (hm_keys m)
     \<and> (\<forall>n r. hm_get m n = Some r \<longrightarrow> r \<in> set rows \<and> column_name r = n)
     \<and> (\<forall>r \<in> set rows. \<exists>r'. hm_get m (column_name r) = Some r' \<and> column_depth tables r' \<le> column_depth tables r)"

lemma keep_column_nearest:
  assumes "nearest_columns tables rows m"
  shows "nearest_columns tables (rows @ [r]) (keep_column tables r m)"
proof (cases "hm_get m (column_name r)")
  case None
  then show ?thesis using assms
    by (fastforce simp: nearest_columns_def keep_column_def hm.get_insert)
next
  case (Some existing)
  then show ?thesis using assms
    by (fastforce simp: nearest_columns_def keep_column_def hm.get_insert)
qed

lemma fold_keep_column: "nearest_columns tables rows (fold (keep_column tables) rows [])"
proof (induction rows rule: rev_induct)
  case (snoc r rows)
  then show ?case using keep_column_nearest by simp
qed (simp add: nearest_columns_def hm_keys_def hm.get_empty)

lemma effective_columns:
  "sorted_wrt (<) (map column_name (keep_most_derived_columns rows tables))"
  "r \<in> set rows \<Longrightarrow> \<exists>r' \<in> set (keep_most_derived_columns rows tables).
     column_name r' = column_name r \<and> column_depth tables r' \<le> column_depth tables r"
  "set (keep_most_derived_columns rows tables) \<subseteq> set rows"
proof -
  define m where "m = fold (keep_column tables) rows []"
  have m: "nearest_columns tables rows m" by (simp add: m_def fold_keep_column)
  have entry: "(n, r) \<in> set m \<longleftrightarrow> hm_get m n = Some r" for n r
    using m by (simp add: nearest_columns_def hm_keys_def hm_get_def)
  have eq: "map column_name (map snd (sort_key fst m)) = map fst (sort_key fst m)"
    using m entry by (auto simp: nearest_columns_def)
  have "distinct (map fst (sort_key fst m))"
    using m by (simp add: nearest_columns_def hm_keys_def distinct_map)
  then show "sorted_wrt (<) (map column_name (keep_most_derived_columns rows tables))"
    unfolding keep_most_derived_columns_def m_def [symmetric] eq by (simp add: strict_sorted_iff)
  have columns: "\<exists>r'. (column_name r, r') \<in> set m \<and> column_name r' = column_name r
      \<and> column_depth tables r' \<le> column_depth tables r" if "r \<in> set rows" for r
    using m entry that by (fastforce simp: nearest_columns_def)
  show "set (keep_most_derived_columns rows tables) \<subseteq> set rows"
    unfolding keep_most_derived_columns_def m_def [symmetric] using m entry by (auto simp: nearest_columns_def)
  show "r \<in> set rows \<Longrightarrow> \<exists>r' \<in> set (keep_most_derived_columns rows tables).
     column_name r' = column_name r \<and> column_depth tables r' \<le> column_depth tables r"
    unfolding keep_most_derived_columns_def m_def [symmetric]
    by (simp only: set_map set_sort image_image) (metis columns image_eqI snd_conv)
qed

end
