(* ===== verification/Dataset_Records.thy ===== *)
theory Dataset_Records
  imports Dictionary
begin

text \<open>
  Flat datasets (\<open>src/src/cli/commands/data/flat.rs\<close>, with the types of \<open>data/types.rs\<close> and
  the helpers of \<open>data/package.rs\<close>): the preparation of an import-ready export, the validation
  of records against the schema of their table, and the flat import. The texts of the issues are
  authored from the values an issue holds and are left out.
\<close>

subsection \<open>JSON values as text\<close>

definition show_int :: "int \<Rightarrow> string" where
  "show_int i = (if i < 0 then CHR ''-'' # show_nat (nat (- i)) else show_nat (nat i))"

definition show_number :: "json_number \<Rightarrow> string" where
  "show_number n = (case n of IntNumber i \<Rightarrow> show_int i | FloatNumber t \<Rightarrow> t)"

lemma size_map_of: "map_of m k = Some v \<Longrightarrow> size v < size (JObject m)"
  by (induction m) (auto split: if_splits)

function json_value_as_text :: "json \<Rightarrow> string option" where
  "json_value_as_text JNull = None"
| "json_value_as_text (JString t) = Some t"
| "json_value_as_text (JBool b) = Some (if b then ''true'' else ''false'')"
| "json_value_as_text (JNumber n) = Some (show_number n)"
| "json_value_as_text (JObject m) =
     (case Option.bind (map_of m ''value'') json_value_as_text of
        Some t \<Rightarrow> Some t
      | None \<Rightarrow> Option.bind (map_of m ''display_value'') json_value_as_text)"
| "json_value_as_text (JArray vs) = None"
  by pat_completeness auto
termination
  by (relation "measure size") (auto simp del: json.size dest: size_map_of)

definition json_value_as_bool :: "json \<Rightarrow> bool" where
  "json_value_as_bool v = (case v of
      JBool b \<Rightarrow> b
    | JString t \<Rightarrow> t = ''true'' \<or> t = ''1''
    | JNumber (IntNumber i) \<Rightarrow> i \<noteq> 0 \<and> - (2 ^ 63) \<le> i \<and> i < 2 ^ 63
    | JNumber (FloatNumber t) \<Rightarrow> False
    | JObject m \<Rightarrow> json_value_as_text v \<in> {Some ''true'', Some ''1''}
    | _ \<Rightarrow> False)"

subsection \<open>Schema, datasets and reports\<close>

record schema_field =
  sf_name :: string
  sf_internal_type :: string
  sf_mandatory :: bool
  sf_read_only :: bool
  sf_default_value :: "string option"

record omitted_export_field =
  oe_field :: string
  oe_reason :: string
  oe_affected_records :: nat

record export_preparation =
  ep_mode :: string
  ep_reference_policy :: string
  ep_omitted_fields :: "omitted_export_field list"

record table_export_artifact =
  te_version :: nat
  te_kind :: string
  te_command :: string
  te_instance :: string
  te_table :: string
  te_query :: "string option"
  te_fields :: "string list option"
  te_exported_at_unix_s :: nat
  te_record_count :: nat
  te_records :: "row list"
  te_preparation :: "export_preparation option"

record validation_issue =
  vi_kind :: string
  vi_field :: "string option"
  vi_record_index :: "nat option"

record validation_report =
  vr_dataset_kind :: string
  vr_table :: string
  vr_ready :: bool
  vr_record_count :: nat
  vr_field_count :: nat
  vr_errors :: "validation_issue list"
  vr_warnings :: "validation_issue list"

record import_failure =
  if_record_index :: nat
  if_error :: "client_error option"

record import_report =
  ir_dry_run :: bool
  ir_strategy :: string
  ir_table :: string
  ir_record_count :: nat
  ir_created :: nat
  ir_failed :: nat
  ir_skipped :: nat
  ir_error_count :: nat
  ir_warning_count :: nat
  ir_failures :: "import_failure list"

definition is_system_managed_field :: "string \<Rightarrow> bool" where
  "is_system_managed_field f \<longleftrightarrow> f \<in> set [''sys_id'', ''sys_created_on'', ''sys_created_by'', ''sys_updated_on'',
     ''sys_updated_by'', ''sys_mod_count'', ''sys_tags'', ''sys_domain_path'']"

definition is_unsupported_field_type :: "string \<Rightarrow> bool" where
  "is_unsupported_field_type t \<longleftrightarrow>
     t \<in> set [''journal'', ''journal_input'', ''script'', ''translated_html'', ''password'']"

definition record_field_names :: "string list option \<Rightarrow> row list \<Rightarrow> string list" where
  "record_field_names flds rows =
     bs_collect ((case flds of Some fs \<Rightarrow> fs | None \<Rightarrow> []) @ concat (map bt_keys rows))"

definition split_csv_fields :: "string option \<Rightarrow> string list option" where
  "split_csv_fields flds = (case flds of
      None \<Rightarrow> None
    | Some t \<Rightarrow> (let fs = filter (\<lambda>f. f \<noteq> []) (map trim (split_on (CHR '','') t)) in
        if fs = [] then None else Some fs))"

definition long_running_timeout_secs :: "nat option \<Rightarrow> nat" where
  "long_running_timeout_secs t = (case t of Some n \<Rightarrow> n | None \<Rightarrow> 180)"

text \<open>\<open>schema_by_name\<close>: the last column of a name.\<close>

definition schema_column :: "schema_field list \<Rightarrow> string \<Rightarrow> schema_field option" where
  "schema_column schema name = map_of (rev (map (\<lambda>f. (sf_name f, f)) schema)) name"

definition schema_text :: "row \<Rightarrow> string \<Rightarrow> string" where
  "schema_text r f = or_empty (Option.bind (bt_get r f) json_value_as_text)"

definition schema_flag :: "row \<Rightarrow> string \<Rightarrow> bool" where
  "schema_flag r f = (case bt_get r f of Some v \<Rightarrow> json_value_as_bool v | None \<Rightarrow> False)"

definition schema_field_of :: "row \<Rightarrow> schema_field" where
  "schema_field_of r = \<lparr>sf_name = or_empty (get_str r ''element''),
     sf_internal_type = schema_text r ''internal_type'',
     sf_mandatory = schema_flag r ''mandatory'',
     sf_read_only = schema_flag r ''read_only'',
     sf_default_value = (if schema_text r ''default_value'' = [] then None
       else Option.bind (bt_get r ''default_value'') json_value_as_text)\<rparr>"

definition fetch_table_schema :: "('s, row) table_read \<Rightarrow> string \<Rightarrow> 's
   \<Rightarrow> (dictionary_error + schema_field list) \<times> 's" where
  "fetch_table_schema read table s = (case table_name_try_from table of
      Inl e \<Rightarrow> (Inl (DictionaryTableName e), s)
    | Inr name \<Rightarrow>
        and_then (fetch_table_hierarchy read name s) (\<lambda>hierarchy s.
        and_then (fetch_dictionary_columns read hierarchy
            ''name,element,internal_type,mandatory,read_only,default_value'' s) (\<lambda>rows s.
          (Inr (filter (\<lambda>f. sf_name f \<noteq> []) (map schema_field_of rows)), s))))"

subsection \<open>Import-ready exports\<close>

definition omission_reason :: "schema_field list \<Rightarrow> string \<Rightarrow> string option" where
  "omission_reason schema name =
     (if is_system_managed_field name then Some ''system_managed''
      else (case schema_column schema name of
          None \<Rightarrow> Some ''unknown_field''
        | Some f \<Rightarrow> if sf_read_only f then Some ''read_only''
            else if is_unsupported_field_type (sf_internal_type f) then Some ''unsupported_field_type''
            else None))"

fun omit_fields :: "schema_field list \<Rightarrow> string list \<Rightarrow> row list \<Rightarrow> row list \<times> omitted_export_field list" where
  "omit_fields schema [] rows = (rows, [])"
| "omit_fields schema (name # names) rows = (case omission_reason schema name of
      None \<Rightarrow> omit_fields schema names rows
    | Some reason \<Rightarrow> (case omit_fields schema names (map (bt_remove name) rows) of (rows', omitted) \<Rightarrow>
        (rows', \<lparr>oe_field = name, oe_reason = reason,
           oe_affected_records = length (filter (\<lambda>r. bt_get r name \<noteq> None) rows)\<rparr> # omitted)))"

text \<open>\<^term>\<open>None\<close>: no dictionary columns could be read.\<close>

definition prepare_import_ready_export :: "row list \<Rightarrow> string list option \<Rightarrow> schema_field list
   \<Rightarrow> (row list \<times> string list option \<times> export_preparation) option" where
  "prepare_import_ready_export rows flds schema =
     (if schema = [] then None
      else (case omit_fields schema (filter (\<lambda>n. n \<noteq> ''*'') (record_field_names flds rows)) rows of
        (rows', omitted) \<Rightarrow>
          Some (rows', Some (record_field_names
              (map_option (filter (\<lambda>n. n \<noteq> ''*'' \<and> n \<notin> oe_field ` set omitted)) flds) rows'),
            \<lparr>ep_mode = ''import_ready'', ep_reference_policy = ''source_values_unchanged'',
             ep_omitted_fields = omitted\<rparr>)))"

subsection \<open>Validation\<close>

definition kind_issues :: "string \<Rightarrow> validation_issue list" where
  "kind_issues kind = (if kind \<noteq> ''table-export'' \<and> kind \<noteq> ''dataset-table''
     then [\<lparr>vi_kind = ''dataset_kind'', vi_field = None, vi_record_index = None\<rparr>] else [])"

definition schema_issues :: "schema_field list \<Rightarrow> validation_issue list" where
  "schema_issues schema = (if schema = []
     then [\<lparr>vi_kind = ''table'', vi_field = None, vi_record_index = None\<rparr>] else [])"

definition field_errors :: "schema_field list \<Rightarrow> string \<Rightarrow> validation_issue list" where
  "field_errors schema name = (case schema_column schema name of
      Some f \<Rightarrow> if sf_read_only f \<or> is_system_managed_field name
        then [\<lparr>vi_kind = ''field_not_writable'', vi_field = Some name, vi_record_index = None\<rparr>] else []
    | None \<Rightarrow> [\<lparr>vi_kind = ''unknown_field'', vi_field = Some name, vi_record_index = None\<rparr>])"

definition field_warnings :: "schema_field list \<Rightarrow> string \<Rightarrow> validation_issue list" where
  "field_warnings schema name = (case schema_column schema name of
      Some f \<Rightarrow> if \<not> (sf_read_only f \<or> is_system_managed_field name) \<and> is_unsupported_field_type (sf_internal_type f)
        then [\<lparr>vi_kind = ''unsupported_field_type'', vi_field = Some name, vi_record_index = None\<rparr>] else []
    | None \<Rightarrow> [])"

definition is_required_field :: "schema_field \<Rightarrow> bool" where
  "is_required_field f \<longleftrightarrow> sf_mandatory f \<and> \<not> sf_read_only f \<and> or_empty (sf_default_value f) = []"

definition required_issues :: "schema_field list \<Rightarrow> row list \<Rightarrow> validation_issue list" where
  "required_issues schema rows = concat (map (\<lambda>f.
     concat (map (\<lambda>(i, r). if bt_get r (sf_name f) = None
       then [\<lparr>vi_kind = ''missing_required_field'', vi_field = Some (sf_name f), vi_record_index = Some i\<rparr>] else [])
       (enumerate 0 rows))) (filter is_required_field schema))"

definition table_validation_report :: "schema_field list \<Rightarrow> string \<Rightarrow> string \<Rightarrow> string list option \<Rightarrow> row list
   \<Rightarrow> validation_report" where
  "table_validation_report schema kind table flds rows =
     (let names = record_field_names flds rows;
          errors = kind_issues kind @ schema_issues schema @ concat (map (field_errors schema) names)
            @ required_issues schema rows
      in \<lparr>vr_dataset_kind = kind, vr_table = table, vr_ready = (errors = []), vr_record_count = length rows,
          vr_field_count = length names, vr_errors = errors, vr_warnings = concat (map (field_warnings schema) names)\<rparr>)"

definition build_table_validation_report :: "('s, row) table_read \<Rightarrow> string \<Rightarrow> string \<Rightarrow> string list option
   \<Rightarrow> row list \<Rightarrow> 's \<Rightarrow> (dictionary_error + validation_report) \<times> 's" where
  "build_table_validation_report read kind table flds rows s =
     and_then (fetch_table_schema read table s) (\<lambda>schema s.
       (Inr (table_validation_report schema kind table flds rows), s))"

definition build_flat_validation_report :: "('s, row) table_read \<Rightarrow> table_export_artifact \<Rightarrow> 's
   \<Rightarrow> (dictionary_error + validation_report) \<times> 's" where
  "build_flat_validation_report read artifact s =
     build_table_validation_report read (te_kind artifact) (te_table artifact) (te_fields artifact) (te_records artifact) s"

subsection \<open>The flat commands\<close>

datatype data_error =
    ImportReadyFormat
  | NoReadableColumns
  | SchemaFailed dictionary_error
  | ExportReadFailed "client_error list_error"
  | DatasetInvalid string "validation_issue list"
  | DatasetTableName identifier_error
  | ImportSetFailed nat
  | ImportFailed nat string

record export_request =
  er_table :: table_name
  er_query :: "string option"
  er_fields :: "string option"
  er_limit :: "nat option"
  er_order_by :: "order_by option"
  er_import_ready :: bool

definition export_artifact :: "string \<Rightarrow> nat \<Rightarrow> export_request \<Rightarrow> row list \<Rightarrow> string list option
   \<Rightarrow> export_preparation option \<Rightarrow> table_export_artifact" where
  "export_artifact base_url now e rows flds preparation =
     \<lparr>te_version = 1, te_kind = ''table-export'', te_command = ''data export'', te_instance = base_url,
      te_table = table_name_as_str (er_table e), te_query = er_query e, te_fields = flds,
      te_exported_at_unix_s = now, te_record_count = length rows, te_records = rows, te_preparation = preparation\<rparr>"

text \<open>The artifact of \<open>handle_export\<close>; where it is written is the caller's.\<close>

definition export_records :: "('s, row) table_read \<Rightarrow> string \<Rightarrow> nat \<Rightarrow> output_format \<Rightarrow> export_request \<Rightarrow> 's
   \<Rightarrow> (data_error + table_export_artifact) \<times> 's" where
  "export_records read base_url now format e s =
     (if er_import_ready e \<and> format \<noteq> Json \<and> format \<noteq> Auto then (Inl ImportReadyFormat, s)
      else (case read (er_table e) (er_query e) (er_fields e) (default_pagination\<lparr>pc_limit := er_limit e\<rparr>) (er_order_by e) s of
        (Inl err, s) \<Rightarrow> (Inl (ExportReadFailed err), s)
      | (Inr rows, s) \<Rightarrow>
          (let flds = split_csv_fields (er_fields e) in
           if \<not> er_import_ready e then (Inr (export_artifact base_url now e rows flds None), s)
           else (case fetch_table_schema read (table_name_as_str (er_table e)) s of
             (Inl err, s) \<Rightarrow> (Inl (SchemaFailed err), s)
           | (Inr schema, s) \<Rightarrow> (case prepare_import_ready_export rows flds schema of
                None \<Rightarrow> (Inl NoReadableColumns, s)
              | Some (rows', flds', preparation) \<Rightarrow>
                  (Inr (export_artifact base_url now e rows' flds' (Some preparation)), s))))))"

text \<open>The rows of an Import Set answer: the status of a row, and whether it carries an error.\<close>

definition import_set_rows :: "json \<Rightarrow> (string option) list option" where
  "import_set_rows v = Option.bind (struct_fields [''result''] v) (defaulted [] (\<lambda>r. case r of
      JArray vs \<Rightarrow> those (map (\<lambda>x. Option.bind (struct_fields [''status'', ''error_message'', ''status_message''] x)
        (\<lambda>m. Option.bind (optional json_as_str ''status'' m) (\<lambda>status.
          Option.bind (optional json_as_str ''error_message'' m) (\<lambda>_.
          Option.bind (optional json_as_str ''status_message'' m) (\<lambda>_. Some status))))) vs)
    | _ \<Rightarrow> None) ''result'')"

definition import_set_failed :: "(string option) list \<Rightarrow> bool" where
  "import_set_failed rows \<longleftrightarrow> (\<exists>s \<in> set rows. map_option to_ascii_lowercase s = Some ''error'')"

text \<open>\<open>SingleRecordResponse\<close>.\<close>

definition decode_single_record :: "json \<Rightarrow> row option" where
  "decode_single_record v = Option.bind (struct_fields [''result''] v) (required decode_row ''result'')"

record 's create_ops =
  create_record :: "string \<Rightarrow> row \<Rightarrow> 's \<Rightarrow> (client_error + row) \<times> 's"
  create_staged :: "string \<Rightarrow> row \<Rightarrow> 's \<Rightarrow> (client_error + (string option) list) \<times> 's"

definition client_creates :: "'w client_env \<Rightarrow> ('a, 'w) auth_ops \<Rightarrow> ('a snow_client \<times> 'w host_world) create_ops" where
  "client_creates env au = \<lparr>
     create_record = (\<lambda>path body s. post_json env au decode_single_record path (env_print_json env (JObject body)) s),
     create_staged = (\<lambda>path body s. post_json env au import_set_rows path (env_print_json env (JObject body)) s)\<rparr>"

text \<open>One record of the loop: a failure, or \<^term>\<open>None\<close> when it was created.\<close>

definition import_record :: "'s create_ops \<Rightarrow> bool \<Rightarrow> string \<Rightarrow> nat \<Rightarrow> row \<Rightarrow> 's \<Rightarrow> import_failure option \<times> 's" where
  "import_record ops staged path i r s =
     (if staged then (case create_staged ops path r s of
          (Inl e, s) \<Rightarrow> (Some \<lparr>if_record_index = i, if_error = Some e\<rparr>, s)
        | (Inr rows, s) \<Rightarrow> (if import_set_failed rows then Some \<lparr>if_record_index = i, if_error = None\<rparr> else None, s))
      else (case create_record ops path r s of
          (Inl e, s) \<Rightarrow> (Some \<lparr>if_record_index = i, if_error = Some e\<rparr>, s)
        | (Inr _, s) \<Rightarrow> (None, s)))"

fun import_records :: "'s create_ops \<Rightarrow> bool \<Rightarrow> string \<Rightarrow> nat \<Rightarrow> row list \<Rightarrow> nat \<Rightarrow> import_failure list \<Rightarrow> 's
   \<Rightarrow> (nat \<times> import_failure list) \<times> 's" where
  "import_records ops staged path i [] created failures s = ((created, failures), s)"
| "import_records ops staged path i (r # rows) created failures s =
     (case import_record ops staged path i r s of
        (None, s) \<Rightarrow> import_records ops staged path (Suc i) rows (Suc created) failures s
      | (Some f, s) \<Rightarrow> import_records ops staged path (Suc i) rows created (failures @ [f]) s)"

definition flat_report :: "bool \<Rightarrow> bool \<Rightarrow> table_export_artifact \<Rightarrow> validation_report \<Rightarrow> nat \<Rightarrow> nat
   \<Rightarrow> import_failure list \<Rightarrow> import_report" where
  "flat_report dry_run staged artifact report created skipped failures =
     \<lparr>ir_dry_run = dry_run, ir_strategy = (if staged then ''import_set'' else ''table_api''),
      ir_table = te_table artifact, ir_record_count = te_record_count artifact, ir_created = created,
      ir_failed = length failures, ir_skipped = skipped, ir_error_count = length (vr_errors report),
      ir_warning_count = length (vr_warnings report), ir_failures = failures\<rparr>"

text \<open>The report is printed before a failure is reported; both are in the result.\<close>

definition import_flat :: "('s, row) table_read \<Rightarrow> 's create_ops \<Rightarrow> table_export_artifact \<Rightarrow> bool
   \<Rightarrow> table_name option \<Rightarrow> bool \<Rightarrow> 's \<Rightarrow> (data_error + import_report \<times> data_error option) \<times> 's" where
  "import_flat read ops artifact dry_run import_set_table fail_on_error s =
     (case build_flat_validation_report read artifact s of
        (Inl e, s) \<Rightarrow> (Inl (SchemaFailed e), s)
      | (Inr report, s) \<Rightarrow>
          (let staged = import_set_table \<noteq> None in
           if \<not> vr_ready report then (Inl (DatasetInvalid (vr_table report) (vr_errors report)), s)
           else if dry_run then (Inr (flat_report True staged artifact report 0 (te_record_count artifact) [], None), s)
           else (case table_name_try_from (te_table artifact) of
               Inl e \<Rightarrow> (Inl (DatasetTableName e), s)
             | Inr _ \<Rightarrow>
                (case import_records ops staged (case import_set_table of
                     Some t \<Rightarrow> ''/api/now/import/'' @ table_name_as_str t
                   | None \<Rightarrow> ''/api/now/table/'' @ te_table artifact) 0 (te_records artifact) 0 [] s of
                  ((created, failures), s) \<Rightarrow>
                    (Inr (flat_report False staged artifact report created 0 failures,
                       if staged \<and> fail_on_error \<and> failures \<noteq> [] then Some (ImportSetFailed (length failures))
                       else if failures \<noteq> [] then Some (ImportFailed (length failures) (te_table artifact))
                       else None), s)))))"

subsection \<open>An import-ready export conforms to its schema\<close>

lemma record_field_names_set [simp]:
  "set (record_field_names flds rows) =
     (case flds of Some fs \<Rightarrow> set fs | None \<Rightarrow> {}) \<union> (\<Union>r \<in> set rows. set (bt_keys r))"
  by (auto simp: record_field_names_def split: option.splits)

lemma omit_fields_names:
  assumes "omit_fields schema names rows = (rows', omitted)"
  shows "(\<forall>n \<in> set names. omission_reason schema n \<noteq> None \<longrightarrow>
            n \<in> oe_field ` set omitted \<and> (\<forall>r \<in> set rows'. n \<notin> set (bt_keys r)))
       \<and> (\<Union>r \<in> set rows'. set (bt_keys r)) \<subseteq> (\<Union>r \<in> set rows. set (bt_keys r))"
  using assms
proof (induction names arbitrary: rows omitted)
  case (Cons name names)
  show ?case
  proof (cases "omission_reason schema name")
    case None
    then show ?thesis using Cons by simp
  next
    case (Some reason)
    with Cons.prems obtain omitted' where
      "omit_fields schema names (map (bt_remove name) rows) = (rows', omitted')" "oe_field ` set omitted = insert name (oe_field ` set omitted')"
      by (auto split: prod.splits)
    with Cons.IH [OF this(1)] show ?thesis by (fastforce simp: Some)
  qed
qed simp

text \<open>The columns an importer may write: no error and no warning of the validation names them.\<close>

lemma importable_field:
  assumes "omission_reason schema name = None"
  shows "field_errors schema name = []" "field_warnings schema name = []"
  using assms by (auto simp: omission_reason_def field_errors_def field_warnings_def split: if_splits option.splits)

lemma import_ready_names:
  assumes "prepare_import_ready_export rows flds schema = Some (rows', flds', preparation)"
    and "\<forall>r \<in> set rows. ''*'' \<notin> set (bt_keys r)"
    and "name \<in> set (record_field_names flds' rows')"
  shows "omission_reason schema name = None"
proof -
  define names where "names = filter (\<lambda>n. n \<noteq> ''*'') (record_field_names flds rows)"
  obtain omitted where o: "omit_fields schema names rows = (rows', omitted)"
    and f: "flds' = Some (record_field_names
      (map_option (filter (\<lambda>n. n \<noteq> ''*'' \<and> n \<notin> oe_field ` set omitted)) flds) rows')"
    using assms(1) by (auto simp: prepare_import_ready_export_def names_def split: if_splits prod.splits)
  note keys = omit_fields_names [OF o]
  have "name \<in> set names"
  proof (cases "\<exists>r \<in> set rows'. name \<in> set (bt_keys r)")
    case True
    then have "\<exists>r \<in> set rows. name \<in> set (bt_keys r)" using keys by blast
    then show ?thesis using assms(2) by (auto simp: names_def)
  next
    case False
    then obtain fs where "flds = Some fs" "name \<in> set fs" "name \<noteq> ''*''"
      using assms(3) by (auto simp: f split: option.splits)
    then show ?thesis by (simp add: names_def)
  qed
  moreover have "name \<notin> oe_field ` set omitted \<or> (\<exists>r \<in> set rows'. name \<in> set (bt_keys r))"
    using assms(3) by (auto simp: f split: option.splits)
  ultimately show ?thesis using keys by blast
qed

lemma required_issues_kind: "\<forall>e \<in> set (required_issues schema rows). vi_kind e = ''missing_required_field''"
  by (auto simp: required_issues_def split: if_splits)

text \<open>
  C40. After the preparation of an import-ready export, the validation of its records against the
  same schema warns of nothing, and the only errors it can report are mandatory columns a record
  has no value for: no unknown, read-only, system-managed or unsupported column is left, neither in
  the records nor in the list of fields. (A record of the Table API has no field named
  \<open>*\<close>, the wildcard of the field list.)
\<close>

theorem import_ready_export_conforms:
  assumes "prepare_import_ready_export rows flds schema = Some (rows', flds', preparation)"
    and "\<forall>r \<in> set rows. ''*'' \<notin> set (bt_keys r)"
  shows "(case table_validation_report schema ''table-export'' table flds' rows' of report \<Rightarrow>
     vr_warnings report = [] \<and> (\<forall>e \<in> set (vr_errors report). vi_kind e = ''missing_required_field''))"
proof -
  have "schema \<noteq> []" using assms(1) by (auto simp: prepare_import_ready_export_def)
  moreover have "concat (map (field_errors schema) (record_field_names flds' rows')) = []"
    and "concat (map (field_warnings schema) (record_field_names flds' rows')) = []"
    using import_ready_names [OF assms] importable_field by (auto simp: concat_eq_Nil_conv)
  ultimately show ?thesis
    using required_issues_kind
    by (simp add: table_validation_report_def Let_def kind_issues_def schema_issues_def)
qed

theorem import_ready_export_conforms_witness:
  "prepare_import_ready_export [[(''number'', JString ''INC1''), (''sys_id'', JString ''a1'')]] None
     [\<lparr>sf_name = ''number'', sf_internal_type = ''string'', sf_mandatory = True, sf_read_only = False, sf_default_value = None\<rparr>]
   = Some ([[(''number'', JString ''INC1'')]], Some [''number''],
       \<lparr>ep_mode = ''import_ready'', ep_reference_policy = ''source_values_unchanged'',
        ep_omitted_fields = [\<lparr>oe_field = ''sys_id'', oe_reason = ''system_managed'', oe_affected_records = 1\<rparr>]\<rparr>)
   \<and> vr_warnings (table_validation_report
       [\<lparr>sf_name = ''number'', sf_internal_type = ''string'', sf_mandatory = True, sf_read_only = False, sf_default_value = None\<rparr>]
       ''table-export'' ''incident'' (Some [''number'']) [[(''number'', JString ''INC1'')]]) = []"
proof -
  have prepared: "prepare_import_ready_export [[(''number'', JString ''INC1''), (''sys_id'', JString ''a1'')]] None
     [\<lparr>sf_name = ''number'', sf_internal_type = ''string'', sf_mandatory = True, sf_read_only = False, sf_default_value = None\<rparr>]
   = Some ([[(''number'', JString ''INC1'')]], Some [''number''],
       \<lparr>ep_mode = ''import_ready'', ep_reference_policy = ''source_values_unchanged'',
        ep_omitted_fields = [\<lparr>oe_field = ''sys_id'', oe_reason = ''system_managed'', oe_affected_records = 1\<rparr>]\<rparr>)"
    by code_simp
  from import_ready_export_conforms [OF prepared, of "''incident''"] prepared show ?thesis
    by (simp add: bt_keys_def)
qed

subsection \<open>The failure flag\<close>

text \<open>
  A staged import with failed records fails with the flag \<open>--fail-on-error\<close> and without it; only
  the wording of the error depends on the flag.
\<close>

lemma fail_on_error_makes_no_difference:
  "map_sum id (\<lambda>(report, err). (report, err \<noteq> None)) (fst (import_flat read ops artifact dry_run import_set_table True s))
   = map_sum id (\<lambda>(report, err). (report, err \<noteq> None)) (fst (import_flat read ops artifact dry_run import_set_table False s))"
  by (auto simp: import_flat_def Let_def split: sum.splits prod.splits if_splits)

end
