(* ===== verification/Dataset_Package.thy ===== *)
theory Dataset_Package
  imports Dataset_Records Dependency_Order
begin

text \<open>
  Dataset packages (\<open>src/src/cli/commands/data/package.rs\<close>): the export of several tables with
  their references written as placeholders, the validation of a package, and its import with
  the references remapped to the created records. A path is the list of its components, the
  way \<open>std::path::Path\<close> compares; the disk maps a path to the decoded JSON file there.
\<close>

subsection \<open>Specifications, manifests and artifacts\<close>

record dataset_reference =
  dr_field :: string
  dr_target_table :: string
  dr_source_key :: string
  dr_target_key :: string

record dataset_table_spec =
  ds_name :: string
  ds_file :: "string option"
  ds_query :: "string option"
  ds_fields :: "string list option"
  ds_limit :: "nat option"
  ds_order_by :: "order_by option"
  ds_depends_on :: "string list"
  ds_references :: "dataset_reference list"

record dataset_export_spec =
  de_version :: nat
  de_kind :: string
  de_tables :: "dataset_table_spec list"

record dataset_manifest_table =
  mt_name :: string
  mt_file :: string
  mt_query :: "string option"
  mt_fields :: "string list option"
  mt_record_count :: nat
  mt_depends_on :: "string list"
  mt_references :: "dataset_reference list"

record dataset_manifest =
  dm_version :: nat
  dm_kind :: string
  dm_command :: string
  dm_instance :: string
  dm_exported_at_unix_s :: nat
  dm_tables :: "dataset_manifest_table list"

record dataset_table_record =
  tr_source_sys_id :: "string option"
  tr_data :: row

record dataset_table_artifact =
  ta_version :: nat
  ta_kind :: string
  ta_table :: string
  ta_source_key_fields :: "string list"
  ta_records :: "dataset_table_record list"

record reference_marker =
  rm_target_table :: string
  rm_source_key :: string
  rm_target_key :: string
  rm_source_value :: string

record dataset_validation_report =
  dv_dataset_kind :: string
  dv_ready :: bool
  dv_table_count :: nat
  dv_import_order :: "string list"
  dv_tables :: "validation_report list"
  dv_errors :: "validation_issue list"
  dv_warnings :: "validation_issue list"

record table_import_result =
  ti_table :: string
  ti_created :: nat
  ti_failed :: nat
  ti_skipped :: nat
  ti_failures :: "import_failure list"

record dataset_import_report =
  di_dry_run :: bool
  di_table_count :: nat
  di_import_order :: "string list"
  di_created :: nat
  di_failed :: nat
  di_skipped :: nat
  di_tables :: "table_import_result list"

datatype package_error =
    PackageSpecKind string
  | PackageNoTables
  | PackageDuplicateTable string
  | PackageMissingTable string string
  | PackageCycle "string list"
  | PackageMissingSpec string
  | PackageMissingRecords string
  | PackageTableName identifier_error
  | PackageReadFailed "client_error list_error"
  | PackageUnresolvedExport string string string
  | PackageFileEmpty
  | PackageFileAbsolute string
  | PackageFileNotPlain string
  | PackageDiskFailed
  | PackageFileInvalid
  | PackageSchemaFailed dictionary_error
  | PackageMissingArtifact string
  | PackageInvalid "validation_issue list"
  | PackageNoTarget string string string
  | PackageImportFailed nat

subsection \<open>File names\<close>

datatype path_component = RootDir | CurDir | ParentDir | NormalComponent string

text \<open>
  \<open>Path::components\<close> on Unix: empty parts and inner dots are skipped, a leading dot stays.
\<close>

definition inner_component :: "string \<Rightarrow> path_component list" where
  "inner_component p = (if p = [] \<or> p = ''.'' then [] else if p = ''..'' then [ParentDir] else [NormalComponent p])"

definition path_components :: "string \<Rightarrow> path_component list" where
  "path_components p = (case split_on (CHR ''/'') p of
      [] \<Rightarrow> []
    | first # parts \<Rightarrow>
        (if first = [] \<and> parts \<noteq> [] then [RootDir] else if first = ''.'' then [CurDir] else inner_component first)
        @ concat (map inner_component parts))"

definition path_is_absolute :: "string \<Rightarrow> bool" where
  "path_is_absolute p \<longleftrightarrow> (case path_components p of RootDir # _ \<Rightarrow> True | _ \<Rightarrow> False)"

text \<open>\<open>Path::join\<close>.\<close>

definition path_join :: "path_component list \<Rightarrow> string \<Rightarrow> path_component list" where
  "path_join base p = (case path_components p of
      RootDir # cs \<Rightarrow> RootDir # cs
    | CurDir # cs \<Rightarrow> (if base = [] then CurDir # cs else base @ cs)
    | cs \<Rightarrow> base @ cs)"

definition validate_package_file_name :: "string \<Rightarrow> package_error + unit" where
  "validate_package_file_name f =
     (if trim f = [] then Inl PackageFileEmpty
      else if path_is_absolute f then Inl (PackageFileAbsolute f)
      else if length (path_components f) \<noteq> 1
        \<or> \<not> list_all (\<lambda>c. case c of NormalComponent _ \<Rightarrow> True | _ \<Rightarrow> False) (path_components f)
      then Inl (PackageFileNotPlain f)
      else Inr ())"

definition package_file_path :: "path_component list \<Rightarrow> string \<Rightarrow> package_error + path_component list" where
  "package_file_path base f = bind_result (validate_package_file_name f) (\<lambda>_. Inr (path_join base f))"

definition table_output_file_name :: "dataset_table_spec \<Rightarrow> package_error + string" where
  "table_output_file_name t =
     (let f = (case ds_file t of Some f \<Rightarrow> f | None \<Rightarrow> ds_name t @ ''.json'')
      in bind_result (validate_package_file_name f) (\<lambda>_. Inr f))"

text \<open>\<open>Path::parent\<close>: none of an empty path or of the root.\<close>

definition dataset_base_dir :: "string \<Rightarrow> path_component list" where
  "dataset_base_dir f = (let cs = path_components f in
     if cs = [] \<or> last cs = RootDir then [CurDir] else butlast cs)"

datatype package_file = ArtifactFile dataset_table_artifact | ManifestFile dataset_manifest

type_synonym package_disk = "path_component list \<Rightarrow> package_file option"

definition read_dataset_table_artifact :: "package_disk \<Rightarrow> path_component list \<Rightarrow> package_error + dataset_table_artifact" where
  "read_dataset_table_artifact disk p = (case disk p of
      Some (ArtifactFile a) \<Rightarrow> Inr a | Some (ManifestFile _) \<Rightarrow> Inl PackageFileInvalid | None \<Rightarrow> Inl PackageDiskFailed)"

text \<open>\<open>refuses\<close>: the paths the disk does not let the command write.\<close>

definition write_json_file :: "(path_component list \<Rightarrow> bool) \<Rightarrow> path_component list \<Rightarrow> package_file \<Rightarrow> package_disk
   \<Rightarrow> (package_error + unit) \<times> package_disk" where
  "write_json_file refuses p v disk = (if refuses p then (Inl PackageDiskFailed, disk) else (Inr (), disk(p \<mapsto> v)))"

subsection \<open>The order of the tables\<close>

text \<open>The loop the two orders share, on name, \<open>depends_on\<close> and references of each table.\<close>

fun collect_dependencies :: "string list \<Rightarrow> (string \<times> string list \<times> dataset_reference list) list \<Rightarrow> dependencies
   \<Rightarrow> package_error + dependencies" where
  "collect_dependencies names [] deps = Inr deps"
| "collect_dependencies names ((name, depends_on, refs) # tables) deps =
     (let current = bs_collect (depends_on @ map dr_target_table refs)
      in case List.find (\<lambda>d. d \<notin> set names) current of
        Some d \<Rightarrow> Inl (PackageMissingTable name d)
      | None \<Rightarrow> collect_dependencies names tables (bt_insert name current deps))"

definition order_collected :: "dependencies \<Rightarrow> package_error + string list" where
  "order_collected deps = (case topo_result deps of Inl names \<Rightarrow> Inl (PackageCycle names) | Inr ts \<Rightarrow> Inr ts)"

definition topological_table_order :: "dataset_table_spec list \<Rightarrow> package_error + string list" where
  "topological_table_order tables = bind_result
     (collect_dependencies (map ds_name tables) (map (\<lambda>t. (ds_name t, ds_depends_on t, ds_references t)) tables) [])
     order_collected"

definition topological_manifest_order :: "dataset_manifest_table list \<Rightarrow> package_error + string list" where
  "topological_manifest_order tables = bind_result
     (collect_dependencies (map mt_name tables) (map (\<lambda>t. (mt_name t, mt_depends_on t, mt_references t)) tables) [])
     order_collected"

text \<open>\<open>manifest_table_map\<close>; the specifications of an export have their names checked first.\<close>

fun manifest_table_map :: "dataset_manifest_table list \<Rightarrow> dataset_manifest_table btree_map
   \<Rightarrow> package_error + dataset_manifest_table btree_map" where
  "manifest_table_map [] m = Inr m"
| "manifest_table_map (t # ts) m = (if bt_get m (mt_name t) \<noteq> None then Inl (PackageDuplicateTable (mt_name t))
     else manifest_table_map ts (bt_insert (mt_name t) t m))"

fun first_duplicate :: "string list \<Rightarrow> string list \<Rightarrow> string option" where
  "first_duplicate seen [] = None"
| "first_duplicate seen (x # xs) = (if x \<in> set seen then Some x else first_duplicate (x # seen) xs)"

definition validate_dataset_export_spec :: "dataset_export_spec \<Rightarrow> package_error + unit" where
  "validate_dataset_export_spec spec =
     (if de_kind spec \<noteq> ''dataset-export-spec'' then Inl (PackageSpecKind (de_kind spec))
      else if de_tables spec = [] then Inl PackageNoTables
      else (case first_duplicate [] (map ds_name (de_tables spec)) of
          Some n \<Rightarrow> Inl (PackageDuplicateTable n)
        | None \<Rightarrow> bind_result (topological_table_order (de_tables spec)) (\<lambda>_. Inr ())))"

subsection \<open>Source keys\<close>

type_synonym value_index = "string hash_map hash_map hash_map"

definition add_source_key :: "dataset_reference \<Rightarrow> btree_set hash_map \<Rightarrow> btree_set hash_map" where
  "add_source_key r keys = hm_insert (dr_target_table r)
     (insort_insert (dr_source_key r) (case hm_get keys (dr_target_table r) of Some ks \<Rightarrow> ks | None \<Rightarrow> [])) keys"

definition required_source_keys :: "dataset_table_spec list \<Rightarrow> btree_set hash_map" where
  "required_source_keys tables = fold add_source_key (concat (map ds_references tables)) []"

definition required_source_keys_from_manifest :: "dataset_manifest_table list \<Rightarrow> btree_set hash_map" where
  "required_source_keys_from_manifest tables = fold add_source_key (concat (map mt_references tables)) []"

definition keys_of_table :: "btree_set hash_map \<Rightarrow> string \<Rightarrow> string list" where
  "keys_of_table keys t = (case hm_get keys t of Some ks \<Rightarrow> ks | None \<Rightarrow> [])"

definition package_fetch_fields :: "dataset_table_spec \<Rightarrow> btree_set hash_map \<Rightarrow> string option" where
  "package_fetch_fields t keys = Some (join '','' (bs_collect
     ((case ds_fields t of Some fs \<Rightarrow> fs | None \<Rightarrow> []) @ [''sys_id''] @ map dr_field (ds_references t)
       @ keys_of_table keys (ds_name t))))"

definition field_as_text :: "row \<Rightarrow> string \<Rightarrow> string option" where
  "field_as_text r f = Option.bind (bt_get r f) json_value_as_text"

definition index_record :: "string \<Rightarrow> row \<Rightarrow> string hash_map \<Rightarrow> string hash_map" where
  "index_record key r m = (case (field_as_text r ''sys_id'', field_as_text r key) of
      (Some source_sys_id, Some source_value) \<Rightarrow> hm_insert source_sys_id source_value m | _ \<Rightarrow> m)"

definition index_table :: "row list \<Rightarrow> btree_set \<Rightarrow> string hash_map hash_map" where
  "index_table rows keys = fold (\<lambda>key m. hm_insert key (fold (index_record key) rows []) m) keys []"

definition index_source_table :: "row list btree_map \<Rightarrow> string \<times> btree_set \<Rightarrow> value_index \<Rightarrow> value_index" where
  "index_source_table raw tk indexes = (case bt_get raw (fst tk) of
      None \<Rightarrow> indexes | Some rows \<Rightarrow> hm_insert (fst tk) (index_table rows (snd tk)) indexes)"

definition build_source_value_indexes :: "dataset_table_spec list \<Rightarrow> row list btree_map \<Rightarrow> value_index" where
  "build_source_value_indexes tables raw = fold (index_source_table raw) (required_source_keys tables) []"

definition index_lookup :: "value_index \<Rightarrow> string \<Rightarrow> string \<Rightarrow> string \<Rightarrow> string option" where
  "index_lookup idx table key v =
     Option.bind (hm_get idx table) (\<lambda>by_key. Option.bind (hm_get by_key key) (\<lambda>by_value. hm_get by_value v))"

subsection \<open>Export\<close>

definition reference_placeholder :: "dataset_reference \<Rightarrow> string \<Rightarrow> json" where
  "reference_placeholder r source_value = JObject [(''__reference'', JObject [
     (''target_table'', JString (dr_target_table r)), (''source_key'', JString (dr_source_key r)),
     (''target_key'', JString (dr_target_key r)), (''source_value'', JString source_value)])]"

fun export_references :: "string \<Rightarrow> value_index \<Rightarrow> row \<Rightarrow> dataset_reference list \<Rightarrow> row \<Rightarrow> package_error + row" where
  "export_references table idx raw [] data = Inr data"
| "export_references table idx raw (r # refs) data =
     (let source_sys_id = or_empty (field_as_text raw (dr_field r)) in
      if source_sys_id = [] then export_references table idx raw refs (bt_insert (dr_field r) JNull data)
      else (case index_lookup idx (dr_target_table r) (dr_source_key r) source_sys_id of
          None \<Rightarrow> Inl (PackageUnresolvedExport table (dr_field r) source_sys_id)
        | Some v \<Rightarrow> export_references table idx raw refs (bt_insert (dr_field r) (reference_placeholder r v) data)))"

definition export_record :: "dataset_table_spec \<Rightarrow> btree_set hash_map \<Rightarrow> value_index \<Rightarrow> row
   \<Rightarrow> package_error + dataset_table_record" where
  "export_record t keys idx raw =
     (let exported = (case ds_fields t of Some fs \<Rightarrow> fs | None \<Rightarrow> []) @ keys_of_table keys (ds_name t)
            @ map dr_field (ds_references t);
          data = (if ds_fields t = None then raw else filter (\<lambda>(k, v). k \<in> set exported) raw)
      in bind_result (export_references (ds_name t) idx raw (ds_references t) (bt_remove ''sys_id'' data))
           (\<lambda>data. Inr \<lparr>tr_source_sys_id = field_as_text raw ''sys_id'', tr_data = data\<rparr>))"

definition build_dataset_table_artifact :: "dataset_table_spec \<Rightarrow> row list \<Rightarrow> btree_set hash_map \<Rightarrow> value_index
   \<Rightarrow> package_error + dataset_table_artifact" where
  "build_dataset_table_artifact t raw keys idx =
     bind_result (collect_results (map (export_record t keys idx) raw)) (\<lambda>rows.
       Inr \<lparr>ta_version = 1, ta_kind = ''dataset-table'', ta_table = ds_name t,
            ta_source_key_fields = keys_of_table keys (ds_name t), ta_records = rows\<rparr>)"

definition artifact_field_list :: "dataset_table_artifact \<Rightarrow> string list option" where
  "artifact_field_list a = (let names = record_field_names None (map tr_data (ta_records a))
     in if names = [] then None else Some names)"

fun fetch_package_records :: "('s, row) table_read \<Rightarrow> dataset_table_spec btree_map \<Rightarrow> btree_set hash_map \<Rightarrow> string list
   \<Rightarrow> row list btree_map \<Rightarrow> 's \<Rightarrow> (package_error + row list btree_map) \<times> 's" where
  "fetch_package_records read specs keys [] raw s = (Inr raw, s)"
| "fetch_package_records read specs keys (name # names) raw s = (case bt_get specs name of
      None \<Rightarrow> (Inl (PackageMissingSpec name), s)
    | Some t \<Rightarrow> (case table_name_try_from (ds_name t) of
        Inl e \<Rightarrow> (Inl (PackageTableName e), s)
      | Inr table \<Rightarrow> (case read table (ds_query t) (package_fetch_fields t keys)
            (default_pagination\<lparr>pc_limit := ds_limit t\<rparr>) (ds_order_by t) s of
          (Inl e, s) \<Rightarrow> (Inl (PackageReadFailed e), s)
        | (Inr rows, s) \<Rightarrow> fetch_package_records read specs keys names (bt_insert name rows raw) s)))"

definition manifest_table :: "dataset_table_spec \<Rightarrow> string \<Rightarrow> dataset_table_artifact \<Rightarrow> dataset_manifest_table" where
  "manifest_table t f a = \<lparr>mt_name = ds_name t, mt_file = f, mt_query = ds_query t, mt_fields = artifact_field_list a,
     mt_record_count = length (ta_records a), mt_depends_on = ds_depends_on t, mt_references = ds_references t\<rparr>"

text \<open>
  The second loop: it builds the artifact of each table, writes it and lists it in the manifest.
  The code builds the indexes again after each table from the same records; they do not change.
\<close>

fun export_tables :: "(path_component list \<Rightarrow> bool) \<Rightarrow> path_component list \<Rightarrow> dataset_table_spec btree_map
   \<Rightarrow> btree_set hash_map \<Rightarrow> value_index \<Rightarrow> row list btree_map \<Rightarrow> string list \<Rightarrow> dataset_manifest_table list
   \<Rightarrow> package_disk \<Rightarrow> (package_error + dataset_manifest_table list) \<times> package_disk" where
  "export_tables refuses base specs keys idx raw [] tables disk = (Inr tables, disk)"
| "export_tables refuses base specs keys idx raw (name # names) tables disk = (case bt_get specs name of
      None \<Rightarrow> (Inl (PackageMissingSpec name), disk)
    | Some t \<Rightarrow> (case bt_get raw name of
        None \<Rightarrow> (Inl (PackageMissingRecords name), disk)
      | Some rows \<Rightarrow> (case build_dataset_table_artifact t rows keys idx of
          Inl e \<Rightarrow> (Inl e, disk)
        | Inr a \<Rightarrow> (case bind_result (table_output_file_name t)
              (\<lambda>f. map_sum id (\<lambda>p. (f, p)) (package_file_path base f)) of
            Inl e \<Rightarrow> (Inl e, disk)
          | Inr (f, p) \<Rightarrow> and_then (write_json_file refuses p (ArtifactFile a) disk) (\<lambda>_ disk.
              export_tables refuses base specs keys idx raw names (tables @ [manifest_table t f a]) disk)))))"

definition export_manifest :: "string \<Rightarrow> nat \<Rightarrow> dataset_manifest_table list \<Rightarrow> dataset_manifest" where
  "export_manifest instance_url now tables = \<lparr>dm_version = 1, dm_kind = ''dataset'', dm_command = ''data export-package'',
     dm_instance = instance_url, dm_exported_at_unix_s = now, dm_tables = tables\<rparr>"

text \<open>
  \<open>handle_export_package\<close> after the specification is read and the directory created. The state is
  the client's and the disk.
\<close>

definition export_package :: "(path_component list \<Rightarrow> bool) \<Rightarrow> ('s, row) table_read \<Rightarrow> string \<Rightarrow> nat \<Rightarrow> dataset_export_spec
   \<Rightarrow> path_component list \<Rightarrow> 's \<times> package_disk \<Rightarrow> (package_error + dataset_manifest) \<times> 's \<times> package_disk" where
  "export_package refuses read instance_url now spec base sd =
     (case bind_result (validate_dataset_export_spec spec) (\<lambda>_. topological_table_order (de_tables spec)) of
        Inl e \<Rightarrow> (Inl e, sd)
      | Inr order \<Rightarrow>
         (let specs = bt_collect (map (\<lambda>t. (ds_name t, t)) (de_tables spec));
              keys = required_source_keys (de_tables spec) in
          case fetch_package_records read specs keys order [] (fst sd) of
            (Inl e, s) \<Rightarrow> (Inl e, s, snd sd)
          | (Inr raw, s) \<Rightarrow>
             (case export_tables refuses base specs keys (build_source_value_indexes (de_tables spec) raw) raw order [] (snd sd) of
               (Inl e, disk) \<Rightarrow> (Inl e, s, disk)
             | (Inr tables, disk) \<Rightarrow>
                (let m = export_manifest instance_url now tables in
                 case write_json_file refuses (path_join base ''manifest.json'') (ManifestFile m) disk of
                   (Inl e, disk) \<Rightarrow> (Inl e, s, disk)
                 | (Inr _, disk) \<Rightarrow> (Inr m, s, disk)))))"

subsection \<open>Validation\<close>

definition decode_marker :: "json \<Rightarrow> reference_marker option" where
  "decode_marker v = Option.bind (struct_fields [''target_table'', ''source_key'', ''target_key'', ''source_value''] v) (\<lambda>m.
     Option.bind (required json_as_str ''target_table'' m) (\<lambda>tt.
     Option.bind (required json_as_str ''source_key'' m) (\<lambda>sk.
     Option.bind (required json_as_str ''target_key'' m) (\<lambda>tk.
     Option.bind (required json_as_str ''source_value'' m) (\<lambda>sv.
       Some \<lparr>rm_target_table = tt, rm_source_key = sk, rm_target_key = tk, rm_source_value = sv\<rparr>)))))"

definition extract_reference_marker :: "json option \<Rightarrow> reference_marker option" where
  "extract_reference_marker v = Option.bind v (\<lambda>v.
     Option.bind (struct_fields [''__reference''] v) (required decode_marker ''__reference''))"

definition reference_issue :: "string \<Rightarrow> string \<Rightarrow> nat option \<Rightarrow> validation_issue" where
  "reference_issue kind field i = \<lparr>vi_kind = kind, vi_field = Some field, vi_record_index = i\<rparr>"

definition record_reference_issues :: "dataset_reference \<Rightarrow> string set \<Rightarrow> nat \<Rightarrow> row \<Rightarrow> validation_issue list" where
  "record_reference_issues r source_values i data = (case extract_reference_marker (bt_get data (dr_field r)) of
      None \<Rightarrow> [reference_issue ''missing_reference_placeholder'' (dr_field r) (Some i)]
    | Some m \<Rightarrow>
        if rm_target_table m \<noteq> dr_target_table r \<or> rm_source_key m \<noteq> dr_source_key r \<or> rm_target_key m \<noteq> dr_target_key r
        then [reference_issue ''reference_mismatch'' (dr_field r) (Some i)]
        else if rm_source_value m \<notin> source_values
        then [reference_issue ''unresolved_reference'' (dr_field r) (Some i)] else [])"

definition artifact_source_values :: "dataset_table_artifact \<Rightarrow> string \<Rightarrow> string list" where
  "artifact_source_values a key = bs_collect (List.map_filter (\<lambda>x. field_as_text (tr_data x) key) (ta_records a))"

definition reference_issues :: "dataset_manifest_table btree_map \<Rightarrow> dataset_table_artifact btree_map \<Rightarrow> string
   \<Rightarrow> dataset_reference \<Rightarrow> package_error + validation_issue list" where
  "reference_issues by_name artifacts table r =
     (if bt_get by_name (dr_target_table r) = None
      then Inr [reference_issue ''missing_dependency_table'' (dr_field r) None]
      else (case bt_get artifacts (dr_target_table r) of
          None \<Rightarrow> Inl (PackageMissingArtifact (dr_target_table r))
        | Some target \<Rightarrow> (case bt_get artifacts table of
            None \<Rightarrow> Inl (PackageMissingArtifact table)
          | Some a \<Rightarrow> Inr (concat (map (\<lambda>(i, x). record_reference_issues r
                (set (artifact_source_values target (dr_source_key r))) i (tr_data x)) (enumerate 0 (ta_records a)))))))"

definition package_reference_issues :: "dataset_manifest_table btree_map \<Rightarrow> dataset_table_artifact btree_map
   \<Rightarrow> dataset_manifest_table list \<Rightarrow> package_error + validation_issue list" where
  "package_reference_issues by_name artifacts tables = bind_result (collect_results (concat (map (\<lambda>t.
     map (reference_issues by_name artifacts (mt_name t)) (mt_references t)) tables))) (\<lambda>is. Inr (concat is))"

fun validate_tables :: "('s, row) table_read \<Rightarrow> package_disk \<Rightarrow> path_component list \<Rightarrow> dataset_manifest_table list
   \<Rightarrow> validation_report list \<Rightarrow> dataset_table_artifact btree_map \<Rightarrow> 's
   \<Rightarrow> (package_error + validation_report list \<times> dataset_table_artifact btree_map) \<times> 's" where
  "validate_tables read disk base [] reports artifacts s = (Inr (reports, artifacts), s)"
| "validate_tables read disk base (t # ts) reports artifacts s =
     (case bind_result (package_file_path base (mt_file t)) (read_dataset_table_artifact disk) of
        Inl e \<Rightarrow> (Inl e, s)
      | Inr a \<Rightarrow> (case build_table_validation_report read (ta_kind a) (mt_name t) (mt_fields t) (map tr_data (ta_records a)) s of
          (Inl e, s) \<Rightarrow> (Inl (PackageSchemaFailed e), s)
        | (Inr report, s) \<Rightarrow>
            validate_tables read disk base ts (reports @ [report]) (bt_insert (mt_name t) a artifacts) s))"

definition build_package_validation_report :: "('s, row) table_read \<Rightarrow> package_disk \<Rightarrow> path_component list \<Rightarrow> dataset_manifest \<Rightarrow> 's
   \<Rightarrow> (package_error + dataset_validation_report) \<times> 's" where
  "build_package_validation_report read disk base manifest s =
     (case bind_result (manifest_table_map (dm_tables manifest) []) (\<lambda>by_name.
         map_sum id (\<lambda>order. (by_name, order)) (topological_manifest_order (dm_tables manifest))) of
        Inl e \<Rightarrow> (Inl e, s)
      | Inr (by_name, order) \<Rightarrow>
          and_then (validate_tables read disk base (dm_tables manifest) [] [] s) (\<lambda>(reports, artifacts) s.
            (case package_reference_issues by_name artifacts (dm_tables manifest) of
               Inl e \<Rightarrow> (Inl e, s)
             | Inr issues \<Rightarrow>
                (let errors = concat (map vr_errors reports) @ issues in
                 (Inr \<lparr>dv_dataset_kind = dm_kind manifest, dv_ready = (errors = []),
                    dv_table_count = length (dm_tables manifest), dv_import_order = order, dv_tables = reports,
                    dv_errors = errors, dv_warnings = concat (map vr_warnings reports)\<rparr>, s)))))"

subsection \<open>Import\<close>

fun remap_reference_fields :: "value_index \<Rightarrow> dataset_reference list \<Rightarrow> row \<Rightarrow> package_error + row" where
  "remap_reference_fields ids [] data = Inr data"
| "remap_reference_fields ids (r # refs) data = (case extract_reference_marker (bt_get data (dr_field r)) of
      None \<Rightarrow> remap_reference_fields ids refs data
    | Some m \<Rightarrow> (case index_lookup ids (rm_target_table m) (rm_source_key m) (rm_source_value m) of
        None \<Rightarrow> Inl (PackageNoTarget (rm_target_table m) (dr_field r) (rm_source_value m))
      | Some target_sys_id \<Rightarrow> remap_reference_fields ids refs (bt_insert (dr_field r) (JString target_sys_id) data)))"

definition index_insert :: "string \<Rightarrow> string \<Rightarrow> string \<Rightarrow> string \<Rightarrow> value_index \<Rightarrow> value_index" where
  "index_insert table key v target ids =
     (let by_key = (case hm_get ids table of Some m \<Rightarrow> m | None \<Rightarrow> []);
          by_value = (case hm_get by_key key of Some m \<Rightarrow> m | None \<Rightarrow> [])
      in hm_insert table (hm_insert key (hm_insert v target by_value) by_key) ids)"

definition note_created :: "btree_set hash_map \<Rightarrow> string \<Rightarrow> row \<Rightarrow> row \<Rightarrow> value_index \<Rightarrow> value_index" where
  "note_created keys table data created ids = fold (\<lambda>key ids. case field_as_text data key of
      None \<Rightarrow> ids
    | Some v \<Rightarrow> index_insert table key v (or_empty (row_sys_id created)) ids) (keys_of_table keys table) ids"

text \<open>One table: a record that cannot be remapped ends the import, a refused create does not.\<close>

fun import_table_records :: "(string \<Rightarrow> row \<Rightarrow> 's \<Rightarrow> (client_error + row) \<times> 's) \<Rightarrow> btree_set hash_map
   \<Rightarrow> dataset_manifest_table \<Rightarrow> nat \<Rightarrow> dataset_table_record list \<Rightarrow> nat \<Rightarrow> import_failure list \<Rightarrow> value_index \<Rightarrow> 's
   \<Rightarrow> (package_error + nat \<times> import_failure list \<times> value_index) \<times> 's" where
  "import_table_records create keys t i [] created failures ids s = (Inr (created, failures, ids), s)"
| "import_table_records create keys t i (x # xs) created failures ids s =
     (case remap_reference_fields ids (mt_references t) (tr_data x) of
        Inl e \<Rightarrow> (Inl e, s)
      | Inr body \<Rightarrow> (case create (''/api/now/table/'' @ mt_name t) body s of
          (Inr response, s) \<Rightarrow> import_table_records create keys t (Suc i) xs (Suc created) failures
            (note_created keys (mt_name t) (tr_data x) response ids) s
        | (Inl e, s) \<Rightarrow> import_table_records create keys t (Suc i) xs created
            (failures @ [\<lparr>if_record_index = i, if_error = Some e\<rparr>]) ids s))"

definition import_result :: "dataset_manifest_table \<Rightarrow> nat \<Rightarrow> import_failure list \<Rightarrow> table_import_result" where
  "import_result t created failures = \<lparr>ti_table = mt_name t, ti_created = created,
     ti_failed = length failures, ti_skipped = 0, ti_failures = failures\<rparr>"

fun import_tables :: "(string \<Rightarrow> row \<Rightarrow> 's \<Rightarrow> (client_error + row) \<times> 's) \<Rightarrow> package_disk \<Rightarrow> path_component list
   \<Rightarrow> dataset_manifest_table btree_map \<Rightarrow> btree_set hash_map \<Rightarrow> string list \<Rightarrow> table_import_result list \<Rightarrow> value_index \<Rightarrow> 's
   \<Rightarrow> (package_error + table_import_result list) \<times> 's" where
  "import_tables create disk base by_name keys [] results ids s = (Inr results, s)"
| "import_tables create disk base by_name keys (name # names) results ids s = (case bt_get by_name name of
      None \<Rightarrow> (Inl (PackageMissingSpec name), s)
    | Some t \<Rightarrow> (case table_name_try_from (mt_name t) of
        Inl e \<Rightarrow> (Inl (PackageTableName e), s)
      | Inr _ \<Rightarrow> (case bind_result (package_file_path base (mt_file t)) (read_dataset_table_artifact disk) of
          Inl e \<Rightarrow> (Inl e, s)
        | Inr a \<Rightarrow> and_then (import_table_records create keys t 0 (ta_records a) 0 [] ids s)
            (\<lambda>(created, failures, ids) s.
              import_tables create disk base by_name keys names (results @ [import_result t created failures]) ids s))))"

definition dry_run_result :: "dataset_manifest_table \<Rightarrow> table_import_result" where
  "dry_run_result t = \<lparr>ti_table = mt_name t, ti_created = 0, ti_failed = 0, ti_skipped = mt_record_count t, ti_failures = []\<rparr>"

definition package_import_report :: "bool \<Rightarrow> dataset_manifest \<Rightarrow> string list \<Rightarrow> table_import_result list \<Rightarrow> dataset_import_report" where
  "package_import_report dry_run m order results = \<lparr>di_dry_run = dry_run, di_table_count = length (dm_tables m),
     di_import_order = order, di_created = sum_list (map ti_created results), di_failed = sum_list (map ti_failed results),
     di_skipped = sum_list (map ti_skipped results), di_tables = results\<rparr>"

text \<open>
  \<open>handle_import_package\<close>: the report is printed, then failures are reported; both are in the result.
\<close>

definition import_package :: "('s, row) table_read \<Rightarrow> (string \<Rightarrow> row \<Rightarrow> 's \<Rightarrow> (client_error + row) \<times> 's) \<Rightarrow> package_disk
   \<Rightarrow> path_component list \<Rightarrow> dataset_manifest \<Rightarrow> bool \<Rightarrow> 's
   \<Rightarrow> (package_error + dataset_import_report \<times> package_error option) \<times> 's" where
  "import_package read create disk base manifest dry_run s =
     and_then (build_package_validation_report read disk base manifest s) (\<lambda>validation s.
       if \<not> dv_ready validation then (Inl (PackageInvalid (dv_errors validation)), s)
       else if dry_run
       then (Inr (package_import_report True manifest (dv_import_order validation) (map dry_run_result (dm_tables manifest)), None), s)
       else (case manifest_table_map (dm_tables manifest) [] of
           Inl e \<Rightarrow> (Inl e, s)
         | Inr by_name \<Rightarrow>
             and_then (import_tables create disk base by_name (required_source_keys_from_manifest (dm_tables manifest))
                 (dv_import_order validation) [] [] s) (\<lambda>results s.
               let report = package_import_report False manifest (dv_import_order validation) results in
               (Inr (report, if 0 < di_failed report then Some (PackageImportFailed (di_failed report)) else None), s))))"

end
