(* ===== verification/Package_Export.thy ===== *)
theory Package_Export
  imports Dataset_Package
begin

text \<open>
  What the export of a package guarantees: its files stay in its directory, and no reference of it
  is broken when it is validated.
\<close>

subsection \<open>Files of a package\<close>

definition in_directory :: "path_component list \<Rightarrow> path_component list \<Rightarrow> bool" where
  "in_directory base p \<longleftrightarrow> p \<noteq> [] \<and> butlast p = base \<and> (case last p of
      NormalComponent n \<Rightarrow> n \<noteq> [] \<and> n \<noteq> ''.'' \<and> n \<noteq> ''..'' \<and> CHR ''/'' \<notin> set n | _ \<Rightarrow> False)"

lemma list_all2_set2: "list_all2 P xs ys \<Longrightarrow> y \<in> set ys \<Longrightarrow> \<exists>x \<in> set xs. P x y"
  by (induction rule: list_all2_induct) auto

lemma list_all2_set1: "list_all2 P xs ys \<Longrightarrow> x \<in> set xs \<Longrightarrow> \<exists>y \<in> set ys. P x y"
  by (induction rule: list_all2_induct) auto

lemma map_sum_Inr_iff: "map_sum f g x = Inr y \<longleftrightarrow> (\<exists>z. x = Inr z \<and> y = g z)"
  by (cases x) auto

lemma split_on_parts: "p \<in> set (split_on c s) \<Longrightarrow> c \<notin> set p"
  by (induction s arbitrary: p) (fastforce split: if_splits list.splits)+

lemma inner_component_normal:
  "NormalComponent n \<in> set (inner_component p) \<Longrightarrow> n = p \<and> n \<noteq> [] \<and> n \<noteq> ''.'' \<and> n \<noteq> ''..''"
  by (auto simp: inner_component_def split: if_splits)

lemma path_components_normal:
  assumes "NormalComponent n \<in> set (path_components p)"
  shows "n \<noteq> [] \<and> n \<noteq> ''.'' \<and> n \<noteq> ''..'' \<and> CHR ''/'' \<notin> set n"
proof -
  have "\<exists>q \<in> set (split_on (CHR ''/'') p). NormalComponent n \<in> set (inner_component q)"
    using assms by (cases "split_on (CHR ''/'') p") (auto simp: path_components_def split: if_splits)
  then show ?thesis using inner_component_normal split_on_parts by metis
qed

lemma validate_package_file_name_Inr:
  assumes "validate_package_file_name f = Inr u"
  obtains n where "path_components f = [NormalComponent n]"
  using assms that
  by (cases "path_components f")
    (auto simp: validate_package_file_name_def split: if_splits path_component.splits)

lemma path_join_normal [simp]: "path_components f = [NormalComponent n] \<Longrightarrow> path_join base f = base @ [NormalComponent n]"
  by (simp add: path_join_def)

lemma package_file_path_Inr:
  assumes "package_file_path base f = Inr p"
  shows "p = base @ path_components f \<and> in_directory base p"
proof -
  obtain u where "validate_package_file_name f = Inr u" and p: "p = path_join base f"
    using assms by (auto simp: package_file_path_def bind_result_Inr_iff)
  then obtain n where "path_components f = [NormalComponent n]"
    by (auto elim: validate_package_file_name_Inr)
  then show ?thesis using p path_components_normal [of n f] by (simp add: in_directory_def)
qed

lemma path_components_manifest [simp]: "path_components ''manifest.json'' = [NormalComponent ''manifest.json'']"
  by code_simp

lemma export_tables_outside:
  "\<not> in_directory base p \<Longrightarrow> snd (export_tables refuses base specs keys idx raw names tables disk) p = disk p"
proof (induction refuses base specs keys idx raw names tables disk rule: export_tables.induct)
  case (2 refuses base specs keys idx raw name names tables disk)
  have "q \<noteq> p" if "bind_result (table_output_file_name t) (\<lambda>f. map_sum id (\<lambda>p. (f, p)) (package_file_path base f)) = Inr (f, q)"
    for t f q
    using that 2(2) package_file_path_Inr by (auto simp: bind_result_Inr_iff map_sum_Inr_iff)
  then show ?case
    using 2 by (auto simp: write_json_file_def split: option.splits sum.splits prod.splits)
qed simp

lemma export_package_outside:
  assumes "\<not> in_directory base p"
  shows "snd (snd (export_package refuses read url now spec base (s, disk))) p = disk p"
proof -
  have "p \<noteq> path_join base ''manifest.json''"
    using assms by (auto simp: in_directory_def)
  moreover have "disk' p = disk p" if "export_tables refuses base specs keys idx raw names tables disk = (r, disk')"
    for specs keys idx raw names tables r disk'
    using export_tables_outside [OF assms, of refuses specs keys idx raw names tables disk] that by simp
  ultimately show ?thesis
    by (auto simp: export_package_def Let_def write_json_file_def split: sum.splits prod.splits)
qed

lemma read_artifact_in_directory:
  "bind_result (package_file_path base f) (read_dataset_table_artifact (disk |` Collect (in_directory base)))
   = bind_result (package_file_path base f) (read_dataset_table_artifact disk)"
  using package_file_path_Inr [of base f]
  by (cases "package_file_path base f") (auto simp: read_dataset_table_artifact_def restrict_map_def)

lemma validate_tables_in_directory:
  "validate_tables read (disk |` Collect (in_directory base)) base ts reports artifacts s =
   validate_tables read disk base ts reports artifacts s"
  by (induction read disk base ts reports artifacts s rule: validate_tables.induct)
    (auto simp: read_artifact_in_directory split: sum.splits prod.splits)

lemma import_tables_in_directory:
  "import_tables create (disk |` Collect (in_directory base)) base by_name keys names results ids s =
   import_tables create disk base by_name keys names results ids s"
  by (induction create disk base by_name keys names results ids s rule: import_tables.induct)
    (auto simp: read_artifact_in_directory and_then_def split: option.splits sum.splits prod.splits)

text \<open>
  C39. An export changes no file but files directly in the output directory, whatever file names
  the specification asks for, and an import is decided by the files directly in the directory of
  the manifest: names with directories, traversal or an absolute path are never followed.
\<close>

theorem package_files_stay_in_directory:
  "{p. snd (snd (export_package refuses read url now spec base (s, disk))) p \<noteq> disk p} \<subseteq> Collect (in_directory base)
   \<and> import_package read create (disk |` Collect (in_directory base)) base manifest dry_run s'
     = import_package read create disk base manifest dry_run s'"
proof (intro conjI subsetI)
  fix p
  assume "p \<in> {p. snd (snd (export_package refuses read url now spec base (s, disk))) p \<noteq> disk p}"
  then show "p \<in> Collect (in_directory base)"
    using export_package_outside [of base p refuses read url now spec s disk] by auto
next
  show "import_package read create (disk |` Collect (in_directory base)) base manifest dry_run s'
     = import_package read create disk base manifest dry_run s'"
    by (simp only: import_package_def build_package_validation_report_def
        validate_tables_in_directory import_tables_in_directory)
qed

subsection \<open>Tables in order\<close>

lemma collect_dependencies_Inr:
  assumes "collect_dependencies names tables deps0 = Inr deps"
  shows "bt_get deps n = (case map_of (rev (map (\<lambda>(n, d, rs). (n, bs_collect (d @ map dr_target_table rs))) tables)) n of
       Some ds \<Rightarrow> Some ds | None \<Rightarrow> bt_get deps0 n)"
    and "(n, d, rs) \<in> set tables \<Longrightarrow> dr_target_table ` set rs \<subseteq> set names"
    and "bt_wf deps0 \<Longrightarrow> bt_wf deps"
proof -
  show "bt_get deps n = (case map_of (rev (map (\<lambda>(n, d, rs). (n, bs_collect (d @ map dr_target_table rs))) tables)) n of
       Some ds \<Rightarrow> Some ds | None \<Rightarrow> bt_get deps0 n)"
    using assms by (induction names tables deps0 rule: collect_dependencies.induct)
      (auto simp: Let_def bt.get_insert map_add_def split: option.splits)
  show "dr_target_table ` set rs \<subseteq> set names" if "(n, d, rs) \<in> set tables"
    using assms that by (induction names tables deps0 rule: collect_dependencies.induct)
      (auto simp: Let_def find_None_iff split: option.splits)
  show "bt_wf deps" if "bt_wf deps0"
    using assms that by (induction names tables deps0 rule: collect_dependencies.induct)
      (auto simp: Let_def split: option.splits)
qed

lemma order_collected_Inr:
  assumes "order_collected deps = Inr order" "bt_wf deps"
  shows "dependency_order deps order"
  using assms package.ordered [of deps order] by (simp add: order_collected_def split: sum.splits)

lemma deps_of_collected:
  assumes "collect_dependencies names tables [] = Inr deps" "distinct (map fst tables)" "(n, d, rs) \<in> set tables"
  shows "deps_of deps n = set d \<union> dr_target_table ` set rs"
proof -
  let ?ts = "map (\<lambda>(n, d, rs). (n, bs_collect (d @ map dr_target_table rs))) tables"
  have "map fst ?ts = map fst tables" by auto
  then have "distinct (map fst (rev ?ts))" using assms(2) by (simp only: rev_map [of fst, symmetric] distinct_rev)
  moreover have "(n, bs_collect (d @ map dr_target_table rs)) \<in> set (rev ?ts)" using assms(3) by force
  ultimately have "map_of (rev ?ts) n = Some (bs_collect (d @ map dr_target_table rs))" by (rule map_of_is_SomeI)
  then show ?thesis
    using collect_dependencies_Inr(1) [OF assms(1), of n] by (auto simp: deps_of_def)
qed

lemma collected_keys:
  assumes "collect_dependencies names tables [] = Inr deps"
  shows "set (bt_keys deps) = fst ` set tables"
proof -
  have "n \<in> set (bt_keys deps) \<longleftrightarrow> n \<in> fst ` set tables" for n
  proof -
    have "map_of (rev (map (\<lambda>(n, d, rs). (n, bs_collect (d @ map dr_target_table rs))) tables)) n = None
      \<longleftrightarrow> n \<notin> fst ` set tables"
      by (simp add: map_of_eq_None_iff image_image case_prod_beta)
    then show ?thesis
      using collect_dependencies_Inr(1) [OF assms, of n] bt_get_None_iff [of deps n]
      by (auto simp: bt.get_empty split: option.splits)
  qed
  then show ?thesis by blast
qed

text \<open>The manifest is in the order of the export, so its order exists too.\<close>

lemma collect_dependencies_complete:
  assumes "\<forall>(n, d, rs) \<in> set tables. set d \<union> dr_target_table ` set rs \<subseteq> set names"
  shows "\<exists>deps. collect_dependencies names tables deps0 = Inr deps"
  using assms
proof (induction tables arbitrary: deps0)
  case (Cons t tables)
  obtain n d rs where t: "t = (n, d, rs)" by (rule prod_cases3)
  have "List.find (\<lambda>d. d \<notin> set names) (bs_collect (d @ map dr_target_table rs)) = None"
    using Cons.prems by (auto simp: t find_None_iff)
  then show ?case using Cons by (simp add: t)
qed simp

lemma first_duplicate_None: "first_duplicate seen xs = None \<longleftrightarrow> distinct xs \<and> set seen \<inter> set xs = {}"
  by (induction xs arbitrary: seen) auto

subsection \<open>Exported records\<close>

definition spec_file :: "dataset_table_spec \<Rightarrow> string" where
  "spec_file t = (case ds_file t of Some f \<Rightarrow> f | None \<Rightarrow> ds_name t @ ''.json'')"

lemma bt_get_filter: "bt_get (filter (\<lambda>(k, v). k \<in> S) m) f = (if f \<in> S then bt_get m f else None)"
  by (induction m) (auto simp: bt_get_def)

lemma export_references_other:
  "export_references table idx raw refs data = Inr data' \<Longrightarrow> f \<notin> dr_field ` set refs \<Longrightarrow> bt_get data' f = bt_get data f"
  by (induction table idx raw refs data rule: export_references.induct)
    (auto simp: Let_def bt.get_insert split: if_splits option.splits)

text \<open>What stands in a reference field: null, or the placeholder of an indexed source value.\<close>

definition exported_reference :: "value_index \<Rightarrow> dataset_reference \<Rightarrow> json option \<Rightarrow> bool" where
  "exported_reference idx r v \<longleftrightarrow> v = Some JNull
     \<or> (\<exists>i x. index_lookup idx (dr_target_table r) (dr_source_key r) i = Some x \<and> v = Some (reference_placeholder r x))"

lemma export_references_field:
  assumes "export_references table idx raw refs data = Inr data'" "distinct (map dr_field refs)" "r \<in> set refs"
  shows "exported_reference idx r (bt_get data' (dr_field r))"
  using assms
proof (induction table idx raw refs data rule: export_references.induct)
  case (2 table idx raw r' refs data)
  have other: "bt_get data' (dr_field r') = Some v"
    if "export_references table idx raw refs (bt_insert (dr_field r') v data) = Inr data'" for v
    using export_references_other [OF that, of "dr_field r'"] 2(4) by (simp add: bt.get_insert)
  show ?case
    using 2 other by (auto simp: Let_def exported_reference_def split: if_splits option.splits) blast
qed simp

lemma export_record_Inr:
  assumes "export_record t keys idx raw = Inr x"
  shows "distinct (map dr_field (ds_references t)) \<Longrightarrow> r \<in> set (ds_references t)
      \<Longrightarrow> exported_reference idx r (bt_get (tr_data x) (dr_field r))"
    and "f \<in> set (keys_of_table keys (ds_name t)) \<Longrightarrow> f \<noteq> ''sys_id'' \<Longrightarrow> f \<notin> dr_field ` set (ds_references t)
      \<Longrightarrow> bt_get (tr_data x) f = bt_get raw f"
proof -
  define data where "data = (if ds_fields t = None then raw else filter (\<lambda>(k, v). k \<in> set ((case ds_fields t of
      Some fs \<Rightarrow> fs | None \<Rightarrow> []) @ keys_of_table keys (ds_name t) @ map dr_field (ds_references t))) raw)"
  have kept: "bt_get data f = bt_get raw f" if "f \<in> set (keys_of_table keys (ds_name t))" for f
    using that unfolding data_def by (simp only: bt_get_filter set_append UnI1 UnI2 if_True split: if_split) simp
  have x: "export_references (ds_name t) idx raw (ds_references t) (bt_remove ''sys_id'' data) = Inr (tr_data x)"
    using assms by (auto simp: export_record_def Let_def data_def bind_result_Inr_iff)
  show "exported_reference idx r (bt_get (tr_data x) (dr_field r))"
    if "distinct (map dr_field (ds_references t))" "r \<in> set (ds_references t)"
    using export_references_field [OF x that] .
  show "bt_get (tr_data x) f = bt_get raw f"
    if "f \<in> set (keys_of_table keys (ds_name t))" "f \<noteq> ''sys_id''" "f \<notin> dr_field ` set (ds_references t)"
    using export_references_other [OF x that(3)] that by (simp add: bt.get_remove kept)
qed

subsection \<open>The index of source values\<close>

lemma index_records_values:
  "hm_get (fold (index_record key) rows m) i = Some v \<Longrightarrow>
     hm_get m i = Some v \<or> (\<exists>r \<in> set rows. field_as_text r key = Some v)"
proof (induction rows arbitrary: m)
  case (Cons r rows)
  have "hm_get m i = Some v \<or> field_as_text r key = Some v" if "hm_get (index_record key r m) i = Some v"
    using that by (auto simp: index_record_def hm.get_insert split: option.splits if_splits)
  then show ?case using Cons by fastforce
qed simp

lemma index_table_get:
  "hm_get (index_table rows keys) key = (if key \<in> set keys then Some (fold (index_record key) rows []) else None)"
proof -
  have "hm_get (fold (\<lambda>key m. hm_insert key (fold (index_record key) rows []) m) keys m) key =
      (if key \<in> set keys then Some (fold (index_record key) rows []) else hm_get m key)" for m
    by (induction keys arbitrary: m) (auto simp: hm.get_insert)
  then show ?thesis by (simp add: index_table_def hm.get_empty)
qed

lemma index_source_tables_get:
  "hm_get (fold (index_source_table raw) keys indexes) table = Some by_key \<Longrightarrow>
     hm_get indexes table = Some by_key \<or> (\<exists>rows ks. bt_get raw table = Some rows \<and> by_key = index_table rows ks)"
proof (induction keys arbitrary: indexes)
  case (Cons tk keys)
  have "hm_get indexes table = Some by_key \<or> (\<exists>rows ks. bt_get raw table = Some rows \<and> by_key = index_table rows ks)"
    if "hm_get (index_source_table raw tk indexes) table = Some by_key"
    using that by (auto simp: index_source_table_def hm.get_insert split: option.splits if_splits)
  then show ?case using Cons by auto
qed simp

lemma source_index_values:
  assumes "index_lookup (build_source_value_indexes tables raw) table key i = Some v"
  shows "\<exists>rows r. bt_get raw table = Some rows \<and> r \<in> set rows \<and> field_as_text r key = Some v"
proof -
  obtain by_key by_value where get: "hm_get (fold (index_source_table raw) (required_source_keys tables) []) table = Some by_key"
      "hm_get by_key key = Some by_value" "hm_get by_value i = Some v"
    using assms by (auto simp: index_lookup_def build_source_value_indexes_def bind_eq_Some_conv)
  then obtain rows ks where rows: "bt_get raw table = Some rows" "by_key = index_table rows ks"
    using index_source_tables_get [OF get(1)] by (auto simp: hm.get_empty)
  then have "hm_get (fold (index_record key) rows []) i = Some v"
    using get by (auto simp: index_table_get split: if_splits)
  then show ?thesis using rows index_records_values [of key rows "[]" i v] by (auto simp: hm.get_empty)
qed

lemma add_source_keys:
  "key \<in> set (keys_of_table (fold add_source_key refs keys) table) \<longleftrightarrow>
     key \<in> set (keys_of_table keys table) \<or> (\<exists>r \<in> set refs. dr_target_table r = table \<and> dr_source_key r = key)"
proof (induction refs arbitrary: keys)
  case (Cons r refs)
  have "key \<in> set (keys_of_table (add_source_key r keys) table) \<longleftrightarrow>
      key \<in> set (keys_of_table keys table) \<or> (dr_target_table r = table \<and> dr_source_key r = key)"
    by (auto simp: keys_of_table_def add_source_key_def hm.get_insert set_insort_insert split: option.splits)
  then show ?case using Cons by auto
qed simp

lemma keys_of_no_table [simp]: "keys_of_table [] table = []"
  by (simp add: keys_of_table_def hm.get_empty)

lemma required_source_keys_iff:
  "key \<in> set (keys_of_table (required_source_keys tables) table) \<longleftrightarrow>
     (\<exists>t \<in> set tables. \<exists>r \<in> set (ds_references t). dr_target_table r = table \<and> dr_source_key r = key)"
  by (auto simp: required_source_keys_def add_source_keys)

lemma required_manifest_keys_iff:
  "key \<in> set (keys_of_table (required_source_keys_from_manifest tables) table) \<longleftrightarrow>
     (\<exists>t \<in> set tables. \<exists>r \<in> set (mt_references t). dr_target_table r = table \<and> dr_source_key r = key)"
  by (auto simp: required_source_keys_from_manifest_def add_source_keys)

lemma extract_placeholder [simp]:
  "extract_reference_marker (Some (reference_placeholder r v)) = Some \<lparr>rm_target_table = dr_target_table r,
     rm_source_key = dr_source_key r, rm_target_key = dr_target_key r, rm_source_value = v\<rparr>"
  "extract_reference_marker (Some JNull) = None" "extract_reference_marker (Some (JString t)) = None"
  by (simp_all add: extract_reference_marker_def reference_placeholder_def struct_fields_def required_def
      decode_marker_def json_as_str_def)

lemma artifact_source_values_iff:
  "v \<in> set (artifact_source_values a key) \<longleftrightarrow> (\<exists>x \<in> set (ta_records a). field_as_text (tr_data x) key = Some v)"
  by (force simp: artifact_source_values_def List.map_filter_def)

lemma build_artifact_Inr:
  assumes "build_dataset_table_artifact t rows keys idx = Inr a"
  shows "list_all2 (\<lambda>raw x. export_record t keys idx raw = Inr x) rows (ta_records a)"
    and "ta_kind a = ''dataset-table''"
  using assms
  by (auto simp: build_dataset_table_artifact_def bind_result_Inr_iff collect_results_Inr_iff list_all2_conv_all_nth
      list_eq_iff_nth_eq)

subsection \<open>An exported package\<close>

text \<open>Table \<open>n\<close> is on the disk, and listed as \<open>mt\<close>.\<close>

definition exports :: "dataset_table_spec btree_map \<Rightarrow> btree_set hash_map \<Rightarrow> value_index \<Rightarrow> row list btree_map
   \<Rightarrow> path_component list \<Rightarrow> package_disk \<Rightarrow> string \<Rightarrow> dataset_manifest_table \<Rightarrow> bool" where
  "exports specs keys idx raw base disk n mt \<longleftrightarrow> (\<exists>t rows a. bt_get specs n = Some t \<and> bt_get raw n = Some rows
     \<and> build_dataset_table_artifact t rows keys idx = Inr a \<and> validate_package_file_name (spec_file t) = Inr ()
     \<and> mt = manifest_table t (spec_file t) a \<and> disk (path_join base (spec_file t)) = Some (ArtifactFile a))"

definition spec_path :: "dataset_table_spec btree_map \<Rightarrow> path_component list \<Rightarrow> string \<Rightarrow> path_component list" where
  "spec_path specs base n = base @ path_components (spec_file (the (bt_get specs n)))"

lemma validated_path: "validate_package_file_name f = Inr u \<Longrightarrow> path_join base f = base @ path_components f"
  by (auto elim: validate_package_file_name_Inr)

lemma exports_disk:
  assumes "exports specs keys idx raw base disk n mt" "p \<noteq> spec_path specs base n"
  shows "exports specs keys idx raw base (disk(p \<mapsto> v)) n mt"
  using assms validated_path unfolding exports_def spec_path_def by fastforce

lemma export_tables_listed:
  assumes "export_tables refuses base specs keys idx raw names tables disk = (Inr tables', disk')"
    and "distinct (map (spec_path specs base) names)"
  shows "\<exists>listed. tables' = tables @ listed \<and> list_all2 (exports specs keys idx raw base disk') names listed
    \<and> (\<forall>p. p \<notin> spec_path specs base ` set names \<longrightarrow> disk' p = disk p)"
  using assms
proof (induction refuses base specs keys idx raw names tables disk rule: export_tables.induct)
  case (2 refuses base specs keys idx raw name names tables disk)
  from 2(2) obtain t rows a f q where t: "bt_get specs name = Some t" "bt_get raw name = Some rows"
      "build_dataset_table_artifact t rows keys idx = Inr a"
      "bind_result (table_output_file_name t) (\<lambda>f. map_sum id (\<lambda>p. (f, p)) (package_file_path base f)) = Inr (f, q)"
      and rest: "\<not> refuses q" "export_tables refuses base specs keys idx raw names (tables @ [manifest_table t f a])
        (disk(q \<mapsto> ArtifactFile a)) = (Inr tables', disk')"
    by (auto simp: write_json_file_def split: option.splits sum.splits prod.splits if_splits)
  have f: "f = spec_file t" "validate_package_file_name f = Inr ()" "q = spec_path specs base name"
    using t(1,4) by (auto simp: bind_result_Inr_iff map_sum_Inr_iff table_output_file_name_def Let_def
        spec_file_def package_file_path_def spec_path_def validated_path)
  have "\<exists>listed. tables' = (tables @ [manifest_table t f a]) @ listed
      \<and> list_all2 (exports specs keys idx raw base disk') names listed
      \<and> (\<forall>p. p \<notin> spec_path specs base ` set names \<longrightarrow> disk' p = (disk(q \<mapsto> ArtifactFile a)) p)"
    using 2(1) [OF t refl rest(2)] 2(3) by simp
  then obtain listed where listed: "tables' = (tables @ [manifest_table t f a]) @ listed"
      "list_all2 (exports specs keys idx raw base disk') names listed"
      "\<forall>p. p \<notin> spec_path specs base ` set names \<longrightarrow> disk' p = (disk(q \<mapsto> ArtifactFile a)) p"
    by blast
  have "exports specs keys idx raw base disk' name (manifest_table t f a)"
    using t f listed(3) 2(3) by (auto simp: exports_def spec_path_def validated_path)
  then show ?case
    using listed f(3) by (intro exI [of _ "manifest_table t f a # listed"]) auto
qed simp

lemma fetch_package_records_keep:
  "fetch_package_records read specs keys names raw s = (Inr raw', s') \<Longrightarrow> bt_get raw n \<noteq> None \<Longrightarrow> bt_get raw' n \<noteq> None"
  by (induction read specs keys names raw s rule: fetch_package_records.induct)
    (auto simp: bt.get_insert split: option.splits sum.splits prod.splits if_splits)

lemma fetch_package_records_all:
  assumes "fetch_package_records read specs keys names raw s = (Inr raw', s')" "n \<in> set names"
  shows "bt_get raw' n \<noteq> None"
  using assms
proof (induction read specs keys names raw s rule: fetch_package_records.induct)
  case (2 read specs keys name names raw s)
  from 2(2) obtain t table rows s1 where t: "bt_get specs name = Some t" "table_name_try_from (ds_name t) = Inr table"
      "read table (ds_query t) (package_fetch_fields t keys) (default_pagination\<lparr>pc_limit := ds_limit t\<rparr>) (ds_order_by t) s
        = (Inr rows, s1)"
      and rest: "fetch_package_records read specs keys names (bt_insert name rows raw) s1 = (Inr raw', s')"
    by (auto split: option.splits sum.splits prod.splits)
  show ?case
  proof (cases "n \<in> set names")
    case True
    then show ?thesis using 2(1) [OF t(1,2) t(3) [symmetric] refl rest] by simp
  next
    case False
    then show ?thesis using 2(3) fetch_package_records_keep [OF rest, of name] by (simp add: bt.get_insert)
  qed
qed simp

lemma collected_get:
  assumes "distinct (map key xs)" "x \<in> set xs"
  shows "bt_get (bt_collect (map (\<lambda>x. (key x, x)) xs)) (key x) = Some x"
proof -
  have "distinct (map fst (rev (map (\<lambda>x. (key x, x)) xs)))"
    using assms(1) by (simp add: rev_map [symmetric] comp_def)
  then show ?thesis using assms(2) by (simp add: bt_get_collect)
qed

lemma collected_get_Some:
  "bt_get (bt_collect (map (\<lambda>x. (key x, x)) xs)) n = Some x \<Longrightarrow> x \<in> set xs \<and> key x = n"
  by (auto simp: bt_get_collect dest!: map_of_SomeD)

lemma manifest_table_map_Inr:
  "manifest_table_map ts m = Inr m' \<Longrightarrow> distinct (map mt_name ts) \<and> (\<forall>t \<in> set ts. bt_get m (mt_name t) = None)
     \<and> (\<forall>n. bt_get m' n = (case map_of (map (\<lambda>t. (mt_name t, t)) ts) n of Some t \<Rightarrow> Some t | None \<Rightarrow> bt_get m n))"
proof (induction ts arbitrary: m)
  case (Cons t ts)
  have get: "bt_get (bt_insert (mt_name t) t m) n = (if n = mt_name t then Some t else bt_get m n)" for n
    by (rule bt.get_insert)
  from Cons.prems have t: "bt_get m (mt_name t) = None" and rest: "manifest_table_map ts (bt_insert (mt_name t) t m) = Inr m'"
    by (auto split: if_splits)
  note ih = Cons.IH [OF rest, unfolded get]
  have fresh: "mt_name t \<notin> mt_name ` set ts" "\<forall>u \<in> set ts. bt_get m (mt_name u) = None"
    using ih by (auto split: if_splits)
  then have "map_of (map (\<lambda>t. (mt_name t, t)) ts) (mt_name t) = None"
    by (simp add: map_of_eq_None_iff image_image)
  then show ?case
    using ih t fresh by (simp split: option.splits)
qed simp

lemma manifest_table_map_distinct:
  "distinct (map mt_name ts) \<Longrightarrow> \<forall>t \<in> set ts. bt_get m (mt_name t) = None \<Longrightarrow> \<exists>m'. manifest_table_map ts m = Inr m'"
proof (induction ts arbitrary: m)
  case (Cons t ts)
  then have "\<forall>u \<in> set ts. bt_get (bt_insert (mt_name t) t m) (mt_name u) = None"
    using Cons.prems by (auto simp: bt.get_insert image_iff)
  then show ?case using Cons by simp
qed simp

lemma manifest_map_get:
  assumes "manifest_table_map ts [] = Inr m"
  shows "t \<in> set ts \<Longrightarrow> bt_get m (mt_name t) = Some t" "bt_get m n = Some t \<Longrightarrow> t \<in> set ts \<and> mt_name t = n"
    "distinct (map mt_name ts)"
proof -
  note m = manifest_table_map_Inr [OF assms]
  show "distinct (map mt_name ts)" using m by simp
  show "bt_get m (mt_name t) = Some t" if "t \<in> set ts"
  proof -
    have "map_of (map (\<lambda>t. (mt_name t, t)) ts) (mt_name t) = Some t"
      using m that by (intro map_of_is_SomeI) (auto simp: comp_def)
    then show ?thesis using m by simp
  qed
  show "t \<in> set ts \<and> mt_name t = n" if "bt_get m n = Some t"
    using m that by (auto simp: bt.get_empty split: option.splits dest!: map_of_SomeD)
qed

lemma validate_tables_Inr:
  assumes "validate_tables read disk base ts reports artifacts s = (Inr (reports', artifacts'), s')" "distinct (map mt_name ts)"
  shows "(\<forall>t \<in> set ts. \<exists>a. bind_result (package_file_path base (mt_file t)) (read_dataset_table_artifact disk) = Inr a
        \<and> bt_get artifacts' (mt_name t) = Some a \<and> (\<exists>n. table_name_try_from (mt_name t) = Inr n))
     \<and> (\<forall>n. n \<notin> mt_name ` set ts \<longrightarrow> bt_get artifacts' n = bt_get artifacts n)"
  using assms
proof (induction read disk base ts reports artifacts s rule: validate_tables.induct)
  case (2 read disk base t ts reports artifacts s)
  from 2(2) obtain a report s1 where a: "bind_result (package_file_path base (mt_file t)) (read_dataset_table_artifact disk) = Inr a"
      and r: "build_table_validation_report read (ta_kind a) (mt_name t) (mt_fields t) (map tr_data (ta_records a)) s = (Inr report, s1)"
      and rest: "validate_tables read disk base ts (reports @ [report]) (bt_insert (mt_name t) a artifacts) s1 = (Inr (reports', artifacts'), s')"
    by (auto split: sum.splits prod.splits)
  have "\<exists>n. table_name_try_from (mt_name t) = Inr n"
    using r by (auto simp: build_table_validation_report_def and_then_Inr_iff fetch_table_schema_def split: sum.splits)
  then show ?case
    using 2(1) [OF a r [symmetric] refl] rest 2(3) a by (auto simp: bt.get_insert)
qed simp

lemma validate_tables_Inl:
  assumes "validate_tables read disk base ts reports artifacts s = (Inl e, s')"
    and "\<forall>t \<in> set ts. \<exists>a. bind_result (package_file_path base (mt_file t)) (read_dataset_table_artifact disk) = Inr a"
  shows "\<exists>d. e = PackageSchemaFailed d"
  using assms
  by (induction read disk base ts reports artifacts s rule: validate_tables.induct)
    (auto split: sum.splits prod.splits)

text \<open>The records of a table of the package, and its references that were exported as null.\<close>

definition package_records :: "package_disk \<Rightarrow> path_component list \<Rightarrow> dataset_manifest_table \<Rightarrow> dataset_table_record list" where
  "package_records disk base t = (case bind_result (package_file_path base (mt_file t)) (read_dataset_table_artifact disk) of
      Inr a \<Rightarrow> ta_records a | Inl _ \<Rightarrow> [])"

definition null_references :: "dataset_table_record list \<Rightarrow> dataset_reference \<Rightarrow> validation_issue list" where
  "null_references xs r = concat (map (\<lambda>(i, x). if bt_get (tr_data x) (dr_field r) = Some JNull
     then [reference_issue ''missing_reference_placeholder'' (dr_field r) (Some i)] else []) (enumerate 0 xs))"

definition null_reference_issues :: "package_disk \<Rightarrow> path_component list \<Rightarrow> dataset_manifest \<Rightarrow> validation_issue list" where
  "null_reference_issues disk base m = concat (concat (map (\<lambda>t.
     map (null_references (package_records disk base t)) (mt_references t)) (dm_tables m)))"

text \<open>
  What the specification has to say: no two tables share a file, none is called like the manifest,
  no table has two references in a field, and a source key is an ordinary column of its table.
\<close>

definition sound_package_spec :: "dataset_export_spec \<Rightarrow> bool" where
  "sound_package_spec spec \<longleftrightarrow>
     distinct ([NormalComponent ''manifest.json''] # map (\<lambda>t. path_components (spec_file t)) (de_tables spec))
     \<and> (\<forall>t \<in> set (de_tables spec). distinct (map dr_field (ds_references t))
         \<and> (\<forall>r \<in> set (ds_references t). dr_source_key r \<noteq> ''sys_id''
             \<and> (\<forall>u \<in> set (de_tables spec). ds_name u = dr_target_table r \<longrightarrow> dr_source_key r \<notin> dr_field ` set (ds_references u))))"

lemma placeholder_neq_null [simp]: "reference_placeholder r v \<noteq> JNull"
  by (simp add: reference_placeholder_def)

lemma exported_reference_issues:
  assumes "exported_reference idx r (bt_get data (dr_field r))"
    and "\<forall>i v. index_lookup idx (dr_target_table r) (dr_source_key r) i = Some v \<longrightarrow> v \<in> values"
  shows "record_reference_issues r values i data = (if bt_get data (dr_field r) = Some JNull
     then [reference_issue ''missing_reference_placeholder'' (dr_field r) (Some i)] else [])"
  using assms by (auto simp: exported_reference_def record_reference_issues_def)

lemma exports_record:
  assumes "exports specs keys idx raw base disk n mt"
  obtains t rows a where "bt_get specs n = Some t" "bt_get raw n = Some rows"
    "list_all2 (\<lambda>row x. export_record t keys idx row = Inr x) rows (ta_records a)"
    "mt = manifest_table t (spec_file t) a"
    "bind_result (package_file_path base (mt_file mt)) (read_dataset_table_artifact disk) = Inr a"
proof -
  obtain t rows a where a: "bt_get specs n = Some t" "bt_get raw n = Some rows"
      "build_dataset_table_artifact t rows keys idx = Inr a" "validate_package_file_name (spec_file t) = Inr ()"
      "mt = manifest_table t (spec_file t) a" "disk (path_join base (spec_file t)) = Some (ArtifactFile a)"
    using assms by (auto simp: exports_def)
  show ?thesis
  proof (rule that [OF a(1,2) build_artifact_Inr(1) [OF a(3)] a(5)])
    show "bind_result (package_file_path base (mt_file mt)) (read_dataset_table_artifact disk) = Inr a"
      using a by (simp add: manifest_table_def package_file_path_def read_dataset_table_artifact_def)
  qed
qed

text \<open>Every source value an index of the export holds is in the artifact of its table.\<close>

lemma indexed_values_exported:
  assumes "exports specs keys idx raw base disk (dr_target_table r) mt"
    and "idx = build_source_value_indexes tables raw"
    and "bind_result (package_file_path base (mt_file mt)) (read_dataset_table_artifact disk) = Inr a"
    and "index_lookup idx (dr_target_table r) (dr_source_key r) i = Some v"
    and "dr_source_key r \<in> set (keys_of_table keys (dr_target_table r))" "dr_source_key r \<noteq> ''sys_id''"
    and "\<forall>u. bt_get specs (dr_target_table r) = Some u \<longrightarrow> ds_name u = dr_target_table r
           \<and> dr_source_key r \<notin> dr_field ` set (ds_references u)"
  shows "v \<in> set (artifact_source_values a (dr_source_key r))"
proof -
  obtain t rows a' where t: "bt_get specs (dr_target_table r) = Some t" "bt_get raw (dr_target_table r) = Some rows"
      "list_all2 (\<lambda>row x. export_record t keys idx row = Inr x) rows (ta_records a')"
      "mt = manifest_table t (spec_file t) a'"
      "bind_result (package_file_path base (mt_file mt)) (read_dataset_table_artifact disk) = Inr a'"
    by (rule exports_record [OF assms(1)])
  have "a' = a" using t(5) assms(3) by simp
  obtain row where row: "row \<in> set rows" "field_as_text row (dr_source_key r) = Some v"
    using source_index_values [OF assms(4) [unfolded assms(2)]] t(2) by auto
  then obtain x where x: "x \<in> set (ta_records a)" "export_record t keys idx row = Inr x"
    using list_all2_set1 [OF t(3)] \<open>a' = a\<close> by blast
  have "field_as_text (tr_data x) (dr_source_key r) = Some v"
    using export_record_Inr(2) [OF x(2), of "dr_source_key r"] assms(5,6,7) t(1) row(2)
    by (simp add: field_as_text_def)
  then show ?thesis using x(1) by (auto simp: artifact_source_values_iff)
qed

text \<open>The setting of a completed export, as the proofs use it.\<close>

lemma export_package_Inr:
  assumes "export_package refuses read url now spec base (s, disk) = (Inr m, s', disk')" "sound_package_spec spec"
  obtains order raw specs keys deps idx where
    "specs = bt_collect (map (\<lambda>t. (ds_name t, t)) (de_tables spec))" "keys = required_source_keys (de_tables spec)"
    "idx = build_source_value_indexes (de_tables spec) raw"
    "distinct (map ds_name (de_tables spec))"
    "collect_dependencies (map ds_name (de_tables spec))
       (map (\<lambda>t. (ds_name t, ds_depends_on t, ds_references t)) (de_tables spec)) [] = Inr deps"
    "dependency_order deps order"
    "list_all2 (exports specs keys idx raw base disk') order (dm_tables m)"
    "disk' (path_join base ''manifest.json'') = Some (ManifestFile m)"
proof -
  let ?specs = "bt_collect (map (\<lambda>t. (ds_name t, t)) (de_tables spec))"
  let ?keys = "required_source_keys (de_tables spec)"
  from assms(1) obtain order raw s1 tables disk1 where order: "validate_dataset_export_spec spec = Inr ()"
      "topological_table_order (de_tables spec) = Inr order"
      and x: "export_tables refuses base ?specs ?keys (build_source_value_indexes (de_tables spec) raw) raw order [] disk
        = (Inr tables, disk1)" "m = export_manifest url now tables"
        "disk' = disk1(path_join base ''manifest.json'' \<mapsto> ManifestFile m)"
    by (auto simp: export_package_def Let_def write_json_file_def bind_result_Inr_iff
        split: sum.splits prod.splits if_splits)
  have names: "distinct (map ds_name (de_tables spec))"
    using order(1) by (auto simp: validate_dataset_export_spec_def first_duplicate_None
        split: if_splits option.splits)
  obtain deps where deps: "collect_dependencies (map ds_name (de_tables spec))
       (map (\<lambda>t. (ds_name t, ds_depends_on t, ds_references t)) (de_tables spec)) [] = Inr deps"
      "order_collected deps = Inr order"
    using order(2) by (auto simp: topological_table_order_def bind_result_Inr_iff)
  have dep_order: "dependency_order deps order"
    using order_collected_Inr [OF deps(2)] collect_dependencies_Inr(3) [OF deps(1)] by simp
  have order_names: "set order = ds_name ` set (de_tables spec)" "distinct order"
    using dep_order collected_keys [OF deps(1)]
    by (auto simp: dependency_order_def follows_dependencies_def image_image)
  have spec_of: "bt_get ?specs (ds_name t) = Some t" if "t \<in> set (de_tables spec)" for t
    by (rule collected_get [OF names that])
  have inj: "inj_on (\<lambda>t. path_components (spec_file t)) (set (de_tables spec))"
    using assms(2) by (simp add: sound_package_spec_def distinct_map)
  have paths: "distinct (map (spec_path ?specs base) order)"
    and manifest: "path_join base ''manifest.json'' \<notin> spec_path ?specs base ` set order"
  proof -
    have "inj_on (spec_path ?specs base) (set order)"
      using inj spec_of order_names(1) by (auto simp: inj_on_def spec_path_def)
    then show "distinct (map (spec_path ?specs base) order)" using order_names(2) by (simp add: distinct_map)
    show "path_join base ''manifest.json'' \<notin> spec_path ?specs base ` set order"
      using assms(2) spec_of order_names(1) by (auto simp: spec_path_def sound_package_spec_def)
  qed
  have "list_all2 (exports ?specs ?keys (build_source_value_indexes (de_tables spec) raw) raw base disk1) order tables"
    using export_tables_listed [OF x(1) paths] by auto
  then have "list_all2 (exports ?specs ?keys (build_source_value_indexes (de_tables spec) raw) raw base disk') order tables"
    unfolding x(3) by (rule list.rel_mono_strong) (use exports_disk manifest in blast)
  then show ?thesis
    using that [OF refl refl refl names deps(1) dep_order] x(2,3) by (simp add: export_manifest_def)
qed

text \<open>The tables of the manifest are those of the specification, in the order of the export.\<close>

lemma exported_names:
  assumes "list_all2 (exports specs keys idx raw base disk) order tables"
    and "\<forall>n t. bt_get specs n = Some t \<longrightarrow> ds_name t = n"
  shows "map mt_name tables = order"
    and "mt \<in> set tables \<Longrightarrow> exports specs keys idx raw base disk (mt_name mt) mt
      \<and> (\<exists>t. bt_get specs (mt_name mt) = Some t \<and> mt_references mt = ds_references t \<and> mt_depends_on mt = ds_depends_on t)"
proof -
  have name: "mt_name mt = n \<and> (\<exists>t. bt_get specs n = Some t \<and> mt_references mt = ds_references t \<and> mt_depends_on mt = ds_depends_on t)"
    if mt: "exports specs keys idx raw base disk n mt" for n mt
  proof -
    obtain t a where "bt_get specs n = Some t" "mt = manifest_table t (spec_file t) a"
      using mt unfolding exports_def by blast
    then show ?thesis using assms(2) by (simp add: manifest_table_def)
  qed
  have "list_all2 (\<lambda>n mt. mt_name mt = n) order tables"
    by (rule list_all2_mono [OF assms(1)], rule conjunct1 [OF name])
  then show "map mt_name tables = order"
    by (induction rule: list_all2_induct) auto
  show "exports specs keys idx raw base disk (mt_name mt) mt
      \<and> (\<exists>t. bt_get specs (mt_name mt) = Some t \<and> mt_references mt = ds_references t \<and> mt_depends_on mt = ds_depends_on t)"
    if "mt \<in> set tables"
  proof -
    obtain n where "exports specs keys idx raw base disk n mt"
      using list_all2_set2 [OF assms(1) \<open>mt \<in> set tables\<close>] by blast
    then show ?thesis using name by blast
  qed
qed

lemma exported_order:
  assumes deps: "collect_dependencies (map ds_name specs) (map (\<lambda>t. (ds_name t, ds_depends_on t, ds_references t)) specs) [] = Inr deps"
    and order: "dependency_order deps order" "distinct (map ds_name specs)"
    and tables: "map mt_name tables = order"
      "\<forall>mt \<in> set tables. \<exists>t \<in> set specs. ds_name t = mt_name mt \<and> mt_references mt = ds_references t \<and> mt_depends_on mt = ds_depends_on t"
  shows "\<exists>order'. topological_manifest_order tables = Inr order'"
proof -
  let ?triples = "map (\<lambda>t. (mt_name t, mt_depends_on t, mt_references t)) tables"
  have keys: "set (bt_keys deps) = ds_name ` set specs" "set order = ds_name ` set specs" "distinct order"
    using collected_keys [OF deps] order(1) by (auto simp: dependency_order_def follows_dependencies_def image_image)
  have of_table: "deps_of deps (mt_name mt) = set (mt_depends_on mt) \<union> dr_target_table ` set (mt_references mt)"
    if "mt \<in> set tables" for mt
    using deps_of_collected [OF deps] tables(2) that order(2) by (fastforce simp: comp_def)
  have closed: "deps_of deps n \<subseteq> set order" for n
  proof (cases "n \<in> set order")
    case True
    then obtain i where "i < length order" "order ! i = n" by (auto simp: in_set_conv_nth)
    then have "deps_of deps n \<subseteq> set (take i order)"
      using order(1) by (auto simp: dependency_order_def follows_dependencies_def)
    then show ?thesis using set_take_subset [of i order] by blast
  next
    case False
    then have "bt_get deps n = None" using keys by (simp add: bt_get_None_iff)
    then show ?thesis by (simp add: deps_of_def)
  qed
  have "\<forall>mt \<in> set tables. set (mt_depends_on mt) \<union> dr_target_table ` set (mt_references mt) \<subseteq> set (map mt_name tables)"
    using of_table closed tables(1) by metis
  then obtain deps' where deps': "collect_dependencies (map mt_name tables) ?triples [] = Inr deps'"
    using collect_dependencies_complete [of ?triples "map mt_name tables" "[]"] by auto
  have keys': "set (bt_keys deps') = set order"
    using collected_keys [OF deps'] tables(1) by (auto simp: image_image)
  have same: "deps_of deps' n = deps_of deps n" if "n \<in> set order" for n
  proof -
    obtain mt where "mt \<in> set tables" "mt_name mt = n" using tables(1) \<open>n \<in> set order\<close> by auto
    then show ?thesis
      using deps_of_collected [OF deps'] of_table keys(3) tables(1) by (force simp: comp_def)
  qed
  have "\<forall>i < length order. deps_of deps' (order ! i) = deps_of deps (order ! i)"
    using same nth_mem by blast
  then have "dependency_order deps' order"
    using order(1) keys keys' by (auto simp: dependency_order_def follows_dependencies_def)
  then obtain ts where "topo_result deps' = Inr ts"
    using package.orders_iff [of deps'] collect_dependencies_Inr(3) [OF deps'] by auto
  then show ?thesis by (simp add: topological_manifest_order_def deps' order_collected_def)
qed

lemma concat_singletons: "map f xs = map (\<lambda>x. Inr (g x)) xs \<Longrightarrow> collect_results (map f xs) = Inr (map g xs)"
  by (simp add: collect_results_Inr_iff comp_def)

lemma exported_references_resolve:
  assumes listed: "list_all2 (exports specs keys idx raw base disk) order tables"
    and specs: "specs = bt_collect (map (\<lambda>t. (ds_name t, t)) (de_tables spec))" "keys = required_source_keys (de_tables spec)"
      "idx = build_source_value_indexes (de_tables spec) raw" "sound_package_spec spec"
    and t: "t \<in> set tables" "r \<in> set (mt_references t)"
    and target: "u \<in> set tables" "mt_name u = dr_target_table r"
    and maps: "bt_get by_name (dr_target_table r) \<noteq> None" "bt_get artifacts (mt_name t) = Some a" "bt_get artifacts (dr_target_table r) = Some b"
    and read: "bind_result (package_file_path base (mt_file t)) (read_dataset_table_artifact disk) = Inr a"
      "bind_result (package_file_path base (mt_file u)) (read_dataset_table_artifact disk) = Inr b"
  shows "reference_issues by_name artifacts (mt_name t) r = Inr (null_references (package_records disk base t) r)"
proof -
  have names: "\<forall>n t. bt_get specs n = Some t \<longrightarrow> t \<in> set (de_tables spec) \<and> ds_name t = n"
    unfolding specs(1) using collected_get_Some [where key = ds_name] by blast
  then have names': "\<forall>n t. bt_get specs n = Some t \<longrightarrow> ds_name t = n" by simp
  obtain st where st: "exports specs keys idx raw base disk (mt_name t) t" "bt_get specs (mt_name t) = Some st"
      "mt_references t = ds_references st"
    using exported_names(2) [OF listed names' t(1)] by (elim conjE exE)
  then have "st \<in> set (de_tables spec)" using names by simp
  note st = st this
  have u: "exports specs keys idx raw base disk (dr_target_table r) u"
    using conjunct1 [OF exported_names(2) [OF listed names' target(1)]] target(2) by simp
  have sound: "dr_source_key r \<noteq> ''sys_id''" "distinct (map dr_field (ds_references st))"
      "\<forall>u. bt_get specs (dr_target_table r) = Some u \<longrightarrow> ds_name u = dr_target_table r
         \<and> dr_source_key r \<notin> dr_field ` set (ds_references u)"
    using specs(4) st(3,4) t(2) names by (auto simp: sound_package_spec_def)
  have key: "dr_source_key r \<in> set (keys_of_table keys (dr_target_table r))"
    unfolding specs(2) required_source_keys_iff using st(3,4) t(2) by auto
  have vals: "\<forall>i v. index_lookup idx (dr_target_table r) (dr_source_key r) i = Some v
      \<longrightarrow> v \<in> set (artifact_source_values b (dr_source_key r))"
    using indexed_values_exported [OF u specs(3) read(2) _ key sound(1,3)] by blast
  obtain st' rows a' where "bt_get specs (mt_name t) = Some st'"
      "list_all2 (\<lambda>row x. export_record st' keys idx row = Inr x) rows (ta_records a')"
      "bind_result (package_file_path base (mt_file t)) (read_dataset_table_artifact disk) = Inr a'"
    by (rule exports_record [OF st(1)])
  then have rows: "list_all2 (\<lambda>row x. export_record st keys idx row = Inr x) rows (ta_records a)"
    using st(2) read(1) by simp
  have issues: "record_reference_issues r (set (artifact_source_values b (dr_source_key r))) i (tr_data x)
      = (if bt_get (tr_data x) (dr_field r) = Some JNull
         then [reference_issue ''missing_reference_placeholder'' (dr_field r) (Some i)] else [])"
    if "x \<in> set (ta_records a)" for i x
  proof -
    obtain row where row: "export_record st keys idx row = Inr x"
      using list_all2_set2 [OF rows \<open>x \<in> set (ta_records a)\<close>] by blast
    have "r \<in> set (ds_references st)" using t(2) st(3) by simp
    then show ?thesis
      by (rule exported_reference_issues [OF export_record_Inr(1) [OF row sound(2)] vals])
  qed
  have "package_records disk base t = ta_records a" by (simp add: package_records_def read(1))
  then show ?thesis
    using issues maps
    by (auto simp: reference_issues_def null_references_def in_set_enumerate_eq intro!: arg_cong [where f = concat] map_cong)
qed

lemma references_collected:
  assumes "\<And>t r. t \<in> set tables \<Longrightarrow> r \<in> set (mt_references t)
      \<Longrightarrow> reference_issues by_name artifacts (mt_name t) r = Inr (f t r)"
  shows "package_reference_issues by_name artifacts tables =
    Inr (concat (concat (map (\<lambda>t. map (f t) (mt_references t)) tables)))"
proof -
  have "concat (map (\<lambda>t. map (reference_issues by_name artifacts (mt_name t)) (mt_references t)) tables)
      = map Inr (concat (map (\<lambda>t. map (f t) (mt_references t)) tables))"
    using assms by (simp add: map_concat comp_def cong: map_cong)
  then show ?thesis by (simp add: package_reference_issues_def)
qed

text \<open>An exported package is well formed: its tables are ordered, mapped, on the disk and closed under references.\<close>

lemma exported_package_wf:
  assumes listed: "list_all2 (exports specs keys idx raw base disk') order tables"
    and specs: "specs = bt_collect (map (\<lambda>t. (ds_name t, t)) ts)" "distinct (map ds_name ts)"
    and deps: "collect_dependencies (map ds_name ts) (map (\<lambda>t. (ds_name t, ds_depends_on t, ds_references t)) ts) [] = Inr deps"
    and order: "dependency_order deps order"
  obtains order' by_name where "topological_manifest_order tables = Inr order'" "manifest_table_map tables [] = Inr by_name"
    "\<forall>t \<in> set tables. \<exists>a. bind_result (package_file_path base (mt_file t)) (read_dataset_table_artifact disk') = Inr a"
    "\<forall>t \<in> set tables. \<forall>r \<in> set (mt_references t). \<exists>u \<in> set tables. mt_name u = dr_target_table r"
    "distinct (map mt_name tables)"
proof -
  have spec_of: "\<forall>n t. bt_get specs n = Some t \<longrightarrow> t \<in> set ts \<and> ds_name t = n"
    unfolding specs(1) using collected_get_Some [where key = ds_name] by blast
  then have name_of: "\<forall>n t. bt_get specs n = Some t \<longrightarrow> ds_name t = n" by simp
  have names: "map mt_name tables = order" by (rule exported_names(1) [OF listed name_of])
  have of_spec: "\<forall>mt \<in> set tables. \<exists>t \<in> set ts. ds_name t = mt_name mt
      \<and> mt_references mt = ds_references t \<and> mt_depends_on mt = ds_depends_on t"
    using exported_names(2) [OF listed name_of] spec_of by blast
  obtain order' where order': "topological_manifest_order tables = Inr order'"
    using exported_order [OF deps order specs(2) names of_spec] by blast
  have distinct: "distinct (map mt_name tables)"
    using order names by (simp add: dependency_order_def follows_dependencies_def)
  obtain by_name where by_name: "manifest_table_map tables [] = Inr by_name"
    using manifest_table_map_distinct [OF distinct, of "[]"] by (auto simp: bt.get_empty)
  have on_disk: "\<exists>a. bind_result (package_file_path base (mt_file t)) (read_dataset_table_artifact disk') = Inr a"
    if "t \<in> set tables" for t
    using conjunct1 [OF exported_names(2) [OF listed name_of that]] by (auto elim: exports_record)
  have target: "\<exists>u \<in> set tables. mt_name u = dr_target_table r"
    if t: "t \<in> set tables" "r \<in> set (mt_references t)" for t r
  proof -
    obtain st where st: "st \<in> set ts" "mt_references t = ds_references st" using of_spec t(1) by blast
    then have "(ds_name st, ds_depends_on st, ds_references st) \<in> set (map (\<lambda>t. (ds_name t, ds_depends_on t, ds_references t)) ts)"
      by simp
    from collect_dependencies_Inr(2) [OF deps this] have "dr_target_table r \<in> ds_name ` set ts"
      using st(2) t(2) by auto
    then have "dr_target_table r \<in> set order"
      using order collected_keys [OF deps] by (simp add: dependency_order_def image_image)
    then show ?thesis unfolding names [symmetric] by auto
  qed
  show ?thesis
    using that [OF order' by_name] on_disk target distinct by blast
qed


definition example_package :: dataset_export_spec where
  "example_package = \<lparr>de_version = 1, de_kind = ''dataset-export-spec'', de_tables = [
     \<lparr>ds_name = ''sys_user'', ds_file = None, ds_query = None, ds_fields = Some [''name''], ds_limit = None,
      ds_order_by = None, ds_depends_on = [], ds_references =
        [\<lparr>dr_field = ''dept'', dr_target_table = ''dept'', dr_source_key = ''code'', dr_target_key = ''code''\<rparr>]\<rparr>,
     \<lparr>ds_name = ''dept'', ds_file = None, ds_query = None, ds_fields = None, ds_limit = None,
      ds_order_by = None, ds_depends_on = [], ds_references = []\<rparr>]\<rparr>"

definition example_column :: "string \<Rightarrow> string \<Rightarrow> row" where
  "example_column table name = [(''element'', JString name), (''internal_type'', JString ''string''), (''name'', JString table)]"

definition example_read :: "(unit, row) table_read" where
  "example_read table query flds pc ob s = (Inr (if table = TableName ''dept''
     then [[(''code'', JString ''D1''), (''sys_id'', JString ''d1'')]]
     else if table = TableName ''sys_user'' then [[(''dept'', JString ''d1''), (''name'', JString ''Ann''), (''sys_id'', JString ''u1'')]]
     else if table = TableName ''sys_dictionary''
     then (if query = Some (dictionary_query [TableName ''dept'']) then [example_column ''dept'' ''code'']
       else [example_column ''sys_user'' ''name'', example_column ''sys_user'' ''dept''])
     else []), s)"

lemma example_export:
  "case export_package (\<lambda>_. False) example_read ''u'' 0 example_package [] ((), Map.empty) of
     (Inr m, s', disk') \<Rightarrow> map mt_name (dm_tables m) = [''dept'', ''sys_user'']
       \<and> map mt_record_count (dm_tables m) = [1, 1] \<and> null_reference_issues disk' [] m = []
   | _ \<Rightarrow> False"
  by code_simp

lemma example_validates:
  "case export_package (\<lambda>_. False) example_read ''u'' 0 example_package [] ((), Map.empty) of
     (Inr m, s', disk') \<Rightarrow> (case build_package_validation_report example_read disk' [] m () of
         (Inr v, _) \<Rightarrow> dv_ready v \<and> dv_import_order v = [''dept'', ''sys_user'']
           \<and> map (\<lambda>t. length (package_records disk' [] t)) (dm_tables m) = [1, 1] | _ \<Rightarrow> False)
   | _ \<Rightarrow> False"
  by code_simp


end
