(* ===== verification/Package_Import.thy ===== *)
theory Package_Import
  imports Package_Export
begin

text \<open>
  What the import of a package guarantees: a package that validates is imported completely when the
  instance accepts its records; and what the package commands do not handle.
\<close>

subsection \<open>Importing a valid package\<close>

lemma index_lookup_insert:
  "index_lookup (index_insert t k v x ids) t' k' v' = (if t' = t \<and> k' = k \<and> v' = v then Some x else index_lookup ids t' k' v')"
  by (auto simp: index_lookup_def index_insert_def Let_def hm.get_insert hm.get_empty split: option.splits)

text \<open>The record of a source value: created under its table, and known to the remapping.\<close>

definition known :: "value_index \<Rightarrow> string \<Rightarrow> string list \<Rightarrow> row \<Rightarrow> bool" where
  "known ids table keys data \<longleftrightarrow>
     list_all (\<lambda>k. case field_as_text data k of Some v \<Rightarrow> index_lookup ids table k v \<noteq> None | None \<Rightarrow> True) keys"

lemma note_created_grows:
  "index_lookup ids t k v \<noteq> None \<Longrightarrow> index_lookup (note_created keys table data created ids) t k v \<noteq> None"
proof -
  have "index_lookup (fold (\<lambda>key ids. case field_as_text data key of None \<Rightarrow> ids
      | Some v \<Rightarrow> index_insert table key v x ids) ks ids) t k v \<noteq> None"
    if "index_lookup ids t k v \<noteq> None" for ks ids x
    using that by (induction ks arbitrary: ids) (auto simp: index_lookup_insert split: option.splits)
  then show "index_lookup ids t k v \<noteq> None \<Longrightarrow> ?thesis" by (simp add: note_created_def)
qed

lemma note_created_known: "known (note_created keys table data created ids) table (keys_of_table keys table) data"
proof -
  have "\<forall>k \<in> set ks. case field_as_text data k of None \<Rightarrow> True | Some v \<Rightarrow>
      index_lookup (fold (\<lambda>key ids. case field_as_text data key of None \<Rightarrow> ids
        | Some v \<Rightarrow> index_insert table key v x ids) ks ids) table k v \<noteq> None" for ks ids x
    by (induction ks rule: rev_induct) (auto simp: index_lookup_insert split: option.splits)
  then show ?thesis unfolding known_def list_all_iff note_created_def by blast
qed

text \<open>A field that is remapped holds no placeholder any more, so the other references stay as they were.\<close>

lemma remap_known:
  "\<forall>r \<in> set refs. case extract_reference_marker (bt_get data (dr_field r)) of None \<Rightarrow> True
     | Some m \<Rightarrow> index_lookup ids (rm_target_table m) (rm_source_key m) (rm_source_value m) \<noteq> None
   \<Longrightarrow> \<exists>body. remap_reference_fields ids refs data = Inr body"
proof (induction ids refs data rule: remap_reference_fields.induct)
  case (2 ids r refs data)
  then show ?case by (auto simp: bt.get_insert split: option.splits)
qed simp

text \<open>What validation says of one table: its markers are values of the target tables.\<close>

definition resolves :: "(string \<Rightarrow> dataset_table_record list) \<Rightarrow> dataset_reference \<Rightarrow> row \<Rightarrow> bool" where
  "resolves recs r data \<longleftrightarrow> (case extract_reference_marker (bt_get data (dr_field r)) of None \<Rightarrow> True
     | Some m \<Rightarrow> rm_target_table m = dr_target_table r \<and> rm_source_key m = dr_source_key r
         \<and> (\<exists>x \<in> set (recs (dr_target_table r)). field_as_text (tr_data x) (dr_source_key r) = Some (rm_source_value m)))"

lemma import_table_completes:
  assumes create: "\<forall>path body s. \<exists>row s'. create path body s = (Inr row, s')"
    and "\<forall>x \<in> set xs. \<forall>r \<in> set (mt_references t). resolves recs r (tr_data x)"
    and "\<forall>r \<in> set (mt_references t). \<forall>x \<in> set (recs (dr_target_table r)).
      \<forall>v. field_as_text (tr_data x) (dr_source_key r) = Some v \<longrightarrow> index_lookup ids (dr_target_table r) (dr_source_key r) v \<noteq> None"
  shows "\<exists>ids' s'. import_table_records create keys t i xs c [] ids s = (Inr (c + length xs, [], ids'), s')
    \<and> (\<forall>x \<in> set xs. known ids' (mt_name t) (keys_of_table keys (mt_name t)) (tr_data x))
    \<and> (\<forall>n k v. index_lookup ids n k v \<noteq> None \<longrightarrow> index_lookup ids' n k v \<noteq> None)"
  using assms(2,3)
proof (induction xs arbitrary: i c ids s)
  case (Cons x xs)
  obtain body where body: "remap_reference_fields ids (mt_references t) (tr_data x) = Inr body"
    using remap_known [of "mt_references t" ids "tr_data x"] Cons.prems
    by (fastforce simp: resolves_def split: option.splits)
  obtain row s1 where row: "create (''/api/now/table/'' @ mt_name t) body s = (Inr row, s1)" using create by blast
  let ?ids = "note_created keys (mt_name t) (tr_data x) row ids"
  have "\<forall>r \<in> set (mt_references t). \<forall>x \<in> set (recs (dr_target_table r)).
      \<forall>v. field_as_text (tr_data x) (dr_source_key r) = Some v \<longrightarrow> index_lookup ?ids (dr_target_table r) (dr_source_key r) v \<noteq> None"
    using Cons.prems(2) note_created_grows by blast
  from Cons.IH [OF _ this, of "Suc i" "Suc c" s1] Cons.prems(1) obtain ids' s' where
    ih: "import_table_records create keys t (Suc i) xs (Suc c) [] ?ids s1 = (Inr (Suc c + length xs, [], ids'), s')"
      "\<forall>x \<in> set xs. known ids' (mt_name t) (keys_of_table keys (mt_name t)) (tr_data x)"
      "\<forall>n k v. index_lookup ?ids n k v \<noteq> None \<longrightarrow> index_lookup ids' n k v \<noteq> None"
    by auto
  have grows: "\<forall>n k v. index_lookup ids n k v \<noteq> None \<longrightarrow> index_lookup ids' n k v \<noteq> None"
    using ih(3) note_created_grows by blast
  have "known ids' (mt_name t) (keys_of_table keys (mt_name t)) (tr_data x)"
    using note_created_known [where keys = keys and table = "mt_name t" and data = "tr_data x" and created = row and ids = ids] ih(3)
    by (auto simp: known_def list_all_iff split: option.splits)
  then show ?case
    using ih(1,2) body row grows by auto
qed simp

text \<open>The tables one after another, in an order in which the targets of a table come first.\<close>

lemma import_tables_complete:
  assumes create: "\<forall>path body s. \<exists>row s'. create path body s = (Inr row, s')"
    and tables: "\<forall>n \<in> set names. \<exists>t. bt_get by_name n = Some t \<and> mt_name t = n \<and> (\<exists>x. table_name_try_from n = Inr x)
      \<and> bind_result (package_file_path base (mt_file t)) (read_dataset_table_artifact disk) = Inr (arts n)
      \<and> (\<forall>r \<in> set (mt_references t). dr_source_key r \<in> set (keys_of_table keys (dr_target_table r))
           \<and> (\<forall>x \<in> set (ta_records (arts n)). resolves (\<lambda>n. ta_records (arts n)) r (tr_data x)))"
    and targets: "\<forall>us vs n t. names = us @ n # vs \<longrightarrow> bt_get by_name n = Some t
      \<longrightarrow> dr_target_table ` set (mt_references t) \<subseteq> D \<union> set us"
    and known: "\<forall>n \<in> D. \<forall>x \<in> set (ta_records (arts n)). known ids n (keys_of_table keys n) (tr_data x)"
  shows "\<exists>s'. import_tables create disk base by_name keys names results ids s = (Inr (results @
    map (\<lambda>n. \<lparr>ti_table = n, ti_created = length (ta_records (arts n)), ti_failed = 0, ti_skipped = 0, ti_failures = []\<rparr>) names), s')"
  using tables targets known
proof (induction names arbitrary: D results ids s)
  case (Cons n names)
  obtain t x where t: "bt_get by_name n = Some t" "mt_name t = n" "table_name_try_from n = Inr x"
      "bind_result (package_file_path base (mt_file t)) (read_dataset_table_artifact disk) = Inr (arts n)"
      "\<forall>r \<in> set (mt_references t). dr_source_key r \<in> set (keys_of_table keys (dr_target_table r))
           \<and> (\<forall>x \<in> set (ta_records (arts n)). resolves (\<lambda>n. ta_records (arts n)) r (tr_data x))"
    using Cons.prems(1) by auto
  have "dr_target_table ` set (mt_references t) \<subseteq> D \<union> set []"
    using Cons.prems(2) t(1) append_Nil by metis
  then have D: "dr_target_table r \<in> D" if "r \<in> set (mt_references t)" for r
    using that by auto
  have "\<forall>r \<in> set (mt_references t). \<forall>x \<in> set (ta_records (arts (dr_target_table r))).
      \<forall>v. field_as_text (tr_data x) (dr_source_key r) = Some v \<longrightarrow> index_lookup ids (dr_target_table r) (dr_source_key r) v \<noteq> None"
    using D Cons.prems(3) t(5) by (fastforce simp: known_def list_all_iff)
  with import_table_completes [OF create, of "ta_records (arts n)" t "\<lambda>n. ta_records (arts n)" ids keys 0 0 s] t(5)
  obtain ids' s1 where comp: "import_table_records create keys t 0 (ta_records (arts n)) 0 [] ids s
        = (Inr (length (ta_records (arts n)), [], ids'), s1)"
      "\<forall>x \<in> set (ta_records (arts n)). known ids' n (keys_of_table keys n) (tr_data x)"
      "\<forall>n k v. index_lookup ids n k v \<noteq> None \<longrightarrow> index_lookup ids' n k v \<noteq> None"
    using t(2) by auto
  have known': "\<forall>u \<in> insert n D. \<forall>x \<in> set (ta_records (arts u)). known ids' u (keys_of_table keys u) (tr_data x)"
    using comp(2,3) Cons.prems(3) by (auto simp: known_def list_all_iff split: option.splits)
  have targets': "\<forall>us vs n' t. names = us @ n' # vs \<longrightarrow> bt_get by_name n' = Some t
      \<longrightarrow> dr_target_table ` set (mt_references t) \<subseteq> insert n D \<union> set us"
  proof (intro allI impI)
    fix us vs n' t'
    assume n': "names = us @ n' # vs" "bt_get by_name n' = Some t'"
    then have "n # names = (n # us) @ n' # vs" by simp
    then have "dr_target_table ` set (mt_references t') \<subseteq> D \<union> set (n # us)"
      using Cons.prems(2) n'(2) by metis
    then show "dr_target_table ` set (mt_references t') \<subseteq> insert n D \<union> set us" by auto
  qed
  show ?case
    using Cons.IH [OF _ targets' known', of "results @ [import_result t (length (ta_records (arts n))) []]" s1] Cons.prems(1)
    by (simp add: t comp(1) import_result_def)
qed simp

text \<open>Validated records: no issue, so every marker resolves.\<close>

lemma no_issues_resolve:
  assumes "package_reference_issues by_name artifacts tables = Inr []"
    and "t \<in> set tables" "r \<in> set (mt_references t)" "bt_get artifacts (mt_name t) = Some a"
  shows "\<exists>b. bt_get artifacts (dr_target_table r) = Some b \<and> bt_get by_name (dr_target_table r) \<noteq> None
    \<and> (\<forall>x \<in> set (ta_records a). record_reference_issues r (set (artifact_source_values b (dr_source_key r))) 0 (tr_data x) = [])"
proof -
  obtain issues where issues: "concat (map (\<lambda>t. map (reference_issues by_name artifacts (mt_name t)) (mt_references t)) tables) = map Inr issues"
      "concat issues = []"
    using assms(1) by (auto simp: package_reference_issues_def bind_result_Inr_iff collect_results_Inr_iff)
  have "reference_issues by_name artifacts (mt_name t) r \<in> set (map Inr issues)"
    using assms(2,3) unfolding issues(1) [symmetric] by auto
  then have "reference_issues by_name artifacts (mt_name t) r = Inr []"
    using issues(2) by auto
  then obtain b where b: "bt_get artifacts (dr_target_table r) = Some b" "bt_get by_name (dr_target_table r) \<noteq> None"
      "\<forall>ix \<in> set (enumerate 0 (ta_records a)). (case ix of (i, x) \<Rightarrow>
         record_reference_issues r (set (artifact_source_values b (dr_source_key r))) i (tr_data x)) = []"
    using assms(4) by (auto simp: reference_issues_def reference_issue_def split: if_splits option.splits)
  have "record_reference_issues r (set (artifact_source_values b (dr_source_key r))) 0 (tr_data x) = []"
    if x: "x \<in> set (ta_records a)" for x
  proof -
    obtain i where "i < length (ta_records a)" "x = ta_records a ! i" using x by (auto simp: in_set_conv_nth)
    then have "(i, x) \<in> set (enumerate 0 (ta_records a))" by (simp add: in_set_enumerate_eq)
    then have "record_reference_issues r (set (artifact_source_values b (dr_source_key r))) i (tr_data x) = []"
      using b(3) by fastforce
    then show ?thesis by (auto simp: record_reference_issues_def split: option.splits if_splits)
  qed
  then show ?thesis using b by blast
qed

lemma resolves_no_issue:
  assumes "record_reference_issues r (set (artifact_source_values b (dr_source_key r))) i data = []"
    and "b = arts (dr_target_table r)"
  shows "resolves (\<lambda>n. ta_records (arts n)) r data"
  using assms by (auto simp: resolves_def record_reference_issues_def artifact_source_values_iff split: option.splits if_splits)

text \<open>The order of a manifest: all its tables, targets first.\<close>

lemma manifest_order:
  assumes "topological_manifest_order tables = Inr order" "distinct (map mt_name tables)"
  shows "distinct order" "set order = mt_name ` set tables"
    "t \<in> set tables \<Longrightarrow> order = us @ mt_name t # vs \<Longrightarrow> dr_target_table ` set (mt_references t) \<subseteq> set us"
proof -
  let ?triples = "map (\<lambda>t. (mt_name t, mt_depends_on t, mt_references t)) tables"
  obtain deps where deps: "collect_dependencies (map mt_name tables) ?triples [] = Inr deps" "order_collected deps = Inr order"
    using assms(1) by (auto simp: topological_manifest_order_def bind_result_Inr_iff)
  have order: "dependency_order deps order"
    using order_collected_Inr [OF deps(2)] collect_dependencies_Inr(3) [OF deps(1)] by simp
  then show "distinct order" "set order = mt_name ` set tables"
    using collected_keys [OF deps(1)] by (auto simp: dependency_order_def follows_dependencies_def image_image)
  show "dr_target_table ` set (mt_references t) \<subseteq> set us" if t: "t \<in> set tables" "order = us @ mt_name t # vs"
  proof -
    have "deps_of deps (mt_name t) = set (mt_depends_on t) \<union> dr_target_table ` set (mt_references t)"
      by (rule deps_of_collected [OF deps(1)]) (use assms(2) t(1) in \<open>auto simp: comp_def\<close>)
    then show ?thesis
      using follows_before [of deps order us "mt_name t" vs] order t(2) by (auto simp: dependency_order_def)
  qed
qed

lemma validated_package:
  assumes "build_package_validation_report read disk base m s = (Inr v, s1)" "dv_ready v"
  obtains by_name order reports artifacts where "manifest_table_map (dm_tables m) [] = Inr by_name"
    "topological_manifest_order (dm_tables m) = Inr order" "dv_import_order v = order"
    "validate_tables read disk base (dm_tables m) [] [] s = (Inr (reports, artifacts), s1)"
    "package_reference_issues by_name artifacts (dm_tables m) = Inr []"
proof -
  obtain by_name order where bo: "manifest_table_map (dm_tables m) [] = Inr by_name" "topological_manifest_order (dm_tables m) = Inr order"
    using assms(1) unfolding build_package_validation_report_def
    by (cases "manifest_table_map (dm_tables m) []"; cases "topological_manifest_order (dm_tables m)") auto
  obtain reports artifacts issues where
    "validate_tables read disk base (dm_tables m) [] [] s = (Inr (reports, artifacts), s1)"
    "package_reference_issues by_name artifacts (dm_tables m) = Inr issues"
    "v = \<lparr>dv_dataset_kind = dm_kind m, dv_ready = (concat (map vr_errors reports) @ issues = []),
        dv_table_count = length (dm_tables m), dv_import_order = order, dv_tables = reports,
        dv_errors = concat (map vr_errors reports) @ issues, dv_warnings = concat (map vr_warnings reports)\<rparr>"
  proof (cases "validate_tables read disk base (dm_tables m) [] [] s")
    case (Pair r s0)
    show thesis
    proof (cases r)
      case (Inr ra)
      obtain reports artifacts where ra: "ra = (reports, artifacts)" by (rule prod.exhaust)
      show thesis
        by (cases "package_reference_issues by_name artifacts (dm_tables m)")
          (use assms(1) Pair Inr ra that in \<open>auto simp: build_package_validation_report_def bo Let_def\<close>)
    qed (use assms(1) Pair in \<open>simp add: build_package_validation_report_def bo\<close>)
  qed
  then show thesis using that [OF bo] assms(2) by simp
qed



subsection \<open>What the commands do not handle\<close>

text \<open>A reference that is empty at the source is exported as null, which validation refuses.\<close>

lemma null_reference_refused:
  "record_reference_issues r values i (bt_insert (dr_field r) JNull data)
     = [reference_issue ''missing_reference_placeholder'' (dr_field r) (Some i)]"
  by (simp add: record_reference_issues_def bt.get_insert)

text \<open>
  A create that fails does not end the import, but the first record that refers to the failed one
  does: the command ends with the error of the remapping and without its report.
\<close>

lemma failed_target_aborts_import:
  "case import_table_records (\<lambda>path body s. (Inl (Failed []), s)) [(''dept'', [''code''])]
      \<lparr>mt_name = ''dept'', mt_file = ''dept.json'', mt_query = None, mt_fields = None, mt_record_count = 1,
        mt_depends_on = [], mt_references = []\<rparr> 0 [\<lparr>tr_source_sys_id = None, tr_data = [(''code'', JString ''D1'')]\<rparr>] 0 [] [] ()
   of (Inr (created, failures, ids), s) \<Rightarrow> created = 0 \<and> length failures = 1
     \<and> remap_reference_fields ids [\<lparr>dr_field = ''dept'', dr_target_table = ''dept'', dr_source_key = ''code'', dr_target_key = ''code''\<rparr>]
         [(''dept'', reference_placeholder \<lparr>dr_field = ''dept'', dr_target_table = ''dept'', dr_source_key = ''code'',
            dr_target_key = ''code''\<rparr> ''D1'')] = Inl (PackageNoTarget ''dept'' ''dept'' ''D1'')
    | _ \<Rightarrow> False"
  by code_simp

text \<open>
  A table without \<open>fields\<close> keeps every column the answer has, but the request names only the id, the
  references and the keys, so nothing else is in the answer.
\<close>

lemma unselected_table_fetches_keys_only:
  "package_fetch_fields \<lparr>ds_name = ''dept'', ds_file = None, ds_query = None, ds_fields = None, ds_limit = None,
     ds_order_by = None, ds_depends_on = [], ds_references = []\<rparr> [] = Some ''sys_id''"
  by code_simp

text \<open>Two tables may name the same file: the second overwrites the first, and the manifest lists both.\<close>

lemma shared_file_is_overwritten:
  "validate_dataset_export_spec (example_package\<lparr>de_tables := map (ds_file_update (\<lambda>_. Some ''data.json'')) (de_tables example_package)\<rparr>) = Inr ()
   \<and> (case export_package (\<lambda>_. False) example_read ''u'' 0
        (example_package\<lparr>de_tables := map (ds_file_update (\<lambda>_. Some ''data.json'')) (de_tables example_package)\<rparr>) [] ((), Map.empty) of
      (Inr m, _, disk') \<Rightarrow> map mt_file (dm_tables m) = [''data.json'', ''data.json'']
        \<and> map (\<lambda>t. case read_dataset_table_artifact disk' (path_join [] (mt_file t)) of Inr a \<Rightarrow> ta_table a | Inl _ \<Rightarrow> [])
            (dm_tables m) = [''sys_user'', ''sys_user'']
    | _ \<Rightarrow> False)"
  by (intro conjI) code_simp+

end
