(* ===== verification/Keychain.thy ===== *)
theory Keychain
  imports Http_Client Btree_Map
begin

text \<open>
  Credentials at rest: \<open>src/src/config/keychain.rs\<close>, \<open>credentials.rs\<close>, \<open>native_session.rs\<close> and
  \<open>now_sdk.rs\<close>. The world of the authentication code is a record: environment variables, the
  files of the plaintext test store, the state \<open>'k\<close> of the operating system's keychain
  (the \<open>keyring\<close> crate, an argument) and the rest \<open>'u\<close>. The test store is serde's decoding of its
  file. What is built on the store relies on it through the interface \<open>secret_store\<close>.
\<close>

datatype store_file = BlankStore | TestStore "string btree_map btree_map" | GarbageStore

record ('k, 'u) secrets_world =
  kw_env :: "string \<Rightarrow> string option"
  kw_files :: "string \<Rightarrow> store_file option"
  kw_read_only :: "string \<Rightarrow> bool"
  kw_keyring :: 'k
  kw_rest :: 'u

record 'k keyring =
  kr_get :: "string \<Rightarrow> string \<Rightarrow> 'k \<Rightarrow> client_error + string option"
  kr_set :: "string \<Rightarrow> string \<Rightarrow> string \<Rightarrow> 'k \<Rightarrow> (client_error + unit) \<times> 'k"
  kr_delete :: "string \<Rightarrow> string \<Rightarrow> 'k \<Rightarrow> (client_error + unit) \<times> 'k"

text \<open>What code that keeps secrets under an account relies on.\<close>

locale secret_store =
  fixes get_secret :: "'a \<Rightarrow> 'w \<Rightarrow> 'e + 'v option"
    and set_secret :: "'a \<Rightarrow> 'v \<Rightarrow> 'w \<Rightarrow> ('e + unit) \<times> 'w"
    and delete_secret :: "'a \<Rightarrow> 'w \<Rightarrow> ('e + unit) \<times> 'w"
  assumes set_readable: "set_secret a v w = (Inr (), w') \<Longrightarrow> \<exists>x. get_secret b w = Inr x"
    and get_set: "set_secret a v w = (Inr (), w') \<Longrightarrow> get_secret b w' = (if b = a then Inr (Some v) else get_secret b w)"
    and get_delete: "delete_secret a w = (Inr (), w') \<Longrightarrow> get_secret b w' = (if b = a then Inr None else get_secret b w)"
begin

text \<open>\<open>restore_stored_credential\<close>, \<open>restore_raw_store\<close>.\<close>

definition restore_secret :: "'a \<Rightarrow> 'v option \<Rightarrow> 'w \<Rightarrow> ('e + unit) \<times> 'w" where
  "restore_secret a v w = (case v of Some x \<Rightarrow> set_secret a x w | None \<Rightarrow> delete_secret a w)"

lemma get_restore:
  "restore_secret a v w = (Inr (), w') \<Longrightarrow> get_secret b w' = (if b = a then Inr v else get_secret b w)"
  by (auto simp: restore_secret_def get_set get_delete split: option.splits)

text \<open>Writing one secret and taking it back leaves what was read before.\<close>

lemma snapshot_restored:
  assumes "get_secret a w = Inr v" "\<And>b. b \<noteq> a \<Longrightarrow> get_secret b w' = get_secret b w"
    and "restore_secret a v w' = (Inr (), w'')"
  shows "get_secret b w'' = get_secret b w"
  using assms get_restore [OF assms(3), of b] by (cases "b = a") auto

end

subsection \<open>The keychain\<close>

definition test_store_env :: string where
  "test_store_env = ''SNOW_CLI_TEST_KEYCHAIN_STORE''"

definition allow_plaintext_test_store_env :: string where
  "allow_plaintext_test_store_env = ''SNOW_CLI_ALLOW_PLAINTEXT_TEST_KEYCHAIN''"

definition test_store_allowed :: "string option \<Rightarrow> bool" where
  "test_store_allowed v = (case v of None \<Rightarrow> False
     | Some t \<Rightarrow> to_ascii_lowercase (trim t) \<notin> {'''', ''0'', ''false'', ''off'', ''no''})"

definition test_store_path :: "('k, 'u) secrets_world \<Rightarrow> client_error + string option" where
  "test_store_path w = (case kw_env w test_store_env of
      None \<Rightarrow> Inr None
    | Some p \<Rightarrow> if test_store_allowed (kw_env w allow_plaintext_test_store_env) then Inr (Some p)
        else Inl (Failed ''plaintext test store not allowed''))"

definition load_test_store :: "string \<Rightarrow> ('k, 'u) secrets_world \<Rightarrow> client_error + string btree_map btree_map" where
  "load_test_store p w = (case kw_files w p of
      None \<Rightarrow> Inr [] | Some BlankStore \<Rightarrow> Inr [] | Some (TestStore s) \<Rightarrow> Inr s
    | Some GarbageStore \<Rightarrow> Inl (Failed ''test store is not JSON''))"

text \<open>An empty store removes its file.\<close>

definition save_test_store :: "string \<Rightarrow> string btree_map btree_map \<Rightarrow> ('k, 'u) secrets_world
   \<Rightarrow> (client_error + unit) \<times> ('k, 'u) secrets_world" where
  "save_test_store p store w =
     (if store = [] \<and> kw_files w p = None then (Inr (), w)
      else if kw_read_only w p then (Inl (Failed ''test store not writable''), w)
      else (Inr (), w\<lparr>kw_files := (kw_files w)(p := if store = [] then None else Some (TestStore store))\<rparr>))"

definition store_lookup :: "string btree_map btree_map \<Rightarrow> string \<times> string \<Rightarrow> string option" where
  "store_lookup s sa = Option.bind (bt_get s (fst sa)) (\<lambda>accounts. bt_get accounts (snd sa))"

definition store_insert :: "string \<times> string \<Rightarrow> string \<Rightarrow> string btree_map btree_map \<Rightarrow> string btree_map btree_map" where
  "store_insert sa v s = bt_insert (fst sa)
     (bt_insert (snd sa) v (case bt_get s (fst sa) of Some accounts \<Rightarrow> accounts | None \<Rightarrow> [])) s"

definition store_remove :: "string \<times> string \<Rightarrow> string btree_map btree_map \<Rightarrow> string btree_map btree_map" where
  "store_remove sa s = (case bt_get s (fst sa) of
      None \<Rightarrow> s
    | Some accounts \<Rightarrow> (let accounts' = bt_remove (snd sa) accounts in
        if accounts' = [] then bt_remove (fst sa) s else bt_insert (fst sa) accounts' s))"

text \<open>The branch of the test store of the three operations, for its file.\<close>

definition test_store_get :: "string \<Rightarrow> string \<times> string \<Rightarrow> ('k, 'u) secrets_world \<Rightarrow> client_error + string option" where
  "test_store_get p sa w = bind_result (load_test_store p w) (\<lambda>s. Inr (store_lookup s sa))"

definition test_store_set :: "string \<Rightarrow> string \<times> string \<Rightarrow> string \<Rightarrow> ('k, 'u) secrets_world
   \<Rightarrow> (client_error + unit) \<times> ('k, 'u) secrets_world" where
  "test_store_set p sa v w = (case load_test_store p w of
      Inl e \<Rightarrow> (Inl e, w) | Inr s \<Rightarrow> save_test_store p (store_insert sa v s) w)"

definition test_store_delete :: "string \<Rightarrow> string \<times> string \<Rightarrow> ('k, 'u) secrets_world
   \<Rightarrow> (client_error + unit) \<times> ('k, 'u) secrets_world" where
  "test_store_delete p sa w = (case load_test_store p w of
      Inl e \<Rightarrow> (Inl e, w) | Inr s \<Rightarrow> save_test_store p (store_remove sa s) w)"

definition on_keyring :: "(client_error + unit) \<times> 'k \<Rightarrow> ('k, 'u) secrets_world \<Rightarrow> (client_error + unit) \<times> ('k, 'u) secrets_world" where
  "on_keyring rk w = (fst rk, w\<lparr>kw_keyring := snd rk\<rparr>)"

definition get_password :: "'k keyring \<Rightarrow> string \<times> string \<Rightarrow> ('k, 'u) secrets_world \<Rightarrow> client_error + string option" where
  "get_password kr sa w = (case test_store_path w of
      Inl e \<Rightarrow> Inl e
    | Inr (Some p) \<Rightarrow> test_store_get p sa w
    | Inr None \<Rightarrow> kr_get kr (fst sa) (snd sa) (kw_keyring w))"

definition set_password :: "'k keyring \<Rightarrow> string \<times> string \<Rightarrow> string \<Rightarrow> ('k, 'u) secrets_world
   \<Rightarrow> (client_error + unit) \<times> ('k, 'u) secrets_world" where
  "set_password kr sa v w = (case test_store_path w of
      Inl e \<Rightarrow> (Inl e, w)
    | Inr (Some p) \<Rightarrow> test_store_set p sa v w
    | Inr None \<Rightarrow> on_keyring (kr_set kr (fst sa) (snd sa) v (kw_keyring w)) w)"

definition delete_password :: "'k keyring \<Rightarrow> string \<times> string \<Rightarrow> ('k, 'u) secrets_world
   \<Rightarrow> (client_error + unit) \<times> ('k, 'u) secrets_world" where
  "delete_password kr sa w = (case test_store_path w of
      Inl e \<Rightarrow> (Inl e, w)
    | Inr (Some p) \<Rightarrow> test_store_delete p sa w
    | Inr None \<Rightarrow> on_keyring (kr_delete kr (fst sa) (snd sa) (kw_keyring w)) w)"

lemma store_lookup_insert: "store_lookup (store_insert a v s) b = (if b = a then Some v else store_lookup s b)"
  by (cases a; cases b) (auto simp: store_lookup_def store_insert_def bt.get_insert bt.get_empty split: option.splits)

lemma store_lookup_remove: "store_lookup (store_remove a s) b = (if b = a then None else store_lookup s b)"
proof (cases "bt_get s (fst a)")
  case None
  then show ?thesis by (auto simp: store_lookup_def store_remove_def)
next
  case (Some accounts)
  have removed: "bt_get (bt_remove (snd a) accounts) n = (if n = snd a then None else bt_get accounts n)" for n
    by (rule bt.get_remove)
  have gone: "bt_get accounts n = None" if "bt_remove (snd a) accounts = []" "n \<noteq> snd a" for n
    using removed [of n] that by (simp add: bt.get_empty)
  show ?thesis
    using Some removed gone
    by (cases a; cases b) (auto simp: store_lookup_def store_remove_def Let_def bt.get_insert bt.get_remove bt.get_empty)
qed

lemma store_insert_neq_Nil [simp]: "store_insert a v s \<noteq> []"
  by (simp add: store_insert_def)

lemma save_test_store_Inr:
  assumes "save_test_store p s w = (Inr u, w')"
  shows "load_test_store p w' = Inr s"
  using assms by (auto simp: save_test_store_def load_test_store_def split: if_splits)

interpretation test_store: secret_store "test_store_get p" "test_store_set p" "test_store_delete p" for p
proof
  fix a b :: "string \<times> string" and v and w w' :: "('k, 'u) secrets_world"
  show "test_store_set p a v w = (Inr (), w') \<Longrightarrow> \<exists>x. test_store_get p b w = Inr x"
    by (auto simp: test_store_set_def test_store_get_def split: sum.splits)
  show "test_store_set p a v w = (Inr (), w') \<Longrightarrow>
      test_store_get p b w' = (if b = a then Inr (Some v) else test_store_get p b w)"
    by (auto simp: test_store_set_def test_store_get_def store_lookup_insert split: sum.splits dest!: save_test_store_Inr)
  show "test_store_delete p a w = (Inr (), w') \<Longrightarrow>
      test_store_get p b w' = (if b = a then Inr None else test_store_get p b w)"
    by (auto simp: test_store_delete_def test_store_get_def store_lookup_remove split: sum.splits dest!: save_test_store_Inr)
qed

text \<open>The documented behaviour of the \<open>keyring\<close> crate, and the whole keychain under it.\<close>

definition lawful_keyring :: "'k keyring \<Rightarrow> bool" where
  "lawful_keyring kr \<longleftrightarrow>
     (\<forall>s a v k k'. kr_set kr s a v k = (Inr (), k') \<longrightarrow> (\<forall>t b. (\<exists>x. kr_get kr t b k = Inr x)
        \<and> kr_get kr t b k' = (if t = s \<and> b = a then Inr (Some v) else kr_get kr t b k)))
     \<and> (\<forall>s a k k'. kr_delete kr s a k = (Inr (), k') \<longrightarrow> (\<forall>t b.
          kr_get kr t b k' = (if t = s \<and> b = a then Inr None else kr_get kr t b k)))"

lemma test_store_keeps_env:
  "kw_env (snd (test_store_set p sa v w)) = kw_env w" "kw_env (snd (test_store_delete p sa w)) = kw_env w"
  by (auto simp: test_store_set_def test_store_delete_def save_test_store_def split: sum.splits)

lemma set_password_env [simp]: "kw_env (snd (set_password kr sa v w)) = kw_env w"
  by (auto simp: set_password_def on_keyring_def test_store_keeps_env split: sum.splits option.splits)

lemma delete_password_env [simp]: "kw_env (snd (delete_password kr sa w)) = kw_env w"
  by (auto simp: delete_password_def on_keyring_def test_store_keeps_env split: sum.splits option.splits)

lemma test_store_path_env: "kw_env w' = kw_env w \<Longrightarrow> test_store_path w' = test_store_path w"
  by (cases "kw_env w test_store_env") (simp_all add: test_store_path_def)

lemma keychain_store:
  assumes "lawful_keyring kr"
  shows "secret_store (get_password kr :: _ \<Rightarrow> ('k, 'u) secrets_world \<Rightarrow> _) (set_password kr) (delete_password kr)"
proof
  fix a b :: "string \<times> string" and v and w w' :: "('k, 'u) secrets_world"
  note defs = get_password_def set_password_def delete_password_def on_keyring_def
  show "\<exists>x. get_password kr b w = Inr x" if set: "set_password kr a v w = (Inr (), w')"
  proof (cases "test_store_path w")
    case (Inr p)
    show ?thesis
    proof (cases p)
      case None
      obtain r k' where k: "kr_set kr (fst a) (snd a) v (kw_keyring w) = (r, k')" by (rule prod.exhaust)
      then have "r = Inr ()" using set Inr None by (simp add: defs)
      then show ?thesis using assms k Inr None by (simp add: defs lawful_keyring_def)
    next
      case (Some p')
      then show ?thesis using set Inr test_store.set_readable [of p' a v w w' b] by (simp add: defs)
    qed
  qed (use set in \<open>simp add: defs\<close>)
  show "get_password kr b w' = (if b = a then Inr (Some v) else get_password kr b w)"
    if set: "set_password kr a v w = (Inr (), w')"
  proof -
    have path: "test_store_path w' = test_store_path w"
      using set_password_env [of kr a v w] set by (intro test_store_path_env) simp
    show ?thesis
    proof (cases "test_store_path w")
      case (Inr p)
      show ?thesis
      proof (cases p)
        case None
        obtain r k' where k: "kr_set kr (fst a) (snd a) v (kw_keyring w) = (r, k')" by (rule prod.exhaust)
        have "r = Inr ()" "w' = w\<lparr>kw_keyring := k'\<rparr>" using set Inr None k by (simp_all add: defs)
        then show ?thesis
          using assms k Inr None path by (cases a; cases b) (simp add: defs lawful_keyring_def)
      next
        case (Some p')
        then show ?thesis using set Inr path test_store.get_set [of p' a v w w' b] by (simp add: defs)
      qed
    qed (use set in \<open>simp add: defs\<close>)
  qed
  show "get_password kr b w' = (if b = a then Inr None else get_password kr b w)"
    if delete: "delete_password kr a w = (Inr (), w')"
  proof -
    have path: "test_store_path w' = test_store_path w"
      using delete_password_env [of kr a w] delete by (intro test_store_path_env) simp
    show ?thesis
    proof (cases "test_store_path w")
      case (Inr p)
      show ?thesis
      proof (cases p)
        case None
        obtain r k' where k: "kr_delete kr (fst a) (snd a) (kw_keyring w) = (r, k')" by (rule prod.exhaust)
        have "r = Inr ()" "w' = w\<lparr>kw_keyring := k'\<rparr>" using delete Inr None k by (simp_all add: defs)
        then show ?thesis
          using assms k Inr None path by (cases a; cases b) (simp add: defs lawful_keyring_def)
      next
        case (Some p')
        then show ?thesis using delete Inr path test_store.get_delete [of p' a w w' b] by (simp add: defs)
      qed
    qed (use delete in \<open>simp add: defs\<close>)
  qed
qed

subsection \<open>Credentials\<close>

definition service_name :: string where
  "service_name = ''snow-cli''"

definition all_credential_types :: "string list" where
  "all_credential_types = [''password'', ''api_token'', ''client_secret'', ''oauth_token'', ''cert_passphrase'',
     ''saml_token'', ''session_cookie'', ''native_session'']"

definition env_var_for :: "string \<Rightarrow> string option" where
  "env_var_for t = map_of [(''password'', ''SNOW_CLI_PASSWORD''), (''api_token'', ''SNOW_CLI_API_TOKEN''),
     (''client_secret'', ''SNOW_CLI_CLIENT_SECRET''), (''oauth_token'', ''SNOW_CLI_OAUTH_TOKEN''),
     (''session_cookie'', ''SNOW_CLI_SESSION_COOKIE'')] t"

definition credential_account :: "string \<Rightarrow> string \<Rightarrow> string \<times> string" where
  "credential_account profile t = (service_name, profile @ '':'' @ t)"

definition store_credential :: "'k keyring \<Rightarrow> string \<Rightarrow> string \<Rightarrow> string \<Rightarrow> ('k, 'u) secrets_world
   \<Rightarrow> (client_error + unit) \<times> ('k, 'u) secrets_world" where
  "store_credential kr profile t v = set_password kr (credential_account profile t) v"

text \<open>The keychain, then the environment; a keychain that fails counts as empty.\<close>

definition get_credential :: "'k keyring \<Rightarrow> string \<Rightarrow> string \<Rightarrow> ('k, 'u) secrets_world \<Rightarrow> string option" where
  "get_credential kr profile t w = (case get_password kr (credential_account profile t) w of
      Inr (Some v) \<Rightarrow> Some v
    | _ \<Rightarrow> Option.bind (env_var_for t) (kw_env w))"

definition snapshot_stored_credential :: "'k keyring \<Rightarrow> string \<Rightarrow> string \<Rightarrow> ('k, 'u) secrets_world
   \<Rightarrow> client_error + string option" where
  "snapshot_stored_credential kr profile t = get_password kr (credential_account profile t)"

definition delete_credential :: "'k keyring \<Rightarrow> string \<Rightarrow> string \<Rightarrow> ('k, 'u) secrets_world
   \<Rightarrow> (client_error + unit) \<times> ('k, 'u) secrets_world" where
  "delete_credential kr profile t = delete_password kr (credential_account profile t)"

definition restore_stored_credential :: "'k keyring \<Rightarrow> string \<Rightarrow> string \<Rightarrow> string option \<Rightarrow> ('k, 'u) secrets_world
   \<Rightarrow> (client_error + unit) \<times> ('k, 'u) secrets_world" where
  "restore_stored_credential kr profile t v = (case v of
      Some secret \<Rightarrow> set_password kr (credential_account profile t) secret
    | None \<Rightarrow> delete_password kr (credential_account profile t))"

definition has_credential :: "'k keyring \<Rightarrow> string \<Rightarrow> string \<Rightarrow> ('k, 'u) secrets_world \<Rightarrow> bool" where
  "has_credential kr profile t w \<longleftrightarrow> get_credential kr profile t w \<noteq> None"

definition credential_type_for_auth :: "auth_method \<Rightarrow> string" where
  "credential_type_for_auth m = (case m of Basic \<Rightarrow> ''password'' | NativeSession \<Rightarrow> ''native_session''
    | Oauth2 \<Rightarrow> ''client_secret'' | ApiKey \<Rightarrow> ''api_token'' | Mtls \<Rightarrow> ''cert_passphrase''
    | BrowserSession \<Rightarrow> ''session_cookie'')"

subsection \<open>Native sessions\<close>

definition header_value_ok :: "string \<Rightarrow> bool" where
  "header_value_ok v \<longleftrightarrow> list_all (\<lambda>c. byte_of c = 9 \<or> (32 \<le> byte_of c \<and> byte_of c \<noteq> 127)) v"

text \<open>\<open>Url::parse(a)?.origin() == Url::parse(b)?.origin()\<close>; opaque origins are never equal.\<close>

definition equal_origins :: "url_lib \<Rightarrow> string \<Rightarrow> string \<Rightarrow> bool option" where
  "equal_origins ul a b = Option.bind (parse_url ul a) (\<lambda>x. Option.bind (parse_url ul b) (\<lambda>y.
     Some (url_origin x = url_origin y \<and> url_origin x \<noteq> None)))"

definition ensure_session_instance :: "url_lib \<Rightarrow> native_session \<Rightarrow> string \<Rightarrow> client_error + unit" where
  "ensure_session_instance ul session i = (case equal_origins ul (ns_instance session) i of
      Some True \<Rightarrow> Inr ()
    | Some False \<Rightarrow> Inl (Failed ''native session belongs to a different instance'')
    | None \<Rightarrow> Inl (Failed ''invalid URL''))"

definition native_headers :: "native_session \<Rightarrow> client_error + headers" where
  "native_headers session =
     (if ns_cookie_header session = [] then Inl (Failed ''native session has no cookies'')
      else if \<not> header_value_ok (ns_cookie_header session) then Inl (Failed ''invalid header value'')
      else if ns_csrf_token session = [] then Inr [(''cookie'', ns_cookie_header session)]
      else if \<not> header_value_ok (ns_csrf_token session) then Inl (Failed ''invalid header value'')
      else Inr [(''cookie'', ns_cookie_header session), (''x-usertoken'', ns_csrf_token session)])"

definition merge_response_cookies :: "(string \<Rightarrow> bool option) \<Rightarrow> headers \<Rightarrow> native_session \<Rightarrow> native_session" where
  "merge_response_cookies expired hs session =
     session\<lparr>ns_cookie_header := merge_cookie_header expired (ns_cookie_header session) hs\<rparr>"

text \<open>serde's codec of a session is an argument.\<close>

definition load_native_session :: "'k keyring \<Rightarrow> (string \<Rightarrow> native_session option) \<Rightarrow> string \<Rightarrow> ('k, 'u) secrets_world
   \<Rightarrow> client_error + native_session" where
  "load_native_session kr decode profile w = (case snapshot_stored_credential kr profile ''native_session'' w of
      Inl e \<Rightarrow> Inl e
    | Inr None \<Rightarrow> Inl (Failed ''no native session stored'')
    | Inr (Some secret) \<Rightarrow> (case decode secret of
        Some session \<Rightarrow> Inr session | None \<Rightarrow> Inl (Failed ''stored native session is invalid'')))"

definition save_native_session :: "'k keyring \<Rightarrow> (native_session \<Rightarrow> string) \<Rightarrow> string \<Rightarrow> native_session \<Rightarrow> ('k, 'u) secrets_world
   \<Rightarrow> (client_error + unit) \<times> ('k, 'u) secrets_world" where
  "save_native_session kr encode profile session = store_credential kr profile ''native_session'' (encode session)"

definition forget_native_session :: "'k keyring \<Rightarrow> string \<Rightarrow> ('k, 'u) secrets_world
   \<Rightarrow> (client_error + unit) \<times> ('k, 'u) secrets_world" where
  "forget_native_session kr profile = restore_stored_credential kr profile ''native_session'' None"

end
