(* ===== verification/Profiles.thy ===== *)
theory Profiles
  imports Keychain
begin

text \<open>
  Profiles: \<open>src/src/config/profile.rs\<close>, the checks of \<open>src/src/auth/mod.rs\<close> and the choice of the
  instance in \<open>src/src/client/mod.rs\<close>. The configuration is a map from names; the order its keys
  are iterated in is the argument \<open>iter\<close>. The \<open>url\<close> crate is the argument \<open>ul\<close>.
\<close>

datatype oauth_grant_type = ClientCredentials | PasswordGrant | AuthorizationCode

record profile =
  pr_instance :: string
  pr_auth_method :: auth_method
  pr_username :: "string option"
  pr_client_id :: "string option"
  pr_oauth_grant_type :: "oauth_grant_type option"
  pr_oauth_scope :: "string option"
  pr_oauth_redirect_host :: "string option"
  pr_oauth_redirect_port :: "nat option"
  pr_oauth_redirect_path :: "string option"
  pr_cert_path :: "string option"
  pr_key_path :: "string option"
  pr_sso_login_url :: "string option"

record app_config =
  ac_default_profile :: string
  ac_default_output :: "string option"
  ac_profiles :: "profile hash_map"

datatype config_error =
    ProfileNotFound string "string option"
  | DefaultProfileMissing
  | NoProfiles
  | DefaultProfileNotFound string "string list"
  | ConfigInvalid string
  | InvalidInstance string
  | InstanceMismatch string

definition config_error_code :: "config_error \<Rightarrow> string" where
  "config_error_code e = (case e of
      ProfileNotFound _ _ \<Rightarrow> ''PROFILE_NOT_FOUND'' | DefaultProfileMissing \<Rightarrow> ''CONFIG_NOT_FOUND''
    | NoProfiles \<Rightarrow> ''CONFIG_NOT_FOUND'' | DefaultProfileNotFound _ _ \<Rightarrow> ''PROFILE_NOT_FOUND''
    | ConfigInvalid _ \<Rightarrow> ''CONFIG_INVALID'' | InvalidInstance _ \<Rightarrow> ''INVALID_INSTANCE''
    | InstanceMismatch _ \<Rightarrow> ''INSTANCE_MISMATCH'')"

definition get_profile :: "app_config \<Rightarrow> string \<Rightarrow> profile option" where
  "get_profile cfg name = hm_get (ac_profiles cfg) name"

definition active_profile :: "app_config \<Rightarrow> string option \<Rightarrow> profile option" where
  "active_profile cfg override_name =
     get_profile cfg (case override_name of Some n \<Rightarrow> n | None \<Rightarrow> ac_default_profile cfg)"

subsection \<open>Suggestions\<close>

definition shared_prefix :: "string \<Rightarrow> string \<Rightarrow> nat" where
  "shared_prefix a b = length (takeWhile (\<lambda>(x, y). x = y) (zip a b))"

text \<open>On names of ASCII characters; \<open>chars()\<close> is bytes there.\<close>

definition profile_similarity_score :: "string \<Rightarrow> string \<Rightarrow> nat" where
  "profile_similarity_score requested candidate =
     (if requested = candidate then 1000
      else if starts_with candidate requested \<or> starts_with requested candidate then 800
      else if str_contains requested candidate \<or> str_contains candidate requested then 600
      else if 2 \<le> shared_prefix requested candidate then shared_prefix requested candidate
      else if 2 < length requested \<and> 2 < length candidate \<and> butlast requested = butlast candidate then 500
      else 0)"

definition better_candidate :: "string \<Rightarrow> string \<Rightarrow> (string \<times> nat) option \<Rightarrow> (string \<times> nat) option" where
  "better_candidate requested candidate best =
     (let score = profile_similarity_score (to_ascii_lowercase requested) (to_ascii_lowercase candidate) in
      if score = 0 then best
      else (case best of
          Some (_, best_score) \<Rightarrow> if score \<le> best_score then best else Some (candidate, score)
        | None \<Rightarrow> Some (candidate, score)))"

definition suggest_profile_name :: "(string list \<Rightarrow> string list) \<Rightarrow> app_config \<Rightarrow> string \<Rightarrow> string option" where
  "suggest_profile_name iter cfg requested =
     map_option fst (fold (better_candidate requested) (iter (hm_keys (ac_profiles cfg))) None)"

definition available_profiles :: "app_config \<Rightarrow> string list" where
  "available_profiles cfg = sort (hm_keys (ac_profiles cfg))"

definition resolve_active_profile_name :: "(string list \<Rightarrow> string list) \<Rightarrow> app_config \<Rightarrow> string option \<Rightarrow> config_error + string" where
  "resolve_active_profile_name iter cfg override_name = (case override_name of
      Some name \<Rightarrow>
        if hm_contains_key (ac_profiles cfg) name then Inr name
        else Inl (ProfileNotFound name (suggest_profile_name iter cfg name))
    | None \<Rightarrow>
        if ac_default_profile cfg = [] then Inl DefaultProfileMissing
        else if ac_profiles cfg = [] then Inl NoProfiles
        else if \<not> hm_contains_key (ac_profiles cfg) (ac_default_profile cfg)
        then Inl (DefaultProfileNotFound (ac_default_profile cfg) (available_profiles cfg))
        else Inr (ac_default_profile cfg))"

subsection \<open>Instance URLs\<close>

record instance_parts =
  ip_username :: string
  ip_password :: "string option"
  ip_path :: string
  ip_query :: "string option"
  ip_fragment :: "string option"

text \<open>\<open>parts\<close>: the components of a URL the origin leaves out, from the \<open>url\<close> crate.\<close>

definition validate_instance_url :: "url_lib \<Rightarrow> (string \<Rightarrow> instance_parts) \<Rightarrow> string \<Rightarrow> config_error + string" where
  "validate_instance_url ul parts input =
     (let trimmed = trim_end_matches (CHR ''/'') (trim input) in
      if trimmed = [] then Inl (InvalidInstance ''empty'')
      else (case parse_url ul trimmed of
          None \<Rightarrow> Inl (InvalidInstance ''invalid'')
        | Some url \<Rightarrow>
            (let p = parts trimmed in
             if pu_host url = None then Inl (InvalidInstance ''missing host'')
             else if ip_username p \<noteq> [] \<or> ip_password p \<noteq> None then Inl (InvalidInstance ''embedded credentials'')
             else if ip_path p \<noteq> [] \<and> ip_path p \<noteq> ''/'' then Inl (InvalidInstance ''path'')
             else if ip_query p \<noteq> None \<or> ip_fragment p \<noteq> None then Inl (InvalidInstance ''query or fragment'')
             else if pu_scheme url = ''https'' then Inr trimmed
             else if pu_scheme url = ''http'' then
               (if (case pu_host url of Some h \<Rightarrow> is_loopback_host h | None \<Rightarrow> False) then Inr trimmed
                else Inl (InvalidInstance ''http''))
             else Inl (InvalidInstance ''unsupported scheme''))))"

definition ensure_same_instance :: "url_lib \<Rightarrow> (string \<Rightarrow> instance_parts) \<Rightarrow> string \<Rightarrow> string \<Rightarrow> config_error + unit" where
  "ensure_same_instance ul parts profile_instance target =
     bind_result (validate_instance_url ul parts profile_instance) (\<lambda>expected.
       case equal_origins ul expected target of
         Some True \<Rightarrow> Inr () | Some False \<Rightarrow> Inl (InstanceMismatch expected) | None \<Rightarrow> Inl (InvalidInstance ''invalid''))"

text \<open>The instance a client of the profile talks to (\<open>build_client_with_timeout\<close>).\<close>

definition client_instance :: "url_lib \<Rightarrow> (string \<Rightarrow> instance_parts) \<Rightarrow> profile \<Rightarrow> string option \<Rightarrow> config_error + string" where
  "client_instance ul parts profile instance_override =
     bind_result (validate_instance_url ul parts (case instance_override of Some i \<Rightarrow> i | None \<Rightarrow> pr_instance profile)) (\<lambda>url.
       if instance_override \<noteq> None
       then bind_result (ensure_same_instance ul parts (pr_instance profile) url) (\<lambda>_. Inr url)
       else Inr url)"

subsection \<open>Required fields\<close>

definition grant_of :: "profile \<Rightarrow> oauth_grant_type" where
  "grant_of profile = (case pr_oauth_grant_type profile of Some g \<Rightarrow> g | None \<Rightarrow> ClientCredentials)"

definition validate_profile_config :: "profile \<Rightarrow> config_error + unit" where
  "validate_profile_config profile = (case pr_auth_method profile of
      Basic \<Rightarrow> if pr_username profile = None then Inl (ConfigInvalid ''username'') else Inr ()
    | Oauth2 \<Rightarrow>
        if pr_client_id profile = None then Inl (ConfigInvalid ''client_id'')
        else if grant_of profile = PasswordGrant \<and> pr_username profile = None
        then Inl (ConfigInvalid ''username'') else Inr ()
    | ApiKey \<Rightarrow> Inr ()
    | Mtls \<Rightarrow>
        if pr_cert_path profile = None then Inl (ConfigInvalid ''cert_path'')
        else if pr_key_path profile = None then Inl (ConfigInvalid ''key_path'') else Inr ()
    | NativeSession \<Rightarrow> Inr ()
    | BrowserSession \<Rightarrow> Inr ())"

subsection \<open>What they promise\<close>

text \<open>
  A validated instance is an https URL or a loopback one, with nothing but an origin; the instance
  of a client has the origin of the profile its credentials belong to.
\<close>

lemma validate_instance_url_Inr:
  assumes "validate_instance_url ul parts input = Inr i"
  shows "i = trim_end_matches (CHR ''/'') (trim input) \<and> (\<exists>url. parse_url ul i = Some url
    \<and> is_safe_authenticated_url url \<and> pu_host url \<noteq> None
    \<and> ip_username (parts i) = [] \<and> ip_password (parts i) = None \<and> ip_query (parts i) = None \<and> ip_fragment (parts i) = None
    \<and> ip_path (parts i) \<in> {[], ''/''})"
  using assms
  by (auto simp: validate_instance_url_def Let_def is_safe_authenticated_url_def split: if_splits option.splits)

lemma client_instance_origin:
  assumes "client_instance ul parts profile instance_override = Inr i"
  shows "\<exists>expected. validate_instance_url ul parts (pr_instance profile) = Inr expected
    \<and> (i = expected \<or> equal_origins ul expected i = Some True)"
proof (cases instance_override)
  case None
  then show ?thesis using assms by (auto simp: client_instance_def bind_result_Inr_iff)
next
  case (Some target)
  then obtain expected where "validate_instance_url ul parts (pr_instance profile) = Inr expected"
      "(case equal_origins ul expected i of
         Some True \<Rightarrow> Inr () | Some False \<Rightarrow> Inl (InstanceMismatch expected) | None \<Rightarrow> Inl (InvalidInstance ''invalid'')) = Inr ()"
    using assms by (auto simp: client_instance_def bind_result_Inr_iff ensure_same_instance_def)
  then show ?thesis by (auto split: option.splits bool.splits)
qed

text \<open>
  The branch for names that differ in their last character is never reached: such names share
  at least two characters, and that comes first.
\<close>

lemma butlast_shared_prefix:
  assumes "butlast a = butlast b" "a \<noteq> []" "b \<noteq> []"
  shows "length a - 1 \<le> shared_prefix a b"
proof -
  obtain xs x y where "a = xs @ [x]" "b = xs @ [y]"
    using assms by (metis append_butlast_last_id)
  moreover have "takeWhile (\<lambda>(x, y). x = y) (zip xs xs @ ys) = zip xs xs @ takeWhile (\<lambda>(x, y). x = y) ys" for ys :: "(char \<times> char) list"
    by (induction xs) auto
  ultimately show ?thesis by (simp add: shared_prefix_def)
qed

lemma typo_score_is_never_500:
  assumes "length requested < 500"
  shows "profile_similarity_score requested candidate \<noteq> 500"
proof -
  have "shared_prefix requested candidate \<le> length requested"
    unfolding shared_prefix_def by (rule order_trans [OF length_takeWhile_le]) simp
  moreover have "2 \<le> shared_prefix requested candidate"
    if "2 < length requested" "2 < length candidate" "butlast requested = butlast candidate"
    using butlast_shared_prefix [OF that(3)] that by fastforce
  ultimately show ?thesis
    using assms by (auto simp: profile_similarity_score_def)
qed

text \<open>A name that is resolved names a profile.\<close>

lemma resolved_profile_exists:
  assumes "resolve_active_profile_name iter cfg override_name = Inr name"
  shows "get_profile cfg name \<noteq> None"
  using assms
  by (auto simp: resolve_active_profile_name_def get_profile_def hm_contains_key_def split: option.splits if_splits)

end
