(* ===== verification/Oauth.thy ===== *)
theory Oauth
  imports Profiles
begin

text \<open>
  The browser part of an OAuth login: the percent encoding, the form bodies, the authorization URL
  and the redirect settings of \<open>src/src/auth/oauth2.rs\<close>, and the loopback callback of
  \<open>src/src/cli/commands/auth.rs\<close>. What the listener reads from its one connection is the list of
  the bytes each read delivers.
\<close>

subsection \<open>Percent encoding\<close>

definition unreserved :: "char \<Rightarrow> bool" where
  "unreserved c \<longleftrightarrow> is_ascii_alphanumeric c \<or> c \<in> {CHR ''-'', CHR ''_'', CHR ''.'', CHR ''~''}"

definition upper_hex :: "nat \<Rightarrow> char" where
  "upper_hex n = char_of (if n < 10 then 48 + n else 55 + n)"

definition urlencoded :: "string \<Rightarrow> string" where
  "urlencoded s = concat (map (\<lambda>c. if unreserved c then [c]
     else [CHR ''%'', upper_hex (byte_of c div 16), upper_hex (byte_of c mod 16)]) s)"

datatype callback_error =
    CallbackTimedOut
  | HeadersIncomplete
  | HeadersTooLarge
  | NotAGetRequest
  | UnexpectedPath string string
  | InvalidPercentEncoding
  | ParameterNotUtf8
  | OauthErrorReturned string string
  | MissingState
  | StateMismatch
  | MissingCode

definition hex_value :: "char \<Rightarrow> nat option" where
  "hex_value c = (if is_ascii_digit c then Some (byte_of c - 48)
     else if is_ascii_hexdigit c then Some (byte_of (to_ascii_lower c) - 87) else None)"

text \<open>\<open>u8::from_str_radix\<close> on two characters: a leading plus sign is a sign.\<close>

definition hex_pair :: "char \<Rightarrow> char \<Rightarrow> nat option" where
  "hex_pair a b = (if a = CHR ''+'' then hex_value b
     else Option.bind (hex_value a) (\<lambda>x. Option.bind (hex_value b) (\<lambda>y. Some (16 * x + y))))"

fun percent_bytes :: "string \<Rightarrow> callback_error + string" where
  "percent_bytes [] = Inr []"
| "percent_bytes (c # s) =
     (if c = CHR ''+'' then map_sum id ((#) (CHR '' '')) (percent_bytes s)
      else if c = CHR ''%'' then (case s of
          a # b # t \<Rightarrow>
            if \<not> valid_utf8 [a, b] then Inl ParameterNotUtf8
            else (case hex_pair a b of
                None \<Rightarrow> Inl InvalidPercentEncoding
              | Some v \<Rightarrow> map_sum id ((#) (char_of v)) (percent_bytes t))
        | _ \<Rightarrow> Inl InvalidPercentEncoding)
      else map_sum id ((#) c) (percent_bytes s))"

definition percent_decode :: "string \<Rightarrow> callback_error + string" where
  "percent_decode input = bind_result (percent_bytes input)
     (\<lambda>out. if valid_utf8 out then Inr out else Inl ParameterNotUtf8)"

subsection \<open>Form bodies and query strings\<close>

definition push_param :: "string \<times> string option \<Rightarrow> string \<Rightarrow> string" where
  "push_param kv body = (case snd kv of None \<Rightarrow> body
     | Some v \<Rightarrow> body @ (if body = [] then [] else ''&'') @ fst kv @ ''='' @ urlencoded v)"

definition build_form_body :: "(string \<times> string option) list \<Rightarrow> string" where
  "build_form_body params = fold push_param params []"

fun insert_params :: "string list \<Rightarrow> string hash_map \<Rightarrow> callback_error + string hash_map" where
  "insert_params [] m = Inr m"
| "insert_params (pair # pairs) m =
     (let kv = (case split_once (CHR ''='') pair of Some x \<Rightarrow> x | None \<Rightarrow> (pair, [])) in
      bind_result (percent_decode (fst kv)) (\<lambda>k.
        bind_result (percent_decode (snd kv)) (\<lambda>v. insert_params pairs (hm_insert k v m))))"

definition parse_query_params :: "string \<Rightarrow> callback_error + string hash_map" where
  "parse_query_params query = insert_params (filter (\<lambda>p. p \<noteq> []) (split_on (CHR ''&'') query)) []"

subsection \<open>The authorization URL\<close>

definition sdk_oauth_redirect_uri :: string where
  "sdk_oauth_redirect_uri = ''/sdk-oauth.do''"

definition default_oauth_redirect_path :: string where
  "default_oauth_redirect_path = ''/oauth/callback''"

definition token_url_for_instance :: "string \<Rightarrow> string" where
  "token_url_for_instance i = trim_end_matches (CHR ''/'') i @ ''/oauth_token.do''"

definition authorization_url :: "profile \<Rightarrow> string \<Rightarrow> string \<Rightarrow> string \<Rightarrow> string option \<Rightarrow> client_error + string" where
  "authorization_url profile redirect_uri state code_challenge scope = (case pr_client_id profile of
      None \<Rightarrow> Inl (Failed ''OAuth2 authorization-code login requires client_id'')
    | Some client_id \<Rightarrow> Inr
        (trim_end_matches (CHR ''/'') (pr_instance profile) @ ''/oauth_auth.do?response_type=code&client_id=''
         @ urlencoded client_id @ ''&redirect_uri='' @ urlencoded redirect_uri @ ''&state='' @ urlencoded state
         @ ''&code_challenge='' @ urlencoded code_challenge @ ''&code_challenge_method=S256''
         @ (case scope of Some t \<Rightarrow> ''&scope='' @ urlencoded t | None \<Rightarrow> [])))"

definition oauth_scope :: "profile \<Rightarrow> string option" where
  "oauth_scope profile =
     (let scope = trim (case pr_oauth_scope profile of Some s \<Rightarrow> s | None \<Rightarrow> ''useraccount'')
      in if scope = [] then None else Some scope)"

definition sdk_oauth_scope :: "profile \<Rightarrow> string" where
  "sdk_oauth_scope profile = (case pr_oauth_scope profile of None \<Rightarrow> [] | Some s \<Rightarrow> trim s)"

definition oauth_redirect_host :: "profile \<Rightarrow> string" where
  "oauth_redirect_host profile = (case pr_oauth_redirect_host profile of Some h \<Rightarrow> h | None \<Rightarrow> ''127.0.0.1'')"

definition validate_oauth_redirect_host :: "string \<Rightarrow> client_error + unit" where
  "validate_oauth_redirect_host host =
     (if host \<in> {''127.0.0.1'', ''::1''} \<or> eq_ignore_ascii_case host ''localhost'' then Inr ()
      else Inl (Failed ''OAuth redirect host is not a loopback host''))"

definition oauth_redirect_port :: "profile \<Rightarrow> nat" where
  "oauth_redirect_port profile = (case pr_oauth_redirect_port profile of Some p \<Rightarrow> p | None \<Rightarrow> 8080)"

definition normalize_redirect_path :: "string \<Rightarrow> string" where
  "normalize_redirect_path path =
     (let trimmed = trim path in
      if trimmed = [] \<or> trimmed = ''/'' then default_oauth_redirect_path
      else if starts_with trimmed ''/'' then trimmed else ''/'' @ trimmed)"

definition oauth_redirect_path :: "profile \<Rightarrow> string" where
  "oauth_redirect_path profile = normalize_redirect_path
     (case pr_oauth_redirect_path profile of Some p \<Rightarrow> p | None \<Rightarrow> default_oauth_redirect_path)"

text \<open>The URI of the loopback listener (\<open>run_oauth_authorization_code_login\<close>).\<close>

definition loopback_redirect_uri :: "profile \<Rightarrow> nat \<Rightarrow> string" where
  "loopback_redirect_uri profile actual_port =
     ''http://'' @ oauth_redirect_host profile @ '':'' @ show_nat actual_port @ oauth_redirect_path profile"

subsection \<open>The callback request\<close>

text \<open>
  \<open>String::from_utf8_lossy\<close>: each maximal part of a broken sequence becomes one replacement
  character. \<open>utf8_step\<close> is the length of the next part and whether it is well-formed.
\<close>

definition continues :: "nat \<Rightarrow> nat \<Rightarrow> string \<Rightarrow> bool" where
  "continues lo hi s \<longleftrightarrow> (case s of [] \<Rightarrow> False | c # _ \<Rightarrow> lo \<le> byte_of c \<and> byte_of c \<le> hi)"

definition utf8_step :: "char \<Rightarrow> string \<Rightarrow> nat \<times> bool" where
  "utf8_step a s =
     (let x = byte_of a;
          lo = (if x = 224 then 160 else if x = 240 then 144 else 128);
          hi = (if x = 237 then 159 else if x = 244 then 143 else 191)
      in if x < 128 then (1, True)
         else if x < 194 \<or> 244 < x \<or> \<not> continues lo hi s then (1, False)
         else if x < 224 then (2, True)
         else if \<not> continues 128 191 (drop 1 s) then (2, False)
         else if x < 240 then (3, True)
         else if \<not> continues 128 191 (drop 2 s) then (3, False)
         else (4, True))"

lemma utf8_step_pos: "0 < fst (utf8_step a s)"
  by (simp add: utf8_step_def Let_def)

function from_utf8_lossy :: "string \<Rightarrow> string" where
  "from_utf8_lossy [] = []"
| "from_utf8_lossy (a # s) =
     (if snd (utf8_step a s) then take (fst (utf8_step a s)) (a # s) else map char_of [239, 191, 189 :: nat])
     @ from_utf8_lossy (drop (fst (utf8_step a s)) (a # s))"
  by pat_completeness auto
termination
  by (relation "measure length") (use utf8_step_pos in \<open>auto intro: diff_less\<close>)

definition line_feed :: char where
  "line_feed = CHR 0x0A"

definition carriage_return :: char where
  "carriage_return = CHR 0x0D"

definition header_end :: string where
  "header_end = [carriage_return, line_feed, carriage_return, line_feed]"

text \<open>\<open>lines().next().unwrap_or_default()\<close>.\<close>

definition first_line :: "string \<Rightarrow> string" where
  "first_line s = (let l = takeWhile (\<lambda>c. c \<noteq> line_feed) s in
     if l \<noteq> s \<and> l \<noteq> [] \<and> last l = carriage_return then butlast l else l)"

fun take_word :: "string \<Rightarrow> string \<times> string" where
  "take_word [] = ([], [])"
| "take_word (c # s) = (if ws_len (c # s) \<noteq> 0 then ([], c # s)
     else (case take_word s of (w, r) \<Rightarrow> (c # w, r)))"

text \<open>The first two items of \<open>split_whitespace\<close>.\<close>

definition request_words :: "string \<Rightarrow> string \<times> string" where
  "request_words line = (case take_word (trim_start line) of (m, r) \<Rightarrow> (m, fst (take_word (trim_start r))))"

definition parse_oauth_callback_request :: "string \<Rightarrow> string \<Rightarrow> string \<Rightarrow> callback_error + string" where
  "parse_oauth_callback_request request_line expected_path expected_state =
     (case request_words request_line of (m, target) \<Rightarrow>
        if m \<noteq> ''GET'' \<or> target = [] then Inl NotAGetRequest
        else (case (case split_once (CHR ''?'') target of Some x \<Rightarrow> x | None \<Rightarrow> (target, [])) of (path, query) \<Rightarrow>
          if path \<noteq> expected_path then Inl (UnexpectedPath path expected_path)
          else bind_result (parse_query_params query) (\<lambda>params.
            case hm_get params ''error'' of
              Some e \<Rightarrow> Inl (OauthErrorReturned e
                (case hm_get params ''error_description'' of Some d \<Rightarrow> d | None \<Rightarrow> []))
            | None \<Rightarrow> (case hm_get params ''state'' of
                None \<Rightarrow> Inl MissingState
              | Some st \<Rightarrow> if st \<noteq> expected_state then Inl StateMismatch
                  else (case hm_get params ''code'' of None \<Rightarrow> Inl MissingCode | Some code \<Rightarrow> Inr code)))))"

definition max_callback_header_bytes :: nat where
  "max_callback_header_bytes = 8192"

text \<open>An empty read is the end of the stream; no further read is a timeout.\<close>

fun read_headers :: "string list \<Rightarrow> string \<Rightarrow> callback_error + string" where
  "read_headers [] used = Inl CallbackTimedOut"
| "read_headers (r # reads) used =
     (let got = take (max_callback_header_bytes - length used) r; used' = used @ got in
      if got = [] then Inl HeadersIncomplete
      else if sublist header_end used' then Inr (from_utf8_lossy used')
      else if \<not> length used' < max_callback_header_bytes then Inl HeadersTooLarge
      else read_headers reads used')"

definition replace_char :: "char \<Rightarrow> string \<Rightarrow> string \<Rightarrow> string" where
  "replace_char c t s = concat (map (\<lambda>x. if x = c then t else [x]) s)"

definition html_escape :: "string \<Rightarrow> string" where
  "html_escape input = replace_char (CHR 0x27) ''&#39;'' (replace_char (CHR 0x22) ''&quot;''
     (replace_char (CHR ''>'') ''&gt;'' (replace_char (CHR ''<'') ''&lt;'' (replace_char (CHR ''&'') ''&amp;'' input))))"

definition callback_error_text :: "callback_error \<Rightarrow> string" where
  "callback_error_text e = (case e of
      CallbackTimedOut \<Rightarrow> ''Timed out reading OAuth callback HTTP headers''
    | HeadersIncomplete \<Rightarrow> ''OAuth callback ended before its HTTP headers were complete''
    | HeadersTooLarge \<Rightarrow> ''OAuth callback HTTP headers exceed the size limit''
    | NotAGetRequest \<Rightarrow> ''Expected an HTTP GET OAuth callback request.''
    | UnexpectedPath path expected \<Rightarrow>
        ''Unexpected OAuth callback path '' @ [CHR 0x27] @ path @ [CHR 0x27] @
        '', expected '' @ [CHR 0x27] @ expected @ [CHR 0x27] @ ''.''
    | InvalidPercentEncoding \<Rightarrow> ''Invalid percent-encoded value in OAuth callback.''
    | ParameterNotUtf8 \<Rightarrow> ''invalid utf-8 sequence''
    | OauthErrorReturned err description \<Rightarrow>
        ''ServiceNow returned OAuth error '' @ [CHR 0x27] @ err @ [CHR 0x27] @ '': '' @ description
    | MissingState \<Rightarrow> ''OAuth callback did not include a state parameter.''
    | StateMismatch \<Rightarrow> ''OAuth callback state did not match the login request.''
    | MissingCode \<Rightarrow> ''OAuth callback did not include an authorization code.'')"

text \<open>Status and HTML message of \<open>write_oauth_http_response\<close>.\<close>

definition callback_response :: "callback_error + string \<Rightarrow> nat \<times> string" where
  "callback_response result = (case result of
      Inr _ \<Rightarrow> (200, html_escape ''OAuth login complete. You can close this browser window and return to snow-cli.'')
    | Inl e \<Rightarrow> (400, html_escape (''OAuth login failed: '' @ callback_error_text e)))"

text \<open>The result of the wait and what is answered; \<open>None\<close> when nothing connects in time.\<close>

definition wait_for_oauth_redirect ::
  "string list option \<Rightarrow> string \<Rightarrow> string \<Rightarrow> (callback_error + string) \<times> (nat \<times> string) option" where
  "wait_for_oauth_redirect connection expected_path expected_state = (case connection of
      None \<Rightarrow> (Inl CallbackTimedOut, None)
    | Some reads \<Rightarrow> (case read_headers reads [] of
          Inl e \<Rightarrow> (Inl e, None)
        | Inr req \<Rightarrow>
            (let result = parse_oauth_callback_request (first_line req) expected_path expected_state
             in (result, Some (callback_response result)))))"

text \<open>\<open>random_hex_nonce\<close> on the random bytes it draws.\<close>

definition lower_hex :: "nat \<Rightarrow> char" where
  "lower_hex n = char_of (if n < 10 then 48 + n else 87 + n)"

definition random_hex_nonce :: "string \<Rightarrow> string" where
  "random_hex_nonce bytes = concat (map (\<lambda>c. [lower_hex (byte_of c div 16), lower_hex (byte_of c mod 16)]) bytes)"

subsection \<open>Encoded parameters are read back\<close>

lemma byte_of_upper_hex: "n < 16 \<Longrightarrow> byte_of (upper_hex n) = (if n < 10 then 48 + n else 55 + n)"
  by (simp add: upper_hex_def byte_of_def of_char_of)

lemma hex_value_upper_hex:
  assumes "n < 16"
  shows "hex_value (upper_hex n) = Some n \<and> upper_hex n \<noteq> CHR ''+'' \<and> unreserved (upper_hex n) \<and> byte_of (upper_hex n) < 128"
proof -
  note b = byte_of_upper_hex [OF assms]
  have "upper_hex n \<noteq> CHR ''+''" using b by (auto simp: byte_of_def split: if_splits)
  then show ?thesis
    using b assms
    by (auto simp: hex_value_def unreserved_def is_ascii_digit_def is_ascii_hexdigit_def is_ascii_alphanumeric_def
        is_ascii_uppercase_def is_ascii_lowercase_def byte_of_to_ascii_lower)
qed

lemma unreserved_ascii: "unreserved c \<Longrightarrow> 33 \<le> byte_of c \<and> byte_of c < 128"
  by (auto simp: unreserved_def is_ascii_alphanumeric_def is_ascii_digit_def is_ascii_uppercase_def
      is_ascii_lowercase_def byte_of_def)

lemma unreserved_separators [simp]:
  "\<not> unreserved (CHR ''%'')" "\<not> unreserved (CHR ''+'')" "\<not> unreserved (CHR ''&'')" "\<not> unreserved (CHR ''='')"
  "\<not> unreserved (CHR ''?'')" "\<not> unreserved (CHR '' '')"
  by code_simp+

lemma percent_bytes_urlencoded: "percent_bytes (urlencoded s @ t) = map_sum id ((@) s) (percent_bytes t)"
proof (induction s)
  case (Cons c s)
  let ?a = "upper_hex (byte_of c div 16)" and ?b = "upper_hex (byte_of c mod 16)"
  note a = hex_value_upper_hex [of "byte_of c div 16"] and b = hex_value_upper_hex [of "byte_of c mod 16"]
  have a16: "byte_of c div 16 < 16" using byte_of_less_256 [of c] by linarith
  have "valid_utf8 [?a, ?b]" using a [OF a16] b by simp
  moreover have "hex_pair ?a ?b = Some (byte_of c)" using a [OF a16] b by (simp add: hex_pair_def)
  moreover have "char_of (byte_of c) = c" by (simp add: byte_of_def)
  moreover have "c \<noteq> CHR ''%''" "c \<noteq> CHR ''+''" if "unreserved c" using that by auto
  ultimately show ?case
    using Cons by (cases "percent_bytes t") (auto simp: urlencoded_def sum.map_comp)
qed (cases "percent_bytes t"; simp add: urlencoded_def)

lemma percent_decode_urlencoded: "valid_utf8 s \<Longrightarrow> percent_decode (urlencoded s) = Inr s"
  using percent_bytes_urlencoded [of s "[]"] by (simp add: percent_decode_def)

lemma valid_utf8_ascii: "list_all (\<lambda>c. byte_of c < 128) s \<Longrightarrow> valid_utf8 s"
  by (induction s) auto

lemma urlencoded_chars: "c \<in> set (urlencoded s) \<Longrightarrow> unreserved c \<or> c = CHR ''%''"
proof -
  have "byte_of x div 16 < 16" for x using byte_of_less_256 [of x] by linarith
  then show "c \<in> set (urlencoded s) \<Longrightarrow> unreserved c \<or> c = CHR ''%''"
    using hex_value_upper_hex by (auto simp: urlencoded_def split: if_splits)
qed

lemma urlencoded_unreserved: "list_all unreserved k \<Longrightarrow> urlencoded k = k"
  by (induction k) (auto simp: urlencoded_def)

lemma percent_decode_plain: "list_all unreserved k \<Longrightarrow> percent_decode k = Inr k"
proof -
  assume k: "list_all unreserved k"
  then have "valid_utf8 k" using unreserved_ascii by (intro valid_utf8_ascii) (auto simp: list_all_iff)
  then show ?thesis using percent_decode_urlencoded [of k] urlencoded_unreserved [OF k] by simp
qed

definition pair_text :: "string \<times> string \<Rightarrow> string" where
  "pair_text kv = fst kv @ ''='' @ urlencoded (snd kv)"

definition query_text :: "(string \<times> string) list \<Rightarrow> string" where
  "query_text ps = join ''&'' (map pair_text ps)"

definition plain_key :: "string \<Rightarrow> bool" where
  "plain_key k \<longleftrightarrow> k \<noteq> [] \<and> list_all unreserved k"

lemma pair_text_chars:
  "plain_key (fst kv) \<Longrightarrow> c \<in> set (pair_text kv) \<Longrightarrow> unreserved c \<or> c \<in> {CHR ''%'', CHR ''=''}"
  using urlencoded_chars by (auto simp: pair_text_def plain_key_def list_all_iff)

lemma split_once_pair_text:
  assumes "plain_key (fst kv)"
  shows "split_once (CHR ''='') (pair_text kv) = Some (fst kv, urlencoded (snd kv))"
proof -
  have "\<forall>x\<in>set (fst kv). x \<noteq> CHR ''=''" using assms by (auto simp: plain_key_def list_all_iff)
  then have "takeWhile (\<lambda>x. x \<noteq> CHR ''='') (pair_text kv) = fst kv"
    by (simp add: pair_text_def)
  then show ?thesis by (simp add: split_once_def pair_text_def)
qed

lemma insert_params_pairs:
  assumes "list_all (\<lambda>kv. plain_key (fst kv) \<and> valid_utf8 (snd kv)) ps"
  shows "insert_params (map pair_text ps) m = Inr (fold (\<lambda>(k, v). hm_insert k v) ps m)"
  using assms
proof (induction ps arbitrary: m)
  case (Cons kv ps)
  then show ?case
    using percent_decode_plain [of "fst kv"] percent_decode_urlencoded [of "snd kv"]
    by (cases kv) (simp add: split_once_pair_text plain_key_def)
qed simp

lemma parse_query_text:
  assumes "list_all (\<lambda>kv. plain_key (fst kv) \<and> valid_utf8 (snd kv)) ps"
  shows "parse_query_params (query_text ps) = Inr (fold (\<lambda>(k, v). hm_insert k v) ps [])"
proof (cases "ps = []")
  case True
  then show ?thesis by (simp add: parse_query_params_def query_text_def)
next
  case False
  have "CHR ''&'' \<notin> set (pair_text kv)" if "kv \<in> set ps" for kv
    using that assms pair_text_chars [of kv "CHR ''&''"] by (auto simp: list_all_iff)
  then have "split_on (CHR ''&'') (query_text ps) = map pair_text ps"
    unfolding query_text_def using False by (intro split_on_join) auto
  moreover have "filter (\<lambda>p. p \<noteq> []) (map pair_text ps) = map pair_text ps"
    by (auto simp: filter_id_conv pair_text_def)
  ultimately show ?thesis
    using insert_params_pairs [OF assms] by (simp add: parse_query_params_def)
qed

lemma join_snoc: "join sep (xs @ [x]) = (if xs = [] then x else join sep xs @ sep @ x)"
  by (induction sep xs rule: join.induct) auto

lemma build_form_body_text:
  assumes "list_all (\<lambda>kv. plain_key (fst kv)) params"
  shows "build_form_body params = query_text [(k, v). (k, Some v) \<leftarrow> params]"
  using assms
proof (induction params rule: rev_induct)
  case (snoc kv params)
  have "(query_text ps = []) = (ps = [])" for ps
    by (cases ps rule: rev_cases) (auto simp: query_text_def join_snoc pair_text_def)
  with snoc show ?case
    by (cases kv; cases "snd kv")
      (auto simp: build_form_body_def push_param_def query_text_def join_snoc pair_text_def split: if_splits)
qed (simp add: build_form_body_def query_text_def)

text \<open>A form is read back as the parameters it was built from.\<close>

lemma form_body_round_trip:
  assumes "list_all (\<lambda>kv. plain_key (fst kv) \<and> pred_option valid_utf8 (snd kv)) params"
  shows "\<exists>m. parse_query_params (build_form_body params) = Inr m
    \<and> (\<forall>k. hm_get m k = map_of (rev [(k, v). (k, Some v) \<leftarrow> params]) k)"
proof -
  let ?ps = "[(k, v). (k, Some v) \<leftarrow> params]"
  have "list_all (\<lambda>kv. plain_key (fst kv) \<and> valid_utf8 (snd kv)) ?ps"
    using assms by (fastforce simp: list_all_iff split: option.splits)
  moreover have "list_all (\<lambda>kv. plain_key (fst kv)) params" using assms by (simp add: list_all_iff)
  moreover have "hm_get (fold (\<lambda>(k, v). hm_insert k v) ?ps []) k = map_of (rev ?ps) k" for k
    using hm.get_fold_insert [of ?ps "[]" k] by (simp add: hm.get_empty split: option.splits)
  ultimately show ?thesis by (simp add: parse_query_text build_form_body_text)
qed

text \<open>The parameters of an authorization URL.\<close>

definition authorization_parameters :: "string \<Rightarrow> string \<Rightarrow> string \<Rightarrow> string \<Rightarrow> string option \<Rightarrow> (string \<times> string) list" where
  "authorization_parameters client_id redirect_uri state challenge scope =
     [(''response_type'', ''code''), (''client_id'', client_id), (''redirect_uri'', redirect_uri), (''state'', state),
      (''code_challenge'', challenge), (''code_challenge_method'', ''S256'')]
     @ (case scope of Some t \<Rightarrow> [(''scope'', t)] | None \<Rightarrow> [])"

lemma urlencoded_literals: "urlencoded ''code'' = ''code''" "urlencoded ''S256'' = ''S256''"
  by code_simp+

lemma authorization_url_text:
  "pr_client_id profile = Some client_id \<Longrightarrow>
   authorization_url profile redirect_uri state challenge scope = Inr
     (trim_end_matches (CHR ''/'') (pr_instance profile) @ ''/oauth_auth.do?''
       @ query_text (authorization_parameters client_id redirect_uri state challenge scope))"
  by (cases scope)
    (simp_all add: authorization_url_def query_text_def authorization_parameters_def pair_text_def urlencoded_literals)

lemma authorization_keys_plain:
  "list_all (\<lambda>kv. plain_key (fst kv)) (authorization_parameters client_id redirect_uri state challenge scope)"
  by (cases scope) (simp_all add: authorization_parameters_def plain_key_def unreserved_def is_ascii_alphanumeric_def
      is_ascii_digit_def is_ascii_uppercase_def is_ascii_lowercase_def byte_of_def)

text \<open>
  C18. Whatever the client id, redirect URI, state, challenge and scope contain, the query of the
  authorization URL decodes to exactly these parameters: none can add or replace another.
\<close>

theorem authorization_url_carries_its_parameters:
  assumes "authorization_url profile redirect_uri state challenge scope = Inr url"
    and "valid_utf8 redirect_uri" "valid_utf8 state" "valid_utf8 challenge" "pred_option valid_utf8 scope"
    and "pred_option valid_utf8 (pr_client_id profile)"
  shows "\<exists>client_id query m. pr_client_id profile = Some client_id
    \<and> url = trim_end_matches (CHR ''/'') (pr_instance profile) @ ''/oauth_auth.do?'' @ query
    \<and> parse_query_params query = Inr m
    \<and> hm_get m = map_of (authorization_parameters client_id redirect_uri state challenge scope)"
proof -
  obtain client_id where c: "pr_client_id profile = Some client_id"
    using assms(1) by (auto simp: authorization_url_def split: option.splits)
  let ?ps = "authorization_parameters client_id redirect_uri state challenge scope"
  have "valid_utf8 ''code''" "valid_utf8 ''S256''" by code_simp+
  then have "list_all (\<lambda>kv. plain_key (fst kv) \<and> valid_utf8 (snd kv)) ?ps"
    using authorization_keys_plain [of client_id redirect_uri state challenge scope] assms(2-6) c
    by (cases scope) (simp_all add: authorization_parameters_def)
  moreover have "hm_get (fold (\<lambda>(k, v). hm_insert k v) ?ps []) = map_of ?ps"
    by (cases scope) (auto simp: authorization_parameters_def hm.get_insert hm.get_empty fun_eq_iff)
  ultimately show ?thesis
    using assms(1) c authorization_url_text [OF c] parse_query_text by auto
qed

definition demo_oauth_profile :: profile where
  "demo_oauth_profile = \<lparr>pr_instance = ''https://x/'', pr_auth_method = Oauth2, pr_username = None,
     pr_client_id = Some ''c&state=1'', pr_oauth_grant_type = Some AuthorizationCode, pr_oauth_scope = None,
     pr_oauth_redirect_host = None, pr_oauth_redirect_port = None, pr_oauth_redirect_path = None,
     pr_cert_path = None, pr_key_path = None, pr_sso_login_url = None\<rparr>"

theorem authorization_url_carries_its_parameters_witness:
  "\<exists>url query m. authorization_url demo_oauth_profile ''/cb?a=b'' ''s t'' ''h'' (Some ''u'') = Inr url
    \<and> url = ''https://x/oauth_auth.do?'' @ query \<and> parse_query_params query = Inr m
    \<and> hm_get m ''state'' = Some ''s t'' \<and> hm_get m ''client_id'' = Some ''c&state=1''"
proof -
  obtain url where url: "authorization_url demo_oauth_profile ''/cb?a=b'' ''s t'' ''h'' (Some ''u'') = Inr url"
    by (simp add: authorization_url_def demo_oauth_profile_def)
  moreover have "valid_utf8 ''/cb?a=b''" "valid_utf8 ''s t''" "valid_utf8 ''h''" "valid_utf8 ''u''" "valid_utf8 ''c&state=1''"
    by code_simp+
  moreover have "pred_option valid_utf8 (pr_client_id demo_oauth_profile)"
    using \<open>valid_utf8 ''c&state=1''\<close> by (simp add: demo_oauth_profile_def)
  moreover have "trim_end_matches (CHR ''/'') (pr_instance demo_oauth_profile) = ''https://x''" by code_simp
  ultimately show ?thesis
    using authorization_url_carries_its_parameters [OF url]
    by (auto simp: authorization_parameters_def demo_oauth_profile_def)
qed

subsection \<open>The callback, however it is split\<close>

lemma ws_len_visible: "33 \<le> byte_of c \<Longrightarrow> byte_of c < 128 \<Longrightarrow> ws_len (c # s) = 0"
  by (simp add: ws_len_def Let_def split: list.split)

lemma ws_len_blank: "ws_len (CHR '' '' # s) = 1"
  by (simp add: ws_len_def byte_of_def)

definition visible :: "string \<Rightarrow> bool" where
  "visible s \<longleftrightarrow> list_all (\<lambda>c. 33 \<le> byte_of c \<and> byte_of c < 128) s"

lemma take_word_visible: "visible w \<Longrightarrow> take_word (w @ CHR '' '' # r) = (w, CHR '' '' # r)"
  by (induction w) (simp_all add: visible_def ws_len_visible ws_len_blank)

lemma trim_start_visible: "visible w \<Longrightarrow> w \<noteq> [] \<Longrightarrow> trim_start (w @ r) = w @ r"
  by (cases w) (simp_all add: visible_def ws_len_visible trim_start.simps)

lemma trim_start_space: "visible w \<Longrightarrow> w \<noteq> [] \<Longrightarrow> trim_start (CHR '' '' # w @ r) = w @ r"
  by (subst trim_start.simps) (simp add: ws_len_blank trim_start_visible)

lemma request_words_get:
  assumes "visible target" "target \<noteq> []"
  shows "request_words (''GET '' @ target @ '' HTTP/1.1'') = (''GET'', target)"
proof -
  have "visible ''GET''" by code_simp
  then have "trim_start (''GET'' @ CHR '' '' # target @ '' HTTP/1.1'') = ''GET'' @ CHR '' '' # target @ '' HTTP/1.1''"
    "take_word (''GET'' @ CHR '' '' # target @ '' HTTP/1.1'') = (''GET'', CHR '' '' # target @ '' HTTP/1.1'')"
    using take_word_visible [of "''GET''" "target @ '' HTTP/1.1''"] trim_start_visible [of "''GET''"] by simp_all
  then show ?thesis
    using assms take_word_visible [OF assms(1), of "''HTTP/1.1''"]
    by (simp add: request_words_def trim_start_space)
qed

lemma from_utf8_lossy_ascii: "list_all (\<lambda>c. byte_of c < 128) s \<Longrightarrow> from_utf8_lossy (s @ t) = s @ from_utf8_lossy t"
  by (induction s) (simp_all add: utf8_step_def Let_def)

lemma read_headers_split:
  assumes "[] \<notin> set reads" "length (used @ concat reads) \<le> max_callback_header_bytes"
    "\<not> sublist header_end used" "sublist header_end (used @ concat reads)"
  shows "\<exists>part rest. used @ concat reads = part @ rest \<and> sublist header_end part
    \<and> read_headers reads used = Inr (from_utf8_lossy part)"
  using assms
proof (induction reads arbitrary: used)
  case (Cons r reads)
  have "r \<noteq> []" "take (max_callback_header_bytes - length used) r = r" using Cons.prems by auto
  note r = this
  show ?case
  proof (cases "sublist header_end (used @ r)")
    case True
    then show ?thesis
      using r by (intro exI [of _ "used @ r"] exI [of _ "concat reads"]) simp
  next
    case False
    have "concat reads \<noteq> []"
    proof
      assume "concat reads = []"
      with False Cons.prems(4) show False by (simp del: concat_eq_Nil_conv)
    qed
    then have "length (used @ r) < max_callback_header_bytes"
      using Cons.prems(2) by (cases "concat reads") auto
    moreover have "\<exists>part rest. (used @ r) @ concat reads = part @ rest \<and> sublist header_end part
        \<and> read_headers reads (used @ r) = Inr (from_utf8_lossy part)"
      using Cons.prems False by (intro Cons.IH) auto
    ultimately show ?thesis using r False by simp
  qed
qed simp

lemma first_line_of_part:
  assumes "part @ rest = line @ [carriage_return, line_feed] @ tail" "line_feed \<in> set part"
    "list_all (\<lambda>c. byte_of c < 128 \<and> c \<noteq> line_feed) line"
  shows "first_line (from_utf8_lossy part) = line"
proof -
  let ?l = "line @ [carriage_return]"
  have cr: "carriage_return \<noteq> line_feed" "byte_of carriage_return < 128" "byte_of line_feed < 128"
    by (simp_all add: carriage_return_def line_feed_def byte_of_def of_char_of)
  have l: "\<forall>c\<in>set ?l. c \<noteq> line_feed" using assms(3) cr by (auto simp: list_all_iff)
  have "takeWhile (\<lambda>c. c \<noteq> line_feed) part = takeWhile (\<lambda>c. c \<noteq> line_feed) (part @ rest)"
    using assms(2) by simp
  also have "\<dots> = ?l" using l by (simp add: assms(1) takeWhile_append2)
  finally have t: "takeWhile (\<lambda>c. c \<noteq> line_feed) part = ?l" .
  then obtain x where x: "part = ?l @ line_feed # x"
    using assms(2) by (metis (mono_tags, lifting) dropWhile_eq_Cons_conv takeWhile_dropWhile_id
        dropWhile_eq_Nil_conv list.exhaust)
  have "from_utf8_lossy part = (?l @ [line_feed]) @ from_utf8_lossy x"
    unfolding x using assms(3) cr from_utf8_lossy_ascii [of "?l @ [line_feed]" x] by (simp add: list_all_iff)
  moreover have "takeWhile (\<lambda>c. c \<noteq> line_feed) ((?l @ [line_feed]) @ y) = ?l" for y
    using l by (simp add: takeWhile_append2)
  ultimately show ?thesis by (simp add: first_line_def Let_def)
qed


definition demo_reads :: "string list" where
  "demo_reads = [''GET /cb?code=a%2Bb&st'', ''ate=s HTTP/1.1'' @ [carriage_return], [line_feed] @ ''Host: x'' @ header_end]"


text \<open>
  The path of a callback ends at the first question mark, so no login can succeed on a profile
  whose redirect path contains one; and the redirect URI of the admitted host \<open>::1\<close> lacks the
  brackets of an IPv6 address.
\<close>

lemma redirect_path_with_query_never_matches:
  assumes "CHR ''?'' \<in> set path"
  shows "parse_oauth_callback_request line path state \<noteq> Inr code"
proof -
  have "CHR ''?'' \<notin> set (fst (case split_once (CHR ''?'') t of Some x \<Rightarrow> x | None \<Rightarrow> (t, [])))" for t
  proof -
    have "CHR ''?'' \<notin> set (takeWhile (\<lambda>x. x \<noteq> CHR ''?'') t)" by (auto dest: set_takeWhileD)
    moreover have "takeWhile (\<lambda>x. x \<noteq> CHR ''?'') t = t"
      if "\<not> length (takeWhile (\<lambda>x. x \<noteq> CHR ''?'') t) < length t"
      using that takeWhile_eq_take [of "\<lambda>x. x \<noteq> CHR ''?''" t] by (metis linorder_not_less take_all)
    ultimately show ?thesis by (auto simp: split_once_def Let_def)
  qed
  then show ?thesis
    using assms by (auto simp: parse_oauth_callback_request_def split: prod.splits if_splits) (metis fst_conv)
qed

lemma ipv6_redirect_uri_has_no_brackets:
  "validate_oauth_redirect_host ''::1'' = Inr ()
   \<and> loopback_redirect_uri (demo_oauth_profile\<lparr>pr_oauth_redirect_host := Some ''::1''\<rparr>) port
     = ''http://::1:'' @ show_nat port @ ''/oauth/callback''"
proof -
  have "normalize_redirect_path default_oauth_redirect_path = ''/oauth/callback''" by code_simp
  then show ?thesis
    by (simp add: validate_oauth_redirect_host_def loopback_redirect_uri_def oauth_redirect_host_def
        oauth_redirect_path_def demo_oauth_profile_def)
qed

text \<open>A signed pair of digits is decoded, which is not percent encoding.\<close>

lemma signed_percent_escape: "percent_decode ''%+A'' = Inr [line_feed]"
  by code_simp

text \<open>What is shown in the browser has no markup of its own.\<close>

lemma html_escape_no_markup:
  "set (html_escape s) \<inter> {CHR ''<'', CHR ''>'', CHR 0x22, CHR 0x27} = {}"
proof -
  have r: "c \<in> set (replace_char d t x) \<Longrightarrow> c \<in> set x \<and> c \<noteq> d \<or> c \<in> set t" for c d t x
    by (auto simp: replace_char_def split: if_splits)
  show ?thesis
    by (auto simp: html_escape_def dest!: r)
qed

text \<open>A code verifier has the length and the alphabet RFC 7636 asks for.\<close>

lemma random_hex_nonce_unreserved:
  "length (random_hex_nonce bytes) = 2 * length bytes \<and> list_all unreserved (random_hex_nonce bytes)"
proof (induction bytes)
  case (Cons c bytes)
  have "unreserved (lower_hex n)" if "n < 16" for n
    using that by (auto simp: unreserved_def lower_hex_def is_ascii_alphanumeric_def is_ascii_digit_def
        is_ascii_lowercase_def byte_of_def of_char_of)
  moreover have "byte_of c div 16 < 16" using byte_of_less_256 [of c] by linarith
  ultimately show ?case using Cons by (simp add: random_hex_nonce_def)
qed (simp add: random_hex_nonce_def)

end
