(* ===== verification/Authenticators.thy ===== *)
theory Authenticators
  imports Oauth "HOL-Library.Countable"
begin

text \<open>
  The authenticators: \<open>src/src/auth/oauth2.rs\<close>, \<open>basic.rs\<close>, \<open>api_key.rs\<close>, \<open>browser_session.rs\<close>,
  \<open>native_session.rs\<close> and their factory in \<open>mod.rs\<close>, with the token request of
  \<open>src/src/client/transport.rs\<close>. The world is the one of the credentials; its rest is the host world
  of the HTTP client, so that token requests are logged in \<open>sent\<close>. The clocks are read from what is
  outside: seconds since the epoch, and an \<open>Instant\<close> in nanoseconds. Adding a duration to an
  instant panics when its seconds leave the range of \<open>i64\<close>.
\<close>

type_synonym ('k, 'v) auth_world = "('k, 'v host_world) secrets_world"

record ('k, 'v) auth_env =
  ae_http :: "'v client_env"
  ae_keyring :: "'k keyring"
  ae_epoch :: "'v \<Rightarrow> nat"
  ae_instant :: "'v \<Rightarrow> int"
  ae_b64 :: "string \<Rightarrow> string"

definition on_network :: "('v host_world \<Rightarrow> 'r \<times> 'v host_world) \<Rightarrow> ('k, 'v) auth_world \<Rightarrow> 'r \<times> ('k, 'v) auth_world" where
  "on_network f w = (case f (kw_rest w) of (r, h) \<Rightarrow> (r, w\<lparr>kw_rest := h\<rparr>))"

definition epoch_now :: "('k, 'v) auth_env \<Rightarrow> ('k, 'v) auth_world \<Rightarrow> nat" where
  "epoch_now env w = ae_epoch env (outside (kw_rest w))"

definition instant_now :: "('k, 'v) auth_env \<Rightarrow> ('k, 'v) auth_world \<Rightarrow> int" where
  "instant_now env w = ae_instant env (outside (kw_rest w))"

subsection \<open>Tokens\<close>

record cached_token =
  ct_access_token :: string
  ct_refresh_token :: "string option"
  ct_expires_at :: int

record stored_oauth_token =
  so_access_token :: string
  so_refresh_token :: "string option"
  so_token_type :: "string option"
  so_expires_at :: "nat option"
  so_scope :: "string option"

record token_response =
  tr_access_token :: string
  tr_refresh_token :: "string option"
  tr_token_type :: "string option"
  tr_expires_in :: nat
  tr_scope :: "string option"

record token_set =
  ts_cached :: cached_token
  ts_stored :: stored_oauth_token

definition oauth_expiry_skew_secs :: nat where
  "oauth_expiry_skew_secs = 30"

definition stored_token_fallback_ttl_secs :: nat where
  "stored_token_fallback_ttl_secs = 3600"

definition seconds :: "nat \<Rightarrow> int" where
  "seconds n = int n * 1000000000"

definition instant_add :: "int \<Rightarrow> nat \<Rightarrow> client_error + int" where
  "instant_add t n = (if (t + seconds n) div 1000000000 < 2 ^ 63 then Inr (t + seconds n)
     else Inl (Panicked ''overflow when adding duration to instant''))"

definition cached_is_expired :: "int \<Rightarrow> cached_token \<Rightarrow> bool" where
  "cached_is_expired now t \<longleftrightarrow> ct_expires_at t - seconds oauth_expiry_skew_secs \<le> now"

definition stored_is_expired :: "nat \<Rightarrow> stored_oauth_token \<Rightarrow> bool" where
  "stored_is_expired now t = (case so_expires_at t of None \<Rightarrow> False
     | Some expires_at \<Rightarrow> expires_at \<le> saturating_add now 30)"

text \<open>A derived decoder that takes an array of all its fields, or an object.\<close>

definition exact_fields :: "string list \<Rightarrow> json \<Rightarrow> (string \<times> json) list option" where
  "exact_fields names v = (case v of JObject m \<Rightarrow> Some m
     | JArray vs \<Rightarrow> if length vs = length names then Some (zip names vs) else None
     | _ \<Rightarrow> None)"

definition decode_stored_token :: "json \<Rightarrow> stored_oauth_token option" where
  "decode_stored_token v =
     Option.bind (exact_fields [''access_token'', ''refresh_token'', ''token_type'', ''expires_at'', ''scope''] v) (\<lambda>m.
     Option.bind (required json_as_str ''access_token'' m) (\<lambda>a.
     Option.bind (optional json_as_str ''refresh_token'' m) (\<lambda>r.
     Option.bind (optional json_as_str ''token_type'' m) (\<lambda>t.
     Option.bind (optional json_as_u64 ''expires_at'' m) (\<lambda>e.
     Option.bind (optional json_as_str ''scope'' m) (\<lambda>s.
       Some \<lparr>so_access_token = a, so_refresh_token = r, so_token_type = t, so_expires_at = e, so_scope = s\<rparr>))))))"

definition encode_stored_token :: "stored_oauth_token \<Rightarrow> json" where
  "encode_stored_token t = JObject ([(''access_token'', JString (so_access_token t))]
     @ skip_none ''refresh_token'' JString (so_refresh_token t)
     @ skip_none ''token_type'' JString (so_token_type t)
     @ skip_none ''expires_at'' (\<lambda>n. JNumber (IntNumber (int n))) (so_expires_at t)
     @ skip_none ''scope'' JString (so_scope t))"

definition decode_token_response :: "json \<Rightarrow> token_response option" where
  "decode_token_response v =
     Option.bind (exact_fields [''access_token'', ''refresh_token'', ''token_type'', ''expires_in'', ''scope''] v) (\<lambda>m.
     Option.bind (required json_as_str ''access_token'' m) (\<lambda>a.
     Option.bind (optional json_as_str ''refresh_token'' m) (\<lambda>r.
     Option.bind (optional json_as_str ''token_type'' m) (\<lambda>t.
     Option.bind (required json_as_u64 ''expires_in'' m) (\<lambda>e.
     Option.bind (optional json_as_str ''scope'' m) (\<lambda>s.
       Some \<lparr>tr_access_token = a, tr_refresh_token = r, tr_token_type = t, tr_expires_in = e, tr_scope = s\<rparr>))))))"

definition into_token_set :: "nat \<Rightarrow> int \<Rightarrow> token_response \<Rightarrow> client_error + token_set" where
  "into_token_set epoch now r = bind_result (instant_add now (tr_expires_in r)) (\<lambda>expires_at. Inr
     \<lparr>ts_cached = \<lparr>ct_access_token = tr_access_token r, ct_refresh_token = tr_refresh_token r, ct_expires_at = expires_at\<rparr>,
      ts_stored = \<lparr>so_access_token = tr_access_token r, so_refresh_token = tr_refresh_token r, so_token_type = tr_token_type r,
        so_expires_at = Some (saturating_add epoch (tr_expires_in r)), so_scope = tr_scope r\<rparr>\<rparr>)"

definition stored_to_cached :: "nat \<Rightarrow> int \<Rightarrow> stored_oauth_token \<Rightarrow> client_error + cached_token" where
  "stored_to_cached epoch now stored =
     bind_result (case so_expires_at stored of
         Some expires_at \<Rightarrow>
           if epoch < expires_at then instant_add now (expires_at - epoch) else Inr (now - seconds 1)
       | None \<Rightarrow> instant_add now stored_token_fallback_ttl_secs)
       (\<lambda>expires_at. Inr \<lparr>ct_access_token = so_access_token stored, ct_refresh_token = so_refresh_token stored,
          ct_expires_at = expires_at\<rparr>)"

definition bearer_headers :: "string \<Rightarrow> client_error + headers" where
  "bearer_headers access_token =
     (if header_value_ok access_token then Inr [(''authorization'', ''Bearer '' @ access_token)]
      else Inl (Failed ''invalid header value''))"

subsection \<open>Token requests\<close>

definition token_request :: "string \<Rightarrow> string \<Rightarrow> http_request" where
  "token_request url body = \<lparr>rq_method = POST, rq_url = url, rq_params = [],
     rq_headers = [(''content-type'', ''application/x-www-form-urlencoded'')], rq_body = TextBody body\<rparr>"

definition buffered_external_response :: "url_lib \<Rightarrow> http_response \<Rightarrow> client_error + nat \<times> string" where
  "buffered_external_response ul response = (case parse_url ul (rs_url response) of
      None \<Rightarrow> Inl (Failed ''invalid URL'')
    | Some final_url \<Rightarrow> bind_result (validate_external_url final_url ''follow redirects'') (\<lambda>_.
        map_sum TransportFailed (Pair (rs_status response)) (rs_body response)))"

definition post_oauth_token_form :: "'v client_env \<Rightarrow> string \<Rightarrow> string \<Rightarrow> 'v host_world
   \<Rightarrow> (client_error + nat \<times> string) \<times> 'v host_world" where
  "post_oauth_token_form http url body h = (case parse_url (env_urls http) url of
      None \<Rightarrow> (Inl (Failed ''invalid URL''), h)
    | Some u \<Rightarrow> (case validate_external_url u ''request OAuth tokens'' of
        Inl e \<Rightarrow> (Inl e, h)
      | Inr _ \<Rightarrow> and_then (execute_request http True (token_request (url_text u) body) h)
          (\<lambda>response h. (buffered_external_response (env_urls http) response, h))))"

definition send_oauth_token_request :: "('k, 'v) auth_env \<Rightarrow> string \<Rightarrow> string \<Rightarrow> ('k, 'v) auth_world
   \<Rightarrow> (client_error + token_set) \<times> ('k, 'v) auth_world" where
  "send_oauth_token_request env url body w =
     and_then (on_network (post_oauth_token_form (ae_http env) url body) w) (\<lambda>(status, bytes) w.
       if \<not> (200 \<le> status \<and> status < 300)
       then (Inl (ApiFailed (from_status (env_parse_json (ae_http env)) status url (Some (from_utf8_lossy bytes)))), w)
       else (case Option.bind (env_parse_json (ae_http env) bytes) decode_token_response of
           None \<Rightarrow> (Inl (TransportFailed InvalidResponse), w)
         | Some r \<Rightarrow> (into_token_set (epoch_now env w) (instant_now env w) r, w)))"

definition exchange_authorization_code :: "('k, 'v) auth_env \<Rightarrow> profile \<Rightarrow> string \<Rightarrow> string \<Rightarrow> string option \<Rightarrow> string
   \<Rightarrow> ('k, 'v) auth_world \<Rightarrow> (client_error + stored_oauth_token) \<times> ('k, 'v) auth_world" where
  "exchange_authorization_code env profile code redirect_uri client_secret code_verifier w = (case pr_client_id profile of
      None \<Rightarrow> (Inl (Failed ''OAuth2 authorization-code login requires client_id''), w)
    | Some client_id \<Rightarrow>
        and_then (send_oauth_token_request env (token_url_for_instance (pr_instance profile))
          (build_form_body [(''grant_type'', Some ''authorization_code''), (''client_id'', Some client_id),
             (''client_secret'', client_secret), (''code'', Some code), (''redirect_uri'', Some redirect_uri),
             (''code_verifier'', Some code_verifier)]) w)
          (\<lambda>ts w. (Inr (ts_stored ts), w)))"

subsection \<open>OAuth 2.0\<close>

record oauth2_auth =
  oa_profile_name :: string
  oa_instance :: string
  oa_client_id :: string
  oa_grant_type :: oauth_grant_type
  oa_username :: "string option"
  oa_cached_token :: "cached_token option"

definition new_oauth2_auth :: "string \<Rightarrow> profile \<Rightarrow> client_error + oauth2_auth" where
  "new_oauth2_auth profile_name profile = (case pr_client_id profile of
      None \<Rightarrow> Inl (Failed ''OAuth2 auth requires client_id'')
    | Some client_id \<Rightarrow>
        if grant_of profile = PasswordGrant \<and> pr_username profile = None
        then Inl (Failed ''OAuth2 password grant requires username'')
        else Inr \<lparr>oa_profile_name = profile_name, oa_instance = pr_instance profile, oa_client_id = client_id,
               oa_grant_type = grant_of profile, oa_username = pr_username profile, oa_cached_token = None\<rparr>)"

definition build_token_request_body :: "oauth2_auth \<Rightarrow> string \<Rightarrow> string option \<Rightarrow> string" where
  "build_token_request_body a client_secret password = (case oa_grant_type a of
      ClientCredentials \<Rightarrow> build_form_body [(''grant_type'', Some ''client_credentials''),
        (''client_id'', Some (oa_client_id a)), (''client_secret'', Some client_secret)]
    | PasswordGrant \<Rightarrow> build_form_body [(''grant_type'', Some ''password''), (''client_id'', Some (oa_client_id a)),
        (''client_secret'', Some client_secret),
        (''username'', Some (case oa_username a of Some u \<Rightarrow> u | None \<Rightarrow> [])),
        (''password'', Some (case password of Some p \<Rightarrow> p | None \<Rightarrow> []))]
    | AuthorizationCode \<Rightarrow> [])"

definition build_refresh_request_body :: "string \<Rightarrow> string option \<Rightarrow> string \<Rightarrow> string" where
  "build_refresh_request_body client_id client_secret refresh_tok = build_form_body
     [(''grant_type'', Some ''refresh_token''), (''client_id'', Some client_id),
      (''client_secret'', client_secret), (''refresh_token'', Some refresh_tok)]"

definition get_required_client_secret :: "('k, 'v) auth_env \<Rightarrow> oauth2_auth \<Rightarrow> ('k, 'v) auth_world \<Rightarrow> client_error + string" where
  "get_required_client_secret env a w = (case get_credential (ae_keyring env) (oa_profile_name a) ''client_secret'' w of
      Some s \<Rightarrow> Inr s | None \<Rightarrow> Inl (Failed ''No client_secret found''))"

definition get_grant_password :: "('k, 'v) auth_env \<Rightarrow> oauth2_auth \<Rightarrow> ('k, 'v) auth_world \<Rightarrow> client_error + string option" where
  "get_grant_password env a w =
     (if oa_grant_type a \<noteq> PasswordGrant then Inr None
      else (case get_credential (ae_keyring env) (oa_profile_name a) ''password'' w of
          Some p \<Rightarrow> Inr (Some p) | None \<Rightarrow> Inl (Failed ''No password found'')))"

definition get_stored_oauth_token ::
  "('k, 'v) auth_env \<Rightarrow> oauth2_auth \<Rightarrow> ('k, 'v) auth_world \<Rightarrow> client_error + stored_oauth_token option" where
  "get_stored_oauth_token env a w = (case get_credential (ae_keyring env) (oa_profile_name a) ''oauth_token'' w of
      None \<Rightarrow> Inr None
    | Some raw \<Rightarrow> (case Option.bind (env_parse_json (ae_http env) raw) decode_stored_token of
        Some t \<Rightarrow> Inr (Some t) | None \<Rightarrow> Inl (Failed ''stored OAuth token is not valid'')))"

definition store_oauth_token :: "('k, 'v) auth_env \<Rightarrow> oauth2_auth \<Rightarrow> stored_oauth_token \<Rightarrow> ('k, 'v) auth_world
   \<Rightarrow> (client_error + unit) \<times> ('k, 'v) auth_world" where
  "store_oauth_token env a t =
     store_credential (ae_keyring env) (oa_profile_name a) ''oauth_token'' (env_print_json (ae_http env) (encode_stored_token t))"

definition oauth_token_url :: "oauth2_auth \<Rightarrow> string" where
  "oauth_token_url a = token_url_for_instance (oa_instance a)"

definition fetch_token :: "('k, 'v) auth_env \<Rightarrow> oauth2_auth \<Rightarrow> ('k, 'v) auth_world
   \<Rightarrow> (client_error + cached_token) \<times> ('k, 'v) auth_world" where
  "fetch_token env a w =
     (if oa_grant_type a = AuthorizationCode then (Inl (Failed ''No OAuth access token is stored for this profile''), w)
      else (case get_required_client_secret env a w of
          Inl e \<Rightarrow> (Inl e, w)
        | Inr client_secret \<Rightarrow> (case get_grant_password env a w of
            Inl e \<Rightarrow> (Inl e, w)
          | Inr password \<Rightarrow>
              and_then (send_oauth_token_request env (oauth_token_url a) (build_token_request_body a client_secret password) w)
                (\<lambda>ts w. (Inr (ts_cached ts), w)))))"

definition refresh_token :: "('k, 'v) auth_env \<Rightarrow> oauth2_auth \<Rightarrow> string \<Rightarrow> ('k, 'v) auth_world
   \<Rightarrow> (client_error + token_set) \<times> ('k, 'v) auth_world" where
  "refresh_token env a refresh_tok w = send_oauth_token_request env (oauth_token_url a)
     (build_refresh_request_body (oa_client_id a)
       (get_credential (ae_keyring env) (oa_profile_name a) ''client_secret'' w) refresh_tok) w"

text \<open>\<open>valid_cached_token\<close>, the token in place of its header.\<close>

definition valid_cached_token :: "('k, 'v) auth_env \<Rightarrow> oauth2_auth \<Rightarrow> ('k, 'v) auth_world \<Rightarrow> cached_token option" where
  "valid_cached_token env a w = (case oa_cached_token a of
      Some t \<Rightarrow> if cached_is_expired (instant_now env w) t then None else Some t
    | None \<Rightarrow> None)"

text \<open>The header is built before the token is kept.\<close>

definition keep_token :: "oauth2_auth \<Rightarrow> cached_token \<Rightarrow> ('k, 'v) auth_world
   \<Rightarrow> (client_error + headers) \<times> oauth2_auth \<times> ('k, 'v) auth_world" where
  "keep_token a t w = (case bearer_headers (ct_access_token t) of
      Inl e \<Rightarrow> (Inl e, a, w) | Inr hs \<Rightarrow> (Inr hs, a\<lparr>oa_cached_token := Some t\<rparr>, w))"

definition current_stored_token :: "('k, 'v) auth_env \<Rightarrow> oauth2_auth \<Rightarrow> ('k, 'v) auth_world
   \<Rightarrow> (client_error + cached_token) \<times> ('k, 'v) auth_world" where
  "current_stored_token env a w = (case get_stored_oauth_token env a w of
      Inl e \<Rightarrow> (Inl e, w)
    | Inr None \<Rightarrow> (Inl (Failed ''No OAuth token found for this profile''), w)
    | Inr (Some stored) \<Rightarrow>
        if \<not> stored_is_expired (epoch_now env w) stored
        then (stored_to_cached (epoch_now env w) (instant_now env w) stored, w)
        else (case so_refresh_token stored of
            None \<Rightarrow> (Inl (Failed ''Stored OAuth token is expired and no refresh_token is available''), w)
          | Some tok \<Rightarrow>
              and_then (refresh_token env a tok w) (\<lambda>ts w.
                and_then (store_oauth_token env a (ts_stored ts) w) (\<lambda>_ w. (Inr (ts_cached ts), w)))))"

definition oauth_authenticate :: "('k, 'v) auth_env \<Rightarrow> oauth2_auth \<Rightarrow> ('k, 'v) auth_world
   \<Rightarrow> (client_error + headers) \<times> oauth2_auth \<times> ('k, 'v) auth_world" where
  "oauth_authenticate env a w = (case valid_cached_token env a w of
      Some t \<Rightarrow> (bearer_headers (ct_access_token t), a, w)
    | None \<Rightarrow>
        (case (if oa_grant_type a = AuthorizationCode then current_stored_token env a w else fetch_token env a w) of
           (Inl e, w') \<Rightarrow> (Inl e, a, w')
         | (Inr t, w') \<Rightarrow> keep_token a t w'))"

text \<open>A refresh that fails falls back to a full request, except for authorization codes. A panic does not.\<close>

definition is_panic :: "client_error \<Rightarrow> bool" where
  "is_panic e = (case e of Panicked _ \<Rightarrow> True | _ \<Rightarrow> False)"

definition refresh_source :: "('k, 'v) auth_env \<Rightarrow> oauth2_auth \<Rightarrow> ('k, 'v) auth_world \<Rightarrow> string option" where
  "refresh_source env a w = (case Option.bind (oa_cached_token a) ct_refresh_token of
      Some tok \<Rightarrow> Some tok
    | None \<Rightarrow> if oa_grant_type a = AuthorizationCode
        then Option.bind (case get_stored_oauth_token env a w of Inr t \<Rightarrow> t | Inl _ \<Rightarrow> None) so_refresh_token
        else None)"

definition refreshed_token :: "('k, 'v) auth_env \<Rightarrow> oauth2_auth \<Rightarrow> ('k, 'v) auth_world
   \<Rightarrow> (client_error + cached_token) \<times> ('k, 'v) auth_world" where
  "refreshed_token env a w = (case refresh_source env a w of
      Some tok \<Rightarrow>
        (case refresh_token env a tok w of
           (Inr ts, w') \<Rightarrow>
             if oa_grant_type a = AuthorizationCode
             then and_then (store_oauth_token env a (ts_stored ts) w') (\<lambda>_ w. (Inr (ts_cached ts), w))
             else (Inr (ts_cached ts), w')
         | (Inl e, w') \<Rightarrow>
             if oa_grant_type a \<noteq> AuthorizationCode \<and> \<not> is_panic e then fetch_token env a w' else (Inl e, w'))
    | None \<Rightarrow>
        if oa_grant_type a = AuthorizationCode then (Inl (Failed ''No OAuth refresh_token is available''), w)
        else fetch_token env a w)"

definition oauth_refresh :: "('k, 'v) auth_env \<Rightarrow> oauth2_auth \<Rightarrow> ('k, 'v) auth_world
   \<Rightarrow> (client_error + bool) \<times> oauth2_auth \<times> ('k, 'v) auth_world" where
  "oauth_refresh env a w = (case refreshed_token env a w of
      (Inl e, w') \<Rightarrow> (Inl e, a, w')
    | (Inr t, w') \<Rightarrow> (Inr True, a\<lparr>oa_cached_token := Some t\<rparr>, w'))"

subsection \<open>The other authenticators and the trait\<close>

datatype authenticator =
    BasicAuth string string
  | ApiKeyAuth string
  | BrowserSessionAuth
  | NativeSessionAuth native_session "string option"
  | OAuth2Auth oauth2_auth

definition basic_authenticate :: "('k, 'v) auth_env \<Rightarrow> string \<Rightarrow> string \<Rightarrow> ('k, 'v) auth_world \<Rightarrow> client_error + headers" where
  "basic_authenticate env username profile_name w = (case get_credential (ae_keyring env) profile_name ''password'' w of
      None \<Rightarrow> Inl (Failed ''No password found for profile'')
    | Some p \<Rightarrow> Inr [(''authorization'', ''Basic '' @ ae_b64 env (username @ '':'' @ p))])"

definition api_key_authenticate :: "('k, 'v) auth_env \<Rightarrow> string \<Rightarrow> ('k, 'v) auth_world \<Rightarrow> client_error + headers" where
  "api_key_authenticate env profile_name w = (case get_credential (ae_keyring env) profile_name ''api_token'' w of
      None \<Rightarrow> Inl (AuthenticationFailed ''No API token found for profile'' None)
    | Some t \<Rightarrow> bearer_headers t)"

definition session_cookie_env :: "('k, 'u) secrets_world \<Rightarrow> string option" where
  "session_cookie_env w = (case kw_env w ''SNOW_SESSION_COOKIE'' of
      Some v \<Rightarrow> if trim v = [] then None else Some v | None \<Rightarrow> None)"

definition browser_authenticate :: "('k, 'v) auth_world \<Rightarrow> client_error + headers" where
  "browser_authenticate w = (case session_cookie_env w of
      None \<Rightarrow> Inl (Failed ''No ServiceNow session cookie found'')
    | Some v \<Rightarrow> if header_value_ok v then Inr [(''cookie'', v)] else Inl (Failed ''invalid header value''))"

text \<open>serde's codec of a native session.\<close>

definition encode_native_session :: "native_session \<Rightarrow> json" where
  "encode_native_session s = JObject [(''instance'', JString (ns_instance s)), (''cookie_header'', JString (ns_cookie_header s)),
     (''csrf_token'', JString (ns_csrf_token s)),
     (''authenticated_user'', (case ns_authenticated_user s of Some u \<Rightarrow> JString u | None \<Rightarrow> JNull))]"

definition decode_native_session :: "json \<Rightarrow> native_session option" where
  "decode_native_session v =
     Option.bind (exact_fields [''instance'', ''cookie_header'', ''csrf_token'', ''authenticated_user''] v) (\<lambda>m.
     Option.bind (required json_as_str ''instance'' m) (\<lambda>i.
     Option.bind (required json_as_str ''cookie_header'' m) (\<lambda>c.
     Option.bind (required json_as_str ''csrf_token'' m) (\<lambda>t.
     Option.bind (optional json_as_str ''authenticated_user'' m) (\<lambda>u.
       Some \<lparr>ns_instance = i, ns_cookie_header = c, ns_csrf_token = t, ns_authenticated_user = u\<rparr>)))))"

definition save_session_of :: "('k, 'v) auth_env \<Rightarrow> string option \<Rightarrow> native_session \<Rightarrow> ('k, 'v) auth_world
   \<Rightarrow> (client_error + unit) \<times> ('k, 'v) auth_world" where
  "save_session_of env profile_name session w = (case profile_name of
      None \<Rightarrow> (Inr (), w)
    | Some p \<Rightarrow> save_native_session (ae_keyring env) (\<lambda>s. env_print_json (ae_http env) (encode_native_session s)) p session w)"

definition stored_native_session :: "('k, 'v) auth_env \<Rightarrow> string \<Rightarrow> string \<Rightarrow> ('k, 'v) auth_world \<Rightarrow> client_error + authenticator" where
  "stored_native_session env profile_name i w =
     (case load_native_session (ae_keyring env) (\<lambda>s. Option.bind (env_parse_json (ae_http env) s) decode_native_session)
          profile_name w of
        Inl e \<Rightarrow> Inl (AuthenticationFailed ''No valid native session is available; use session login or session attach.'' (Some e))
      | Inr session \<Rightarrow> (case ensure_session_instance (env_urls (ae_http env)) session i of
          Inl e \<Rightarrow> Inl (AuthenticationFailed
            ''Native session belongs to a different instance; refusing to send session credentials'' (Some e))
        | Inr _ \<Rightarrow> Inr (NativeSessionAuth session (Some profile_name))))"

definition native_observe :: "('k, 'v) auth_env \<Rightarrow> headers \<Rightarrow> native_session \<Rightarrow> string option \<Rightarrow> ('k, 'v) auth_world
   \<Rightarrow> (client_error + unit) \<times> authenticator \<times> ('k, 'v) auth_world" where
  "native_observe env hs session p w =
     (let session' = merge_response_cookies (env_expired (ae_http env) (outside (kw_rest w))) hs session
      in if session' = session then (Inr (), NativeSessionAuth session p, w)
         else (case save_session_of env p session' w of (r, w') \<Rightarrow> (r, NativeSessionAuth session' p, w')))"

definition native_update_csrf :: "('k, 'v) auth_env \<Rightarrow> string \<Rightarrow> native_session \<Rightarrow> string option \<Rightarrow> ('k, 'v) auth_world
   \<Rightarrow> (client_error + unit) \<times> authenticator \<times> ('k, 'v) auth_world" where
  "native_update_csrf env token session p w =
     (if ns_csrf_token session = token then (Inr (), NativeSessionAuth session p, w)
      else (let session' = session\<lparr>ns_csrf_token := token\<rparr> in
        case save_session_of env p session' w of (r, w') \<Rightarrow> (r, NativeSessionAuth session' p, w')))"

definition authenticators :: "('k, 'v) auth_env \<Rightarrow> (authenticator, ('k, 'v) auth_world) auth_ops" where
  "authenticators env = \<lparr>
     authenticate = (\<lambda>a w. case a of
         BasicAuth u p \<Rightarrow> (basic_authenticate env u p w, a, w)
       | ApiKeyAuth p \<Rightarrow> (api_key_authenticate env p w, a, w)
       | BrowserSessionAuth \<Rightarrow> (browser_authenticate w, a, w)
       | NativeSessionAuth s p \<Rightarrow> (native_headers s, a, w)
       | OAuth2Auth oa \<Rightarrow> (case oauth_authenticate env oa w of (r, oa', w') \<Rightarrow> (r, OAuth2Auth oa', w'))),
     refresh = (\<lambda>a w. case a of
         OAuth2Auth oa \<Rightarrow> (case oauth_refresh env oa w of (r, oa', w') \<Rightarrow> (r, OAuth2Auth oa', w'))
       | _ \<Rightarrow> (Inr False, a, w)),
     observe_response_headers = (\<lambda>hs a w. case a of
         NativeSessionAuth s p \<Rightarrow> native_observe env hs s p w | _ \<Rightarrow> (Inr (), a, w)),
     native_session_credentials = (\<lambda>a. case a of NativeSessionAuth s _ \<Rightarrow> Some s | _ \<Rightarrow> None),
     update_native_csrf = (\<lambda>t a w. case a of
         NativeSessionAuth s p \<Rightarrow> native_update_csrf env t s p w | _ \<Rightarrow> (Inr (), a, w)),
     auth_type = (\<lambda>a. case a of BasicAuth _ _ \<Rightarrow> Basic | ApiKeyAuth _ \<Rightarrow> ApiKey | BrowserSessionAuth \<Rightarrow> BrowserSession
       | NativeSessionAuth _ _ \<Rightarrow> NativeSession | OAuth2Auth _ \<Rightarrow> Oauth2)\<rparr>"

subsection \<open>The factory and the client of a profile\<close>

datatype build_error =
    ConfigRefused config_error
  | ClientRefused client_error
  | UnusableProfile config_error

text \<open>\<open>classify_auth_failure\<close> on both kinds of error of the factory.\<close>

definition classify_build_failure :: "build_error \<Rightarrow> build_error" where
  "classify_build_failure e = (case e of ClientRefused c \<Rightarrow> ClientRefused (classify_auth_failure c)
     | ConfigRefused c \<Rightarrow> UnusableProfile c | UnusableProfile c \<Rightarrow> UnusableProfile c)"

definition create_authenticator :: "('k, 'v) auth_env \<Rightarrow> string \<Rightarrow> profile \<Rightarrow> ('k, 'v) auth_world \<Rightarrow> build_error + authenticator" where
  "create_authenticator env profile_name profile w =
     bind_result (map_sum ConfigRefused id (validate_profile_config profile)) (\<lambda>_. map_sum ClientRefused id
       (case pr_auth_method profile of
          NativeSession \<Rightarrow> stored_native_session env profile_name (pr_instance profile) w
        | Basic \<Rightarrow> (case pr_username profile of
              None \<Rightarrow> Inl (Failed ''Basic auth requires a username'') | Some u \<Rightarrow> Inr (BasicAuth u profile_name))
        | Oauth2 \<Rightarrow> map_sum id OAuth2Auth (new_oauth2_auth profile_name profile)
        | ApiKey \<Rightarrow> Inr (ApiKeyAuth profile_name)
        | Mtls \<Rightarrow> Inl (Failed ''mTLS authentication is not yet implemented'')
        | BrowserSession \<Rightarrow> Inr BrowserSessionAuth))"

text \<open>\<open>SnowClient::with_config\<close>.\<close>

definition client_with_config :: "('k, 'v) auth_env \<Rightarrow> (string \<Rightarrow> instance_parts) \<Rightarrow> string \<Rightarrow> authenticator \<Rightarrow> execution_policy
   \<Rightarrow> build_error + authenticator snow_client" where
  "client_with_config env parts i a policy =
     bind_result (map_sum ConfigRefused id (validate_instance_url (env_urls (ae_http env)) parts i)) (\<lambda>base_url.
       case parse_url (env_urls (ae_http env)) base_url of
         None \<Rightarrow> Inl (ClientRefused (InvalidInstanceUrl base_url))
       | Some url \<Rightarrow>
           if \<not> is_safe_authenticated_url url then Inl (ClientRefused (UnsafeInstanceUrl base_url))
           else bind_result (case native_session_credentials (authenticators env) a of
                 None \<Rightarrow> Inr ()
               | Some s \<Rightarrow> map_sum ClientRefused id (ensure_session_instance (env_urls (ae_http env)) s base_url)) (\<lambda>_.
             Inr \<lparr>sc_base_url = base_url, sc_authenticator = a, sc_session = no_session, sc_policy = policy,
               sc_redirects = (auth_type (authenticators env) a \<noteq> NativeSession)\<rparr>))"

definition build_client :: "('k, 'v) auth_env \<Rightarrow> (string \<Rightarrow> instance_parts) \<Rightarrow> (string list \<Rightarrow> string list) \<Rightarrow> app_config
   \<Rightarrow> string \<Rightarrow> string option \<Rightarrow> execution_policy \<Rightarrow> ('k, 'v) auth_world \<Rightarrow> build_error + authenticator snow_client" where
  "build_client env parts iter cfg profile_name instance_override policy w =
     (case active_profile cfg (Some profile_name) of
        None \<Rightarrow> Inl (ConfigRefused (ProfileNotFound profile_name (suggest_profile_name iter cfg profile_name)))
      | Some profile \<Rightarrow>
          bind_result (map_sum ConfigRefused id
              (client_instance (env_urls (ae_http env)) parts profile instance_override)) (\<lambda>i.
            bind_result (map_sum classify_build_failure id
                (if pr_auth_method profile = NativeSession
                 then map_sum ClientRefused id (stored_native_session env profile_name i w)
                 else create_authenticator env profile_name profile w)) (\<lambda>a.
              client_with_config env parts i a policy)))"

subsection \<open>Token requests stay on the instance\<close>

definition oauth_request :: "url_lib \<Rightarrow> string \<Rightarrow> http_request \<Rightarrow> bool" where
  "oauth_request ul url r \<longleftrightarrow> rq_method r = POST
     \<and> (\<exists>u. parse_url ul url = Some u \<and> is_safe_authenticated_url u \<and> rq_url r = url_text u)"

text \<open>What was sent in between: at most \<open>n\<close> requests, all to the token endpoint.\<close>

definition sends_tokens :: "url_lib \<Rightarrow> string \<Rightarrow> nat \<Rightarrow> ('k, 'v) auth_world \<Rightarrow> ('k, 'v) auth_world \<Rightarrow> bool" where
  "sends_tokens ul url n w w' \<longleftrightarrow>
     (\<exists>new. sent (kw_rest w') = sent (kw_rest w) @ new \<and> length new \<le> n \<and> list_all (oauth_request ul url) new)"

lemma sends_tokens_refl [simp, intro]: "sends_tokens ul url n w w"
  by (simp add: sends_tokens_def)

lemma sends_tokens_trans: "sends_tokens ul url n w w' \<Longrightarrow> sends_tokens ul url m w' w'' \<Longrightarrow> sends_tokens ul url (n + m) w w''"
  by (fastforce simp: sends_tokens_def list_all_append)

lemma sends_tokens_mono: "sends_tokens ul url n w w' \<Longrightarrow> n \<le> m \<Longrightarrow> sends_tokens ul url m w w'"
  by (auto simp: sends_tokens_def)

lemma sends_tokens_rest: "kw_rest w' = kw_rest w \<Longrightarrow> sends_tokens ul url n w w'"
  by (simp add: sends_tokens_def)

lemma set_password_rest [simp]: "kw_rest (snd (set_password kr sa v w)) = kw_rest w"
  by (auto simp: set_password_def test_store_set_def save_test_store_def on_keyring_def split: sum.splits option.splits)

lemma store_credential_rest: "store_credential kr p t v w = (r, w') \<Longrightarrow> kw_rest w' = kw_rest w"
  using set_password_rest [of kr "credential_account p t" v w] by (simp add: store_credential_def)

lemma post_oauth_token_form_sends:
  assumes "on_network (post_oauth_token_form http url body) w = (r, w')"
  shows "sends_tokens (env_urls http) url 1 w w'"
proof (cases "parse_url (env_urls http) url")
  case (Some u)
  show ?thesis
  proof (cases "validate_external_url u ''request OAuth tokens''")
    case (Inr _)
    obtain x h where x: "execute_request http True (token_request (url_text u) body) (kw_rest w) = (x, h)" by (rule prod.exhaust)
    then have w': "kw_rest w' = h"
      using assms Some Inr by (cases x) (auto simp: on_network_def post_oauth_token_form_def)
    have "is_safe_authenticated_url u" using Inr by (simp add: validate_external_url_def split: if_splits)
    then have "oauth_request (env_urls http) url (token_request (url_text u) body)"
      using Some by (simp add: oauth_request_def token_request_def)
    moreover have "h = kw_rest w \<or> sent h = sent (kw_rest w) @ [token_request (url_text u) body]"
      using x by (auto simp: execute_request_def split: if_splits prod.splits)
    ultimately show ?thesis using w' by (auto simp: sends_tokens_def)
  qed (use assms Some in \<open>auto simp: on_network_def post_oauth_token_form_def\<close>)
qed (use assms in \<open>auto simp: on_network_def post_oauth_token_form_def\<close>)

lemma send_oauth_token_request_sends:
  assumes "send_oauth_token_request env url body w = (r, w')"
  shows "sends_tokens (env_urls (ae_http env)) url 1 w w'"
proof -
  obtain x w1 where x: "on_network (post_oauth_token_form (ae_http env) url body) w = (x, w1)" by (rule prod.exhaust)
  then have "w' = w1"
    using assms by (cases x) (auto simp: send_oauth_token_request_def split: if_splits option.splits)
  then show ?thesis using post_oauth_token_form_sends [OF x] by simp
qed

text \<open>The token of an answer is issued at the time it is received.\<close>

definition issued_at :: "int \<Rightarrow> cached_token \<Rightarrow> bool" where
  "issued_at now t \<longleftrightarrow> (\<exists>n. instant_add now n = Inr (ct_expires_at t))"

lemma send_oauth_token_request_Inr:
  assumes "send_oauth_token_request env url body w = (Inr ts, w')"
  shows "\<exists>n. instant_add (instant_now env w') n = Inr (ct_expires_at (ts_cached ts))
    \<and> so_access_token (ts_stored ts) = ct_access_token (ts_cached ts)
    \<and> so_refresh_token (ts_stored ts) = ct_refresh_token (ts_cached ts)
    \<and> so_expires_at (ts_stored ts) = Some (saturating_add (epoch_now env w') n)"
proof -
  obtain x w1 where x: "on_network (post_oauth_token_form (ae_http env) url body) w = (x, w1)" by (rule prod.exhaust)
  obtain status bytes where sb: "x = Inr (status, bytes)" "200 \<le> status \<and> status < 300"
    using assms x by (cases x) (simp_all add: send_oauth_token_request_def split: if_splits prod.splits)
  obtain r where "Option.bind (env_parse_json (ae_http env) bytes) decode_token_response = Some r"
    using assms x sb by (cases "Option.bind (env_parse_json (ae_http env) bytes) decode_token_response")
      (simp_all add: send_oauth_token_request_def)
  then have "send_oauth_token_request env url body w = (into_token_set (epoch_now env w1) (instant_now env w1) r, w1)"
    using x sb by (simp add: send_oauth_token_request_def)
  with assms have "into_token_set (epoch_now env w1) (instant_now env w1) r = Inr ts" "w' = w1"
    by auto
  moreover from this obtain t where t: "instant_add (instant_now env w1) (tr_expires_in r) = Inr t"
    by (cases "instant_add (instant_now env w1) (tr_expires_in r)") (simp_all add: into_token_set_def)
  moreover have "ts = \<lparr>ts_cached = \<lparr>ct_access_token = tr_access_token r, ct_refresh_token = tr_refresh_token r, ct_expires_at = t\<rparr>,
      ts_stored = \<lparr>so_access_token = tr_access_token r, so_refresh_token = tr_refresh_token r, so_token_type = tr_token_type r,
        so_expires_at = Some (saturating_add (epoch_now env w1) (tr_expires_in r)), so_scope = tr_scope r\<rparr>\<rparr>"
    using calculation(1) t by (simp add: into_token_set_def)
  ultimately show ?thesis using t by (intro exI [of _ "tr_expires_in r"]) simp
qed

lemma fetch_token_cases:
  assumes "fetch_token env a w = (r, w')"
  obtains e where "r = Inl e" "w' = w"
    | body x where "send_oauth_token_request env (oauth_token_url a) body w = (x, w')" "r = map_sum id ts_cached x"
proof (cases "oa_grant_type a = AuthorizationCode")
  case True
  then show ?thesis using assms that(1) by (auto simp: fetch_token_def)
next
  case grant: False
  show ?thesis
  proof (cases "get_required_client_secret env a w")
    case (Inl e)
    then show ?thesis using assms that(1) grant by (auto simp: fetch_token_def)
  next
    case secret: (Inr client_secret)
    show ?thesis
    proof (cases "get_grant_password env a w")
      case (Inl e)
      then show ?thesis using assms that(1) grant secret by (auto simp: fetch_token_def)
    next
      case (Inr password)
      obtain x w1 where x: "send_oauth_token_request env (oauth_token_url a)
          (build_token_request_body a client_secret password) w = (x, w1)" by (rule prod.exhaust)
      then have "w' = w1" "r = map_sum id ts_cached x"
        using assms grant secret Inr by (cases x; simp add: fetch_token_def)+
      then show ?thesis using x that(2) by blast
    qed
  qed
qed

lemma fetch_token_Inr:
  assumes "fetch_token env a w = (Inr t, w')"
  shows "issued_at (instant_now env w') t"
proof (rule fetch_token_cases [OF assms])
  fix body x
  assume x: "send_oauth_token_request env (oauth_token_url a) body w = (x, w')" "Inr t = map_sum id ts_cached x"
  then obtain ts where "x = Inr ts" "t = ts_cached ts" by (cases x) auto
  then show ?thesis using x send_oauth_token_request_Inr unfolding issued_at_def by blast
qed simp

lemma fetch_token_sends:
  assumes "fetch_token env a w = (r, w')"
  shows "sends_tokens (env_urls (ae_http env)) (oauth_token_url a) 1 w w'"
  by (rule fetch_token_cases [OF assms]) (simp, rule send_oauth_token_request_sends)

subsection \<open>A token that is sent is alive\<close>

lemma decoded_expiry_bound: "decode_stored_token v = Some t \<Longrightarrow> so_expires_at t = Some e \<Longrightarrow> e \<le> usize_max"
proof -
  assume t: "decode_stored_token v = Some t" "so_expires_at t = Some e"
  then obtain m where "optional json_as_u64 ''expires_at'' m = Some (Some e)"
    by (auto simp: decode_stored_token_def bind_eq_Some_conv)
  then obtain j where "json_as_u64 j = Some e"
    by (auto simp: optional_def split: option.splits json.splits)
  then show ?thesis
    by (auto simp: json_as_u64_def usize_max_def split: json.splits json_number.splits if_splits)
qed

lemma stored_to_cached_alive:
  assumes "stored_to_cached epoch now stored = Inr t" "\<not> stored_is_expired epoch stored"
    "\<And>e. so_expires_at stored = Some e \<Longrightarrow> e \<le> usize_max"
  shows "\<not> cached_is_expired now t"
proof (cases "so_expires_at stored")
  case None
  then show ?thesis
    using assms(1) by (auto simp: stored_to_cached_def bind_result_Inr_iff instant_add_def cached_is_expired_def seconds_def
        stored_token_fallback_ttl_secs_def oauth_expiry_skew_secs_def split: if_splits)
next
  case (Some e)
  then have e: "epoch + 30 < e" "e \<le> usize_max"
    using assms(2,3) by (auto simp: stored_is_expired_def saturating_add_def)
  then have "int (e - epoch) > 30" by simp
  then show ?thesis
    using assms(1) Some e by (auto simp: stored_to_cached_def bind_result_Inr_iff instant_add_def cached_is_expired_def seconds_def
        oauth_expiry_skew_secs_def split: if_splits)
qed

lemma get_stored_decoded: "get_stored_oauth_token env a w = Inr (Some t) \<Longrightarrow> \<exists>v. decode_stored_token v = Some t"
  by (auto simp: get_stored_oauth_token_def bind_eq_Some_conv split: option.splits)

lemma clocks_rest:
  "kw_rest w' = kw_rest w \<Longrightarrow> instant_now env w' = instant_now env w"
  "kw_rest w' = kw_rest w \<Longrightarrow> epoch_now env w' = epoch_now env w"
  by (simp_all add: instant_now_def epoch_now_def)

text \<open>A refresh that is stored, in the authenticator and in a request.\<close>

lemma refresh_stored_Inr:
  assumes "and_then (refresh_token env a tok w) (\<lambda>ts w. and_then (store_oauth_token env a (ts_stored ts) w) (\<lambda>_ w. (Inr (ts_cached ts), w))) = (Inr t, w')"
  obtains ts w1 where "refresh_token env a tok w = (Inr ts, w1)" "store_oauth_token env a (ts_stored ts) w1 = (Inr (), w')"
    "t = ts_cached ts" "kw_rest w' = kw_rest w1"
proof -
  obtain r w1 where r: "refresh_token env a tok w = (r, w1)" by (rule prod.exhaust)
  then obtain ts where ts: "r = Inr ts" using assms by (cases r) auto
  obtain u w2 where u: "store_oauth_token env a (ts_stored ts) w1 = (u, w2)" by (rule prod.exhaust)
  then have "u = Inr ()" "t = ts_cached ts" "w2 = w'" using assms r ts by (cases u; simp)+
  moreover have "kw_rest w2 = kw_rest w1" using u store_credential_rest by (auto simp: store_oauth_token_def)
  ultimately show ?thesis using that r ts u by blast
qed

lemma current_stored_token_Inr:
  assumes "current_stored_token env a w = (Inr t, w')"
  shows "sends_tokens (env_urls (ae_http env)) (oauth_token_url a) 1 w w'
    \<and> (\<not> cached_is_expired (instant_now env w') t \<or> issued_at (instant_now env w') t)"
proof -
  obtain stored where stored: "get_stored_oauth_token env a w = Inr (Some stored)"
    using assms by (cases "get_stored_oauth_token env a w") (auto simp: current_stored_token_def split: option.splits)
  show ?thesis
  proof (cases "stored_is_expired (epoch_now env w) stored")
    case False
    then have "current_stored_token env a w = (stored_to_cached (epoch_now env w) (instant_now env w) stored, w)"
      using stored by (simp add: current_stored_token_def)
    with assms have "stored_to_cached (epoch_now env w) (instant_now env w) stored = Inr t" "w' = w"
      by auto
    moreover obtain v where "decode_stored_token v = Some stored" using get_stored_decoded [OF stored] by blast
    ultimately have "\<not> cached_is_expired (instant_now env w) t"
      using stored_to_cached_alive False decoded_expiry_bound by blast
    then show ?thesis using \<open>w' = w\<close> by simp
  next
    case True
    then obtain tok where tok: "so_refresh_token stored = Some tok"
      using assms stored by (cases "so_refresh_token stored") (auto simp: current_stored_token_def)
    then have "and_then (refresh_token env a tok w) (\<lambda>ts w. and_then (store_oauth_token env a (ts_stored ts) w)
        (\<lambda>_ w. (Inr (ts_cached ts), w))) = (Inr t, w')"
      using assms stored True by (simp add: current_stored_token_def)
    then obtain ts w1 where ts: "refresh_token env a tok w = (Inr ts, w1)" "t = ts_cached ts" "kw_rest w' = kw_rest w1"
      by (rule refresh_stored_Inr)
    have "sends_tokens (env_urls (ae_http env)) (oauth_token_url a) 1 w w1"
      using ts(1) unfolding refresh_token_def by (rule send_oauth_token_request_sends)
    moreover have "issued_at (instant_now env w1) t"
      using ts(1,2) send_oauth_token_request_Inr unfolding refresh_token_def issued_at_def by blast
    ultimately show ?thesis using ts(3) clocks_rest(1) [OF ts(3)] by (simp add: sends_tokens_def)
  qed
qed


subsection \<open>A refreshed login survives a restart\<close>

lemma decode_encode_stored_token:
  assumes "pred_option (\<lambda>e. e \<le> usize_max) (so_expires_at t)"
  shows "decode_stored_token (encode_stored_token t) = Some t"
  using assms
  by (cases t; cases "so_refresh_token t"; cases "so_token_type t"; cases "so_expires_at t"; cases "so_scope t")
    (simp_all add: decode_stored_token_def encode_stored_token_def exact_fields_def required_def optional_def skip_none_def
      json_as_str_def json_as_u64_def usize_max_def)

lemma stored_credential_is_read:
  assumes "lawful_keyring kr" "store_credential kr p t v w = (Inr (), w')"
  shows "get_credential kr p t w' = Some v"
proof -
  have "get_password kr (credential_account p t) w' = Inr (Some v)"
    using secret_store.get_set [OF keychain_store [OF assms(1)], of "credential_account p t" v w w' "credential_account p t"]
      assms(2) by (simp add: store_credential_def)
  then show ?thesis by (simp add: get_credential_def)
qed

lemma instant_add_mono: "instant_add now n = Inr t \<Longrightarrow> m \<le> n \<Longrightarrow> \<exists>t'. instant_add now m = Inr t'"
proof -
  assume t: "instant_add now n = Inr t" "m \<le> n"
  then have "(now + seconds m) div 1000000000 \<le> (now + seconds n) div 1000000000"
    by (intro zdiv_mono1) (simp_all add: seconds_def)
  then show ?thesis using t by (auto simp: instant_add_def split: if_splits)
qed

lemma refreshed_authorization_code:
  assumes "oa_grant_type a = AuthorizationCode" "refresh_source env a w = Some tok"
  shows "refreshed_token env a w = and_then (refresh_token env a tok w)
    (\<lambda>ts w. and_then (store_oauth_token env a (ts_stored ts) w) (\<lambda>_ w. (Inr (ts_cached ts), w)))"
proof -
  obtain r w1 where "refresh_token env a tok w = (r, w1)" by (rule prod.exhaust)
  then show ?thesis using assms by (cases r) (simp_all add: refreshed_token_def)
qed


text \<open>A small world for the witnesses: an empty keychain, and an instance that issues one token.\<close>

definition demo_answer :: json where
  "demo_answer = JObject [(''access_token'', JString ''new''), (''refresh_token'', JString ''r2''), (''expires_in'', JNumber (IntNumber 1800))]"

text \<open>A codec for the witness: JSON values are countable.\<close>

instance json_number :: countable
  by countable_datatype

instance json :: countable
  by countable_datatype

definition demo_print :: "json \<Rightarrow> string" where
  "demo_print j = replicate (to_nat j) (CHR ''x'')"

definition demo_parse :: "string \<Rightarrow> json option" where
  "demo_parse s = Some (if s = ''answer'' then demo_answer else from_nat (length s))"

lemma demo_codec: "demo_parse (demo_print j) = Some j"
proof -
  have "CHR ''a'' \<notin> set (demo_print j)" by (simp add: demo_print_def)
  moreover have "CHR ''a'' \<in> set ''answer''" by simp
  ultimately have "demo_print j \<noteq> ''answer''" by metis
  then show ?thesis by (simp add: demo_parse_def demo_print_def)
qed

lemma demo_parse_answer: "demo_parse ''answer'' = Some demo_answer"
  by (simp add: demo_parse_def)

definition demo_http :: "nat client_env" where
  "demo_http = \<lparr>env_urls = \<lparr>parse_url = (\<lambda>s. Some \<lparr>pu_scheme = ''https'', pu_host = Some ''x'', pu_port = Some 443,
       url_path = ''/'', url_text = s, url_origin = Some (''https'', ''x'', 443)\<rparr>), join_url = (\<lambda>_ _. None)\<rparr>,
     env_execute = (\<lambda>_ r n. (Inr \<lparr>rs_status = 200, rs_headers = [], rs_url = rq_url r, rs_body = Inr ''answer''\<rparr>, n)),
     env_buildable = (\<lambda>_. True), env_parse_json = demo_parse, env_print_json = demo_print,
     env_expired = (\<lambda>_ _. None), env_b64 = (\<lambda>_. None)\<rparr>"

definition demo_keyring :: "(string \<times> string \<Rightarrow> string option) keyring" where
  "demo_keyring = \<lparr>kr_get = (\<lambda>s a k. Inr (k (s, a))), kr_set = (\<lambda>s a v k. (Inr (), k((s, a) \<mapsto> v))),
     kr_delete = (\<lambda>s a k. (Inr (), k((s, a) := None)))\<rparr>"

lemma lawful_demo_keyring: "lawful_keyring demo_keyring"
  by (auto simp: lawful_keyring_def demo_keyring_def)

definition demo_auth_env :: "(string \<times> string \<Rightarrow> string option, nat) auth_env" where
  "demo_auth_env = \<lparr>ae_http = demo_http, ae_keyring = demo_keyring, ae_epoch = (\<lambda>n. 1000 + n),
     ae_instant = (\<lambda>n. seconds n), ae_b64 = id\<rparr>"

definition demo_auth_world :: "(string \<times> string \<Rightarrow> string option, nat) auth_world" where
  "demo_auth_world = \<lparr>kw_env = (\<lambda>_. None), kw_files = (\<lambda>_. None), kw_read_only = (\<lambda>_. False),
     kw_keyring = [(service_name, ''p:client_secret'') \<mapsto> ''s''], kw_rest = \<lparr>outside = 50, sent = []\<rparr>\<rparr>"

definition demo_oauth :: "oauth_grant_type \<Rightarrow> oauth2_auth" where
  "demo_oauth g = \<lparr>oa_profile_name = ''p'', oa_instance = ''https://x'', oa_client_id = ''c'', oa_grant_type = g,
     oa_username = None, oa_cached_token = Some \<lparr>ct_access_token = ''old'', ct_refresh_token = Some ''r'', ct_expires_at = seconds 70\<rparr>\<rparr>"

lemma demo_token_request:
  "send_oauth_token_request demo_auth_env url body w =
    (Inr \<lparr>ts_cached = \<lparr>ct_access_token = ''new'', ct_refresh_token = Some ''r2'', ct_expires_at = seconds (outside (kw_rest w) + 1800)\<rparr>,
       ts_stored = \<lparr>so_access_token = ''new'', so_refresh_token = Some ''r2'', so_token_type = None,
         so_expires_at = Some (saturating_add (1000 + outside (kw_rest w)) 1800), so_scope = None\<rparr>\<rparr>,
     w\<lparr>kw_rest := (kw_rest w)\<lparr>sent := sent (kw_rest w) @ [token_request url body]\<rparr>\<rparr>)"
  if "outside (kw_rest w) < 1000"
proof -
  have add: "instant_add (seconds n) 1800 = Inr (seconds (n + 1800))" if "n < 1000" for n
  proof -
    have "(seconds n + seconds 1800) div 1000000000 = int n + 1800" by (simp add: seconds_def)
    then show ?thesis using that by (simp add: instant_add_def) (simp add: seconds_def)
  qed
  have decode: "decode_token_response demo_answer = Some \<lparr>tr_access_token = ''new'', tr_refresh_token = Some ''r2'',
      tr_token_type = None, tr_expires_in = 1800, tr_scope = None\<rparr>"
    by (simp add: decode_token_response_def demo_answer_def exact_fields_def required_def optional_def json_as_str_def json_as_u64_def)
  have "on_network (post_oauth_token_form demo_http url body) w =
      (Inr (200, ''answer''), w\<lparr>kw_rest := (kw_rest w)\<lparr>sent := sent (kw_rest w) @ [token_request url body]\<rparr>\<rparr>)"
    by (simp add: on_network_def post_oauth_token_form_def demo_http_def validate_external_url_def is_safe_authenticated_url_def
        execute_request_def buffered_external_response_def)
  then show ?thesis
    using that decode add demo_parse_answer
    by (simp add: send_oauth_token_request_def demo_auth_env_def demo_http_def [THEN arg_cong, of env_parse_json] into_token_set_def instant_now_def epoch_now_def)
qed

lemma demo_oauth_simps [simp]:
  "oa_grant_type (demo_oauth g) = g" "oa_profile_name (demo_oauth g) = ''p''"
  "oa_cached_token (demo_oauth g) = Some \<lparr>ct_access_token = ''old'', ct_refresh_token = Some ''r'', ct_expires_at = seconds 70\<rparr>"
  "ae_keyring demo_auth_env = demo_keyring" "ae_http demo_auth_env = demo_http"
  "kw_rest demo_auth_world = \<lparr>outside = 50, sent = []\<rparr>"
  by (simp_all add: demo_oauth_def demo_auth_env_def demo_auth_world_def)

lemma demo_header_ok: "header_value_ok ''new''"
  by (simp add: header_value_ok_def byte_of_def)


lemma demo_store_credential:
  "kw_env w test_store_env = None \<Longrightarrow> store_credential demo_keyring p t v w
     = (Inr (), w\<lparr>kw_keyring := (kw_keyring w)(credential_account p t \<mapsto> v)\<rparr>)"
  by (cases "credential_account p t")
    (simp add: store_credential_def set_password_def test_store_path_def on_keyring_def demo_keyring_def)


end
