(* ===== verification/Profile_Clients.thy ===== *)
theory Profile_Clients
  imports Authenticators Client_Safety
begin

text \<open>
  The client of a profile, from the configuration to the wire: what \<open>build_client\<close> of
  \<open>src/src/client/mod.rs\<close> and \<open>SnowClient::with_config\<close> build, and where its requests go.
\<close>

text \<open>
  Documented behaviour of the \<open>url\<close> crate: equal tuple origins are equal schemes, hosts and ports,
  and space or slashes around a URL that is only an origin do not change the origin.
\<close>

definition origins_agree :: "url_lib \<Rightarrow> bool" where
  "origins_agree ul \<longleftrightarrow> (\<forall>a b x y. parse_url ul a = Some x \<and> parse_url ul b = Some y
     \<and> url_origin x = url_origin y \<and> url_origin x \<noteq> None \<longrightarrow> same_origin x y)"

definition trimming_keeps_origin :: "url_lib \<Rightarrow> (string \<Rightarrow> instance_parts) \<Rightarrow> bool" where
  "trimming_keeps_origin ul parts \<longleftrightarrow> (\<forall>s x y. parse_url ul s = Some x \<and> ip_path (parts s) \<in> {[], ''/''}
     \<and> ip_query (parts s) = None \<and> ip_fragment (parts s) = None
     \<and> parse_url ul (trim_end_matches (CHR ''/'') (trim s)) = Some y \<longrightarrow> same_origin x y)"

lemma build_client_Inr:
  assumes "build_client env parts iter cfg profile_name instance_override policy w = Inr c"
  obtains profile i where "get_profile cfg profile_name = Some profile"
    "client_instance (env_urls (ae_http env)) parts profile instance_override = Inr i"
    "validate_instance_url (env_urls (ae_http env)) parts i = Inr (sc_base_url c)" "sc_policy c = policy"
proof -
  obtain profile where p: "get_profile cfg profile_name = Some profile"
    using assms by (cases "get_profile cfg profile_name") (simp_all add: build_client_def active_profile_def)
  obtain i where i: "client_instance (env_urls (ae_http env)) parts profile instance_override = Inr i"
    using assms p by (cases "client_instance (env_urls (ae_http env)) parts profile instance_override")
      (simp_all add: build_client_def active_profile_def)
  then obtain a where a: "client_with_config env parts i a policy = Inr c"
    using assms p by (auto simp: build_client_def active_profile_def bind_result_Inr_iff)
  then have "validate_instance_url (env_urls (ae_http env)) parts i = Inr (sc_base_url c)" "sc_policy c = policy"
    by (cases "validate_instance_url (env_urls (ae_http env)) parts i",
        auto simp: client_with_config_def bind_result_Inr_iff split: option.splits if_splits)+
  then show ?thesis using that p i by blast
qed

lemma same_origin_sym: "same_origin x y \<Longrightarrow> same_origin y x"
  by (simp add: same_origin_def)

lemma same_origin_trans: "same_origin x y \<Longrightarrow> same_origin y z \<Longrightarrow> same_origin x z"
  by (simp add: same_origin_def)

lemma client_instance_same_origin:
  assumes "origins_agree ul" "client_instance ul parts profile instance_override = Inr i"
  shows "\<exists>expected x y. validate_instance_url ul parts (pr_instance profile) = Inr expected
    \<and> parse_url ul expected = Some x \<and> is_safe_authenticated_url x \<and> parse_url ul i = Some y \<and> same_origin x y
    \<and> ip_path (parts i) \<in> {[], ''/''} \<and> ip_query (parts i) = None \<and> ip_fragment (parts i) = None"
proof -
  obtain expected where e: "validate_instance_url ul parts (pr_instance profile) = Inr expected"
      "i = expected \<or> equal_origins ul expected i = Some True"
    using client_instance_origin [OF assms(2)] by blast
  obtain input where "validate_instance_url ul parts input = Inr i"
    using assms(2) by (auto simp: client_instance_def bind_result_Inr_iff split: if_splits)
  from validate_instance_url_Inr [OF this] validate_instance_url_Inr [OF e(1)] obtain x y where xy:
    "parse_url ul expected = Some x" "is_safe_authenticated_url x" "parse_url ul i = Some y"
    "ip_path (parts i) \<in> {[], ''/''}" "ip_query (parts i) = None" "ip_fragment (parts i) = None" by blast
  have "same_origin x y"
    using e(2)
  proof
    assume "i = expected"
    then show ?thesis using xy by (simp add: same_origin_def)
  next
    assume "equal_origins ul expected i = Some True"
    moreover define p where "p \<longleftrightarrow> url_origin x = url_origin y \<and> url_origin x \<noteq> None"
    then have "equal_origins ul expected i = Some p" using xy(1,3) by (simp add: equal_origins_def)
    ultimately have p by simp
    then have "url_origin x = url_origin y \<and> url_origin x \<noteq> None" unfolding p_def .
    then show ?thesis using assms(1) xy(1,3) unfolding origins_agree_def by blast
  qed
  then show ?thesis using e(1) xy by blast
qed


definition demo_profile_env :: "(string \<times> string \<Rightarrow> string option, nat) auth_world client_env" where
  "demo_profile_env = \<lparr>env_urls = env_urls demo_http,
     env_execute = (\<lambda>_ r w. (Inr \<lparr>rs_status = 200, rs_headers = [], rs_url = rq_url r, rs_body = Inr ''answer''\<rparr>, w)),
     env_buildable = (\<lambda>r. starts_with (rq_url r) ''http://'' \<or> starts_with (rq_url r) ''https://''),
     env_parse_json = demo_parse, env_print_json = demo_print, env_expired = (\<lambda>_ _. None), env_b64 = (\<lambda>_. None)\<rparr>"

definition demo_parts :: "string \<Rightarrow> instance_parts" where
  "demo_parts = (\<lambda>_. \<lparr>ip_username = [], ip_password = None, ip_path = ''/'', ip_query = None, ip_fragment = None\<rparr>)"

definition demo_config :: app_config where
  "demo_config = \<lparr>ac_default_profile = ''p'', ac_default_output = None,
     ac_profiles = [(''p'', demo_oauth_profile\<lparr>pr_auth_method := ApiKey\<rparr>)]\<rparr>"

definition demo_key_world :: "(string \<times> string \<Rightarrow> string option, nat) auth_world" where
  "demo_key_world = demo_auth_world\<lparr>kw_keyring := [(service_name, ''p:api_token'') \<mapsto> ''new'']\<rparr>"

lemma demo_profile_laws: "builds_http_only demo_profile_env" "url_texts_parse (env_urls demo_profile_env)"
  "origins_agree (env_urls demo_profile_env)" "trimming_keeps_origin (env_urls demo_profile_env) demo_parts"
  by (simp_all add: builds_http_only_def url_texts_parse_def origins_agree_def trimming_keeps_origin_def demo_profile_env_def
      demo_http_def same_origin_def)

definition demo_key_client :: "authenticator snow_client" where
  "demo_key_client = \<lparr>sc_base_url = ''https://x'', sc_authenticator = ApiKeyAuth ''p'', sc_session = no_session,
     sc_policy = read_only, sc_redirects = True\<rparr>"

lemma demo_build: "build_client demo_auth_env demo_parts id demo_config ''p'' (Some ''https://x'') read_only demo_key_world
    = Inr demo_key_client"
  by code_simp

lemma demo_calls:
  "sent (snd (fold (run_call demo_profile_env (authenticators demo_auth_env) id) [RequestCall GET ''https://x/a'' None []]
     (demo_key_client, \<lparr>outside = demo_key_world, sent = []\<rparr>)))
   = [build_request GET ''https://x/a'' None [] [] [(''authorization'', ''Bearer new'')]]"
  by code_simp

lemma demo_instance: "validate_instance_url (env_urls demo_http) demo_parts ''https://x/'' = Inr ''https://x''"
  by code_simp


end
