(* ===== verification/Auth_Commands.thy ===== *)
theory Auth_Commands
  imports Authenticators
begin

text \<open>
  The commands on credentials: \<open>src/src/cli/commands/auth.rs\<close> and the store it shares with the
  now-sdk tool, \<open>src/src/config/now_sdk.rs\<close>. serde's codec of that store is an argument. What a
  login reads from the terminal, the listener and the random source is the record \<open>login_io\<close>;
  standard input can be read once, so a second read finds it empty. Printing is left out, and so is
  the identity request that verifies a stored login.
\<close>

subsection \<open>The now-sdk store\<close>

datatype now_sdk_credentials =
    SdkBasic string string string
  | SdkOAuth string string string string int

record stored_alias =
  sa_is_default :: bool
  sa_alias :: string
  sa_creds :: now_sdk_credentials

type_synonym alias_store = "stored_alias btree_map"

record sdk_codec =
  sdk_decode :: "string \<Rightarrow> alias_store option"
  sdk_encode :: "alias_store \<Rightarrow> string"

record sdk_profile_summary =
  ps_alias :: string
  ps_instance :: string
  ps_auth_type :: string
  ps_username :: "string option"
  ps_is_default :: bool
  ps_supported :: bool

definition alias_summary :: "stored_alias \<Rightarrow> sdk_profile_summary" where
  "alias_summary a = (case sa_creds a of
      SdkBasic i u p \<Rightarrow> \<lparr>ps_alias = sa_alias a, ps_instance = i, ps_auth_type = ''basic'', ps_username = Some u,
        ps_is_default = sa_is_default a, ps_supported = True\<rparr>
    | SdkOAuth i _ _ _ _ \<Rightarrow> \<lparr>ps_alias = sa_alias a, ps_instance = i, ps_auth_type = ''oauth'', ps_username = None,
        ps_is_default = sa_is_default a, ps_supported = False\<rparr>)"

definition as_basic_profile :: "stored_alias \<Rightarrow> (string \<times> string \<times> string \<times> string \<times> bool) option" where
  "as_basic_profile a = (case sa_creds a of
      SdkBasic i u p \<Rightarrow> Some (sa_alias a, i, u, p, sa_is_default a) | SdkOAuth _ _ _ _ _ \<Rightarrow> None)"

definition now_sdk_account :: "string \<times> string" where
  "now_sdk_account = (''ServiceNow'', ''now-sdk'')"

definition load_sdk_store :: "'k keyring \<Rightarrow> sdk_codec \<Rightarrow> ('k, 'u) secrets_world \<Rightarrow> client_error + alias_store" where
  "load_sdk_store kr cd w = bind_result (get_password kr now_sdk_account w) (\<lambda>raw. case raw of
      None \<Rightarrow> Inr []
    | Some r \<Rightarrow> if trim r = [] then Inr []
        else (case sdk_decode cd (trim r) of
            Some s \<Rightarrow> Inr s | None \<Rightarrow> Inl (Failed ''Failed to parse now-sdk keychain entry'')))"

definition save_sdk_store :: "'k keyring \<Rightarrow> sdk_codec \<Rightarrow> alias_store \<Rightarrow> ('k, 'u) secrets_world
   \<Rightarrow> (client_error + unit) \<times> ('k, 'u) secrets_world" where
  "save_sdk_store kr cd s = (if s = [] then delete_password kr now_sdk_account
     else set_password kr now_sdk_account (sdk_encode cd s))"

definition snapshot_raw_store :: "'k keyring \<Rightarrow> ('k, 'u) secrets_world \<Rightarrow> client_error + string option" where
  "snapshot_raw_store kr = get_password kr now_sdk_account"

definition restore_raw_store :: "'k keyring \<Rightarrow> string option \<Rightarrow> ('k, 'u) secrets_world
   \<Rightarrow> (client_error + unit) \<times> ('k, 'u) secrets_world" where
  "restore_raw_store kr v = (case v of
      Some raw \<Rightarrow> set_password kr now_sdk_account raw | None \<Rightarrow> delete_password kr now_sdk_account)"

definition list_sdk_profiles :: "'k keyring \<Rightarrow> sdk_codec \<Rightarrow> ('k, 'u) secrets_world \<Rightarrow> client_error + sdk_profile_summary list" where
  "list_sdk_profiles kr cd w = map_sum id (\<lambda>s. sort_key ps_alias (map (alias_summary \<circ> snd) s)) (load_sdk_store kr cd w)"

definition upsert_basic_alias :: "string \<Rightarrow> string \<Rightarrow> string \<Rightarrow> string \<Rightarrow> bool \<Rightarrow> alias_store \<Rightarrow> alias_store" where
  "upsert_basic_alias alias_name i username password set_default s =
     (let was_default = (case bt_get s alias_name of Some e \<Rightarrow> sa_is_default e | None \<Rightarrow> False);
          s' = bt_insert alias_name \<lparr>sa_is_default = (set_default \<or> was_default), sa_alias = alias_name,
                 sa_creds = SdkBasic i username password\<rparr> s
      in if set_default then map (\<lambda>(n, e). (n, e\<lparr>sa_is_default := (n = alias_name)\<rparr>)) s' else s')"

subsection \<open>Storing a basic login\<close>

definition write_basic_login :: "'k keyring \<Rightarrow> sdk_codec \<Rightarrow> string \<Rightarrow> string \<Rightarrow> string \<Rightarrow> string \<Rightarrow> bool \<Rightarrow> string option \<Rightarrow> bool
   \<Rightarrow> ('k, 'u) secrets_world \<Rightarrow> (client_error + unit) \<times> ('k, 'u) secrets_world" where
  "write_basic_login kr cd profile_name i username password also_now_sdk alias_name set_default w =
     and_then (store_credential kr profile_name ''password'' password w) (\<lambda>_ w.
       if \<not> also_now_sdk then (Inr (), w)
       else (case load_sdk_store kr cd w of
           Inl e \<Rightarrow> (Inl e, w)
         | Inr s \<Rightarrow> save_sdk_store kr cd (upsert_basic_alias
             (case alias_name of Some n \<Rightarrow> n | None \<Rightarrow> profile_name) i username password set_default s) w))"

definition rollback_login :: "'k keyring \<Rightarrow> string \<Rightarrow> string option \<Rightarrow> string option option \<Rightarrow> ('k, 'u) secrets_world
   \<Rightarrow> (client_error + unit) \<times> ('k, 'u) secrets_world" where
  "rollback_login kr profile_name existing_password sdk_snapshot w =
     and_then (restore_stored_credential kr profile_name ''password'' existing_password w) (\<lambda>_ w.
       case sdk_snapshot of None \<Rightarrow> (Inr (), w) | Some snapshot \<Rightarrow> restore_raw_store kr snapshot w)"

definition store_basic_login :: "'k keyring \<Rightarrow> sdk_codec \<Rightarrow> string \<Rightarrow> string \<Rightarrow> string option \<Rightarrow> string \<Rightarrow> bool \<Rightarrow> string option \<Rightarrow> bool
   \<Rightarrow> ('k, 'u) secrets_world \<Rightarrow> (client_error + unit) \<times> ('k, 'u) secrets_world" where
  "store_basic_login kr cd profile_name i username password also_now_sdk alias_name set_default w = (case username of
      None \<Rightarrow> (Inl (Failed ''Basic auth profile is missing a username''), w)
    | Some u \<Rightarrow> (case snapshot_stored_credential kr profile_name ''password'' w of
        Inl e \<Rightarrow> (Inl e, w)
      | Inr existing_password \<Rightarrow>
          (case (if also_now_sdk then map_sum id Some (snapshot_raw_store kr w) else Inr None) of
            Inl e \<Rightarrow> (Inl e, w)
          | Inr sdk_snapshot \<Rightarrow>
              (case write_basic_login kr cd profile_name i u password also_now_sdk alias_name set_default w of
                 (Inr _, w1) \<Rightarrow> (Inr (), w1)
               | (Inl e, w1) \<Rightarrow>
                   and_then (rollback_login kr profile_name existing_password sdk_snapshot w1) (\<lambda>_ w2. (Inl e, w2))))))"

text \<open>A write to the keychain that fails may have touched its own entry, but no other.\<close>

definition failures_are_local :: "'k keyring \<Rightarrow> bool" where
  "failures_are_local kr \<longleftrightarrow>
     (\<forall>s a v k e k'. kr_set kr s a v k = (Inl e, k') \<longrightarrow> (\<forall>t b. (t, b) \<noteq> (s, a) \<longrightarrow> kr_get kr t b k' = kr_get kr t b k))
     \<and> (\<forall>s a k e k'. kr_delete kr s a k = (Inl e, k') \<longrightarrow> (\<forall>t b. (t, b) \<noteq> (s, a) \<longrightarrow> kr_get kr t b k' = kr_get kr t b k))"

lemma failed_set_is_local:
  "failures_are_local kr \<Longrightarrow> kr_set kr s a v k = (Inl e, k') \<Longrightarrow> (t, b) \<noteq> (s, a) \<Longrightarrow> kr_get kr t b k' = kr_get kr t b k"
  unfolding failures_are_local_def by blast

lemma failed_delete_is_local:
  "failures_are_local kr \<Longrightarrow> kr_delete kr s a k = (Inl e, k') \<Longrightarrow> (t, b) \<noteq> (s, a) \<Longrightarrow> kr_get kr t b k' = kr_get kr t b k"
  unfolding failures_are_local_def by blast

lemma save_test_store_Inl: "save_test_store p s w = (Inl e, w') \<Longrightarrow> w' = w"
  by (auto simp: save_test_store_def split: if_splits)

lemma test_store_set_Inl: "test_store_set p a v w = (Inl e, w') \<Longrightarrow> w' = w"
  by (auto simp: test_store_set_def split: sum.splits dest: save_test_store_Inl)

lemma test_store_delete_Inl: "test_store_delete p a w = (Inl e, w') \<Longrightarrow> w' = w"
  by (auto simp: test_store_delete_def split: sum.splits dest: save_test_store_Inl)

lemma on_keyring_Inl:
  "on_keyring rk w = (Inl e, w') \<longleftrightarrow> fst rk = Inl e \<and> w' = w\<lparr>kw_keyring := snd rk\<rparr>"
  by (auto simp: on_keyring_def)

lemma get_password_keyring:
  "test_store_path w = Inr None \<Longrightarrow> get_password kr b (w\<lparr>kw_keyring := k\<rparr>) = kr_get kr (fst b) (snd b) k"
  using test_store_path_env [of "w\<lparr>kw_keyring := k\<rparr>" w] by (simp add: get_password_def)

lemma set_password_other:
  assumes "lawful_keyring kr" "failures_are_local kr" "set_password kr a v w = (r, w')" "b \<noteq> a"
  shows "get_password kr b w' = get_password kr b w"
proof (cases r)
  case (Inr _)
  then show ?thesis
    using secret_store.get_set [OF keychain_store [OF assms(1)], of a v w w' b] assms(3,4) by simp
next
  case (Inl e)
  show ?thesis
  proof (cases "test_store_path w")
    case (Inr p)
    show ?thesis
    proof (cases p)
      case None
      obtain x k' where k: "kr_set kr (fst a) (snd a) v (kw_keyring w) = (x, k')" by (rule prod.exhaust)
      then have "x = Inl e" and w': "w' = w\<lparr>kw_keyring := k'\<rparr>"
        using assms(3) Inl Inr None by (simp_all add: set_password_def on_keyring_Inl)
      moreover have "(fst b, snd b) \<noteq> (fst a, snd a)" using assms(4) by (metis prod.collapse)
      ultimately have "kr_get kr (fst b) (snd b) k' = kr_get kr (fst b) (snd b) (kw_keyring w)"
        using k failed_set_is_local [OF assms(2)] by blast
      then show ?thesis
        using Inr None get_password_keyring [of w kr b k'] unfolding w' by (simp add: get_password_def)
    next
      case (Some p')
      then have "test_store_set p' a v w = (Inl e, w')" using assms(3) Inl Inr by (simp add: set_password_def)
      then have "w' = w" by (rule test_store_set_Inl)
      then show ?thesis by simp
    qed
  qed (use assms(3) in \<open>simp add: set_password_def\<close>)
qed

lemma delete_password_other:
  assumes "lawful_keyring kr" "failures_are_local kr" "delete_password kr a w = (r, w')" "b \<noteq> a"
  shows "get_password kr b w' = get_password kr b w"
proof (cases r)
  case (Inr _)
  then show ?thesis
    using secret_store.get_delete [OF keychain_store [OF assms(1)], of a w w' b] assms(3,4) by simp
next
  case (Inl e)
  show ?thesis
  proof (cases "test_store_path w")
    case (Inr p)
    show ?thesis
    proof (cases p)
      case None
      obtain x k' where k: "kr_delete kr (fst a) (snd a) (kw_keyring w) = (x, k')" by (rule prod.exhaust)
      then have "x = Inl e" and w': "w' = w\<lparr>kw_keyring := k'\<rparr>"
        using assms(3) Inl Inr None by (simp_all add: delete_password_def on_keyring_Inl)
      moreover have "(fst b, snd b) \<noteq> (fst a, snd a)" using assms(4) by (metis prod.collapse)
      ultimately have "kr_get kr (fst b) (snd b) k' = kr_get kr (fst b) (snd b) (kw_keyring w)"
        using k failed_delete_is_local [OF assms(2)] by blast
      then show ?thesis
        using Inr None get_password_keyring [of w kr b k'] unfolding w' by (simp add: get_password_def)
    next
      case (Some p')
      then have "test_store_delete p' a w = (Inl e, w')" using assms(3) Inl Inr by (simp add: delete_password_def)
      then have "w' = w" by (rule test_store_delete_Inl)
      then show ?thesis by simp
    qed
  qed (use assms(3) in \<open>simp add: delete_password_def\<close>)
qed

lemma save_sdk_store_other:
  assumes "lawful_keyring kr" "failures_are_local kr" "save_sdk_store kr cd s w = (r, w')" "b \<noteq> now_sdk_account"
  shows "get_password kr b w' = get_password kr b w"
proof (cases "s = []")
  case True
  then show ?thesis
    using assms(3) delete_password_other [OF assms(1,2) _ assms(4), of w r w'] by (simp add: save_sdk_store_def)
next
  case False
  then show ?thesis
    using assms(3) set_password_other [OF assms(1,2) _ assms(4), of "sdk_encode cd s" w r w'] by (simp add: save_sdk_store_def)
qed

lemma account_is_not_now_sdk [simp]: "credential_account p t \<noteq> now_sdk_account" "now_sdk_account \<noteq> credential_account p t"
  by (auto simp: credential_account_def now_sdk_account_def service_name_def)

text \<open>What a login writes, whether it succeeds or not.\<close>

lemma write_basic_login_other:
  assumes laws: "lawful_keyring kr" "failures_are_local kr"
    and "write_basic_login kr cd p i u pw also alias_name d w = (r, w')" "b \<noteq> credential_account p ''password''"
    and "b \<noteq> now_sdk_account \<or> \<not> also"
  shows "get_password kr b w' = get_password kr b w"
proof -
  obtain x w1 where x: "set_password kr (credential_account p ''password'') pw w = (x, w1)" by (rule prod.exhaust)
  then have b1: "get_password kr b w1 = get_password kr b w"
    using set_password_other [OF laws] assms(4) by blast
  show ?thesis
  proof (cases x)
    case (Inl e)
    then show ?thesis using assms(3) x b1 by (auto simp: write_basic_login_def store_credential_def)
  next
    case (Inr _)
    show ?thesis
    proof (cases "also \<and> (\<exists>s. load_sdk_store kr cd w1 = Inr s)")
      case True
      then obtain s where "save_sdk_store kr cd s w1 = (r, w')" "also"
        using assms(3) x Inr by (auto simp: write_basic_login_def store_credential_def)
      then show ?thesis using save_sdk_store_other [OF laws] assms(5) b1 by metis
    next
      case False
      then show ?thesis
        using assms(3) x Inr b1
        by (cases "load_sdk_store kr cd w1") (auto simp: write_basic_login_def store_credential_def split: if_splits)
    qed
  qed
qed

lemma restore_reads:
  assumes "lawful_keyring kr" "restore_stored_credential kr p t v w = (Inr (), w')"
  shows "get_password kr b w' = (if b = credential_account p t then Inr v else get_password kr b w)"
  using assms(2) secret_store.get_restore [OF keychain_store [OF assms(1)], of "credential_account p t" v w w' b]
  by (cases v) (simp_all add: restore_stored_credential_def secret_store.restore_secret_def [OF keychain_store [OF assms(1)]])

lemma restore_raw_reads:
  assumes "lawful_keyring kr" "restore_raw_store kr v w = (Inr (), w')"
  shows "get_password kr b w' = (if b = now_sdk_account then Inr v else get_password kr b w)"
  using assms(2) secret_store.get_restore [OF keychain_store [OF assms(1)], of now_sdk_account v w w' b]
  by (cases v) (simp_all add: restore_raw_store_def secret_store.restore_secret_def [OF keychain_store [OF assms(1)]])


definition full_keyring :: "(string \<times> string \<Rightarrow> string option) keyring" where
  "full_keyring = demo_keyring\<lparr>kr_set := (\<lambda>s a v k. if s = ''ServiceNow'' then (Inl (Failed ''full''), k)
     else (Inr (), k((s, a) \<mapsto> v)))\<rparr>"

definition demo_sdk_codec :: sdk_codec where
  "demo_sdk_codec = \<lparr>sdk_decode = (\<lambda>_. None), sdk_encode = (\<lambda>_. ''{}'')\<rparr>"


text \<open>A default that is set is the only one.\<close>

lemma upsert_basic_alias_default:
  "(n, e) \<in> set (upsert_basic_alias a i u p True s) \<Longrightarrow> sa_is_default e \<longleftrightarrow> n = a"
  by (auto simp: upsert_basic_alias_def Let_def)

lemma upsert_basic_alias_get:
  "\<not> d \<Longrightarrow> bt_get (upsert_basic_alias a i u p d s) n = (if n = a
     then Some \<lparr>sa_is_default = (case bt_get s a of Some e \<Rightarrow> sa_is_default e | None \<Rightarrow> False), sa_alias = a, sa_creds = SdkBasic i u p\<rparr>
     else bt_get s n)"
  by (simp add: upsert_basic_alias_def Let_def bt.get_insert split: option.split)

subsection \<open>Logout, status and token\<close>

definition uses_authorization_code_grant :: "profile \<Rightarrow> bool" where
  "uses_authorization_code_grant profile \<longleftrightarrow> pr_auth_method profile = Oauth2
     \<and> pr_oauth_grant_type profile = Some AuthorizationCode"

definition credential_types_of :: "profile \<Rightarrow> string list" where
  "credential_types_of profile = (case pr_auth_method profile of
      Basic \<Rightarrow> [''password''] | ApiKey \<Rightarrow> [''api_token'']
    | Oauth2 \<Rightarrow> (case grant_of profile of PasswordGrant \<Rightarrow> [''client_secret'', ''password'']
        | AuthorizationCode \<Rightarrow> [''oauth_token''] | ClientCredentials \<Rightarrow> [''client_secret''])
    | Mtls \<Rightarrow> [''cert_passphrase''] | NativeSession \<Rightarrow> [''native_session''] | BrowserSession \<Rightarrow> [])"

fun delete_credentials :: "'k keyring \<Rightarrow> string \<Rightarrow> string list \<Rightarrow> ('k, 'u) secrets_world
   \<Rightarrow> (client_error + unit) \<times> ('k, 'u) secrets_world" where
  "delete_credentials kr p [] w = (Inr (), w)"
| "delete_credentials kr p (t # ts) w = and_then (delete_credential kr p t w) (\<lambda>_. delete_credentials kr p ts)"

definition handle_logout :: "'k keyring \<Rightarrow> string \<Rightarrow> profile \<Rightarrow> ('k, 'u) secrets_world
   \<Rightarrow> (client_error + unit) \<times> ('k, 'u) secrets_world" where
  "handle_logout kr p profile w = and_then (delete_credentials kr p (credential_types_of profile) w) (\<lambda>_ w.
     if uses_authorization_code_grant profile then delete_credential kr p ''client_secret'' w else (Inr (), w))"

definition credentials_present :: "'k keyring \<Rightarrow> string \<Rightarrow> profile \<Rightarrow> ('k, 'u) secrets_world \<Rightarrow> bool" where
  "credentials_present kr p profile w =
     (if pr_auth_method profile = BrowserSession then session_cookie_env w \<noteq> None
      else list_all (\<lambda>t. has_credential kr p t w) (credential_types_of profile))"

definition handle_token :: "('k, 'v) auth_env \<Rightarrow> string \<Rightarrow> profile \<Rightarrow> bool \<Rightarrow> ('k, 'v) auth_world
   \<Rightarrow> (client_error + string) \<times> ('k, 'v) auth_world" where
  "handle_token env p profile reveal w =
     (if pr_auth_method profile = NativeSession then (Inl (Failed ''Native session credentials are not exported''), w)
      else if \<not> reveal \<and> pr_auth_method profile \<noteq> Oauth2
      then (Inl (Failed ''auth token prints a short-lived token only for OAuth2 profiles''), w)
      else (case pr_auth_method profile of
          Basic \<Rightarrow> (case get_credential (ae_keyring env) p ''password'' w of
              None \<Rightarrow> (Inl (Failed ''No credentials stored for profile''), w)
            | Some c \<Rightarrow> (Inr (ae_b64 env ((case pr_username profile of Some u \<Rightarrow> u | None \<Rightarrow> []) @ '':'' @ c)), w))
        | Oauth2 \<Rightarrow> (case new_oauth2_auth p profile of
              Inl e \<Rightarrow> (Inl (classify_auth_failure e), w)
            | Inr a \<Rightarrow> (case oauth_authenticate env a w of
                (Inl e, _, w') \<Rightarrow> (Inl (classify_auth_failure e), w')
              | (Inr hs, _, w') \<Rightarrow> (case header_value ''authorization'' hs of
                  None \<Rightarrow> (Inl (Failed ''OAuth authenticator did not return an Authorization header.''), w')
                | Some v \<Rightarrow> (case header_text v of
                    None \<Rightarrow> (Inl (Failed ''header is not text''), w')
                  | Some t \<Rightarrow> (Inr (case strip_prefix ''Bearer '' t of Some x \<Rightarrow> x | None \<Rightarrow> t), w')))))
        | _ \<Rightarrow> (case get_credential (ae_keyring env) p (credential_type_for_auth (pr_auth_method profile)) w of
              None \<Rightarrow> (Inl (Failed ''No credentials stored for profile''), w)
            | Some c \<Rightarrow> (Inr c, w))))"

lemma delete_credentials_reads:
  assumes "lawful_keyring kr" "delete_credentials kr p ts w = (Inr (), w')"
  shows "get_password kr b w' = (if b \<in> credential_account p ` set ts then Inr None else get_password kr b w)"
  using assms(2)
proof (induction ts arbitrary: w)
  case (Cons t ts)
  obtain r w1 where r: "delete_credential kr p t w = (r, w1)" by (rule prod.exhaust)
  then have "r = Inr ()" "delete_credentials kr p ts w1 = (Inr (), w')" using Cons.prems by (cases r; simp)+
  then show ?case
    using Cons.IH [of w1] r secret_store.get_delete [OF keychain_store [OF assms(1)], of "credential_account p t" w w1 b]
    by (auto simp: delete_credential_def)
qed simp

text \<open>After a logout nothing of the profile's own kind of login is left in the keychain.\<close>

lemma logout_leaves_no_credential:
  assumes "lawful_keyring kr" "handle_logout kr p profile w = (Inr (), w')" "t \<in> set (credential_types_of profile)"
  shows "snapshot_stored_credential kr p t w' = Inr None"
proof -
  obtain r w1 where r: "delete_credentials kr p (credential_types_of profile) w = (r, w1)" by (rule prod.exhaust)
  then have r': "delete_credentials kr p (credential_types_of profile) w = (Inr (), w1)"
    using assms(2) by (cases r) (simp_all add: handle_logout_def)
  have gone: "get_password kr (credential_account p t) w1 = Inr None"
    using delete_credentials_reads [OF assms(1) r', of "credential_account p t"] assms(3) by auto
  show ?thesis
  proof (cases "uses_authorization_code_grant profile")
    case True
    then have "delete_password kr (credential_account p ''client_secret'') w1 = (Inr (), w')"
      using assms(2) r' by (simp add: handle_logout_def delete_credential_def)
    then show ?thesis
      using secret_store.get_delete [OF keychain_store [OF assms(1)], of _ w1 w' "credential_account p t"] gone
      by (auto simp: snapshot_stored_credential_def)
  next
    case False
    then show ?thesis using assms(2) r' gone by (simp add: handle_logout_def snapshot_stored_credential_def)
  qed
qed

text \<open>Without \<open>--reveal\<close> only an access token is printed.\<close>

lemma token_needs_reveal:
  "handle_token env p profile False w = (Inr t, w') \<Longrightarrow> pr_auth_method profile = Oauth2"
  by (auto simp: handle_token_def split: if_splits)

end
