(* ===== verification/Login.thy ===== *)
theory Login
  imports Auth_Commands Cli_Args
begin

text \<open>
  The login command of \<open>src/src/cli/commands/auth.rs\<close>: where a secret comes from, the two browser
  flows, and what is stored for each kind of profile. \<open>login_io\<close> holds what is outside the program:
  the terminal, standard input (which can be read once; a second read finds it empty), the bound
  port, the bytes of the browser's request, the random bytes and SHA-256 with base64
  (\<open>pkce_code_challenge_s256\<close>).
\<close>

record login_io =
  li_tty :: bool
  li_stdin :: "client_error + string"
  li_prompt :: "client_error + string"
  li_bind :: "string \<Rightarrow> nat \<Rightarrow> client_error + nat"
  li_connection :: "string list option"
  li_state_bytes :: string
  li_verifier_bytes :: string
  li_challenge :: "string \<Rightarrow> string"

definition stdin_left :: "login_io \<Rightarrow> bool \<Rightarrow> client_error + string" where
  "stdin_left io consumed = (if consumed then Inr [] else li_stdin io)"

definition trim_line_ends :: "string \<Rightarrow> string" where
  "trim_line_ends s = rev (dropWhile (\<lambda>c. c \<in> {carriage_return, line_feed}) (rev s))"

definition read_secret_from_stdin :: "client_error + string \<Rightarrow> client_error + string" where
  "read_secret_from_stdin contents = bind_result contents (\<lambda>buf.
     if trim_line_ends buf = [] then Inl (Failed ''Empty credential provided on stdin. Aborting.'')
     else Inr (trim_line_ends buf))"

definition not_empty :: "string \<Rightarrow> client_error + string" where
  "not_empty v = (if v = [] then Inl (Failed ''Empty credential provided. Aborting.'') else Inr v)"

definition resolve_secret :: "login_io \<Rightarrow> bool \<Rightarrow> string option \<Rightarrow> bool \<Rightarrow> client_error + string" where
  "resolve_secret io consumed flag_value stdin_flag = (case flag_value of
      Some v \<Rightarrow> not_empty v
    | None \<Rightarrow> if stdin_flag then read_secret_from_stdin (stdin_left io consumed)
        else if li_tty io then bind_result (li_prompt io) not_empty
        else Inl (Failed ''credential required''))"

definition resolve_optional_secret :: "login_io \<Rightarrow> string option \<Rightarrow> bool \<Rightarrow> client_error + string option" where
  "resolve_optional_secret io flag_value stdin_flag = (case flag_value of
      Some v \<Rightarrow> map_sum id Some (not_empty v)
    | None \<Rightarrow> if stdin_flag then map_sum id Some (read_secret_from_stdin (li_stdin io)) else Inr None)"

definition validate_session_cookie :: "string \<Rightarrow> client_error + string" where
  "validate_session_cookie v =
     (if trim v = [] then Inl (Failed ''Empty credential provided. Aborting.'')
      else if \<not> str_contains (trim v) ''JSESSIONID=''
      then Inl (Failed ''The ServiceNow session cookie must include JSESSIONID=.'')
      else Inr (trim v))"

definition resolve_browser_session_cookie :: "login_io \<Rightarrow> string option \<Rightarrow> bool \<Rightarrow> client_error + string" where
  "resolve_browser_session_cookie io flag_value stdin_flag = (case flag_value of
      Some v \<Rightarrow> validate_session_cookie v
    | None \<Rightarrow> if stdin_flag then bind_result (read_secret_from_stdin (li_stdin io)) validate_session_cookie
        else if li_tty io then bind_result (li_prompt io) validate_session_cookie
        else Inl (Failed ''Session cookie required for browser-session auth in non-interactive mode''))"

subsection \<open>The browser flows\<close>

datatype manual_code_source = CodeFromStdin | CodeFromPrompt

definition code_source :: "bool \<Rightarrow> bool \<Rightarrow> client_error + manual_code_source" where
  "code_source code_stdin is_tty =
     (if code_stdin then Inr CodeFromStdin else if is_tty then Inr CodeFromPrompt
      else Inl (Failed ''--sdk-oauth needs the authorization code, but stdin is not a terminal''))"

definition validate_authorization_code :: "string \<Rightarrow> client_error + string" where
  "validate_authorization_code raw =
     (if trim raw = [] then Inl (Failed ''Empty authorization code provided. Aborting.'') else Inr (trim raw))"

definition read_manual_authorization_code :: "login_io \<Rightarrow> bool \<Rightarrow> manual_code_source \<Rightarrow> client_error + string" where
  "read_manual_authorization_code io consumed source = bind_result
     (case source of CodeFromStdin \<Rightarrow> read_secret_from_stdin (stdin_left io consumed) | CodeFromPrompt \<Rightarrow> li_prompt io)
     validate_authorization_code"

definition run_oauth_sdk_manual_code_login :: "('k, 'v) auth_env \<Rightarrow> login_io \<Rightarrow> profile \<Rightarrow> string option \<Rightarrow> client_error + string
   \<Rightarrow> ('k, 'v) auth_world \<Rightarrow> (client_error + stored_oauth_token) \<times> ('k, 'v) auth_world" where
  "run_oauth_sdk_manual_code_login env io profile client_secret code w =
     (let verifier = random_hex_nonce (li_verifier_bytes io) in
      case authorization_url profile sdk_oauth_redirect_uri (random_hex_nonce (li_state_bytes io))
             (li_challenge io verifier) (Some (sdk_oauth_scope profile)) of
        Inl e \<Rightarrow> (Inl e, w)
      | Inr auth_url \<Rightarrow> (case code of
          Inl e \<Rightarrow> (Inl e, w)
        | Inr c \<Rightarrow> exchange_authorization_code env profile c sdk_oauth_redirect_uri client_secret verifier w))"

definition run_oauth_authorization_code_login :: "('k, 'v) auth_env \<Rightarrow> login_io \<Rightarrow> profile \<Rightarrow> string option
   \<Rightarrow> ('k, 'v) auth_world \<Rightarrow> (client_error + stored_oauth_token \<times> string) \<times> ('k, 'v) auth_world" where
  "run_oauth_authorization_code_login env io profile client_secret w =
     (case bind_result (validate_oauth_redirect_host (oauth_redirect_host profile))
             (\<lambda>_. li_bind io (oauth_redirect_host profile) (oauth_redirect_port profile)) of
        Inl e \<Rightarrow> (Inl e, w)
      | Inr actual_port \<Rightarrow>
          (let redirect_uri = loopback_redirect_uri profile actual_port;
               state = random_hex_nonce (li_state_bytes io);
               verifier = random_hex_nonce (li_verifier_bytes io)
           in case authorization_url profile redirect_uri state (li_challenge io verifier) (oauth_scope profile) of
                Inl e \<Rightarrow> (Inl e, w)
              | Inr auth_url \<Rightarrow> (case fst (wait_for_oauth_redirect (li_connection io) (oauth_redirect_path profile) state) of
                  Inl e \<Rightarrow> (Inl (Failed (callback_error_text e)), w)
                | Inr code \<Rightarrow> and_then (exchange_authorization_code env profile code redirect_uri client_secret verifier w)
                    (\<lambda>token w. (Inr (token, redirect_uri), w)))))"

subsection \<open>What a login stores\<close>

datatype login_report = LoginStored | LoginVerified string stored_oauth_token | CookieReady string

definition login_authorization_code :: "('k, 'v) auth_env \<Rightarrow> login_io \<Rightarrow> string \<Rightarrow> profile \<Rightarrow> login_args
   \<Rightarrow> ('k, 'v) auth_world \<Rightarrow> (client_error + login_report) \<times> ('k, 'v) auth_world" where
  "login_authorization_code env io p profile la w =
     (case (if la_sdk_oauth la then map_sum id Some (code_source (la_code_stdin la) (li_tty io)) else Inr None) of
        Inl e \<Rightarrow> (Inl e, w)
      | Inr manual_code \<Rightarrow> (case resolve_optional_secret io (la_client_secret la) (la_client_secret_stdin la) of
          Inl e \<Rightarrow> (Inl e, w)
        | Inr secret \<Rightarrow>
            and_then (case secret of Some s \<Rightarrow> store_credential (ae_keyring env) p ''client_secret'' s w
                        | None \<Rightarrow> delete_credential (ae_keyring env) p ''client_secret'' w) (\<lambda>_ w.
            and_then (case manual_code of
                None \<Rightarrow> run_oauth_authorization_code_login env io profile secret w
              | Some source \<Rightarrow> and_then (run_oauth_sdk_manual_code_login env io profile secret
                  (read_manual_authorization_code io (la_client_secret la = None \<and> la_client_secret_stdin la) source) w)
                  (\<lambda>token w. (Inr (token, sdk_oauth_redirect_uri), w))) (\<lambda>(token, redirect_uri) w.
            and_then (store_credential (ae_keyring env) p ''oauth_token''
                (env_print_json (ae_http env) (encode_stored_token token)) w) (\<lambda>_ w.
              (Inr (LoginVerified redirect_uri token), w))))))"

definition login_client_secret :: "('k, 'v) auth_env \<Rightarrow> login_io \<Rightarrow> string \<Rightarrow> profile \<Rightarrow> login_args
   \<Rightarrow> ('k, 'v) auth_world \<Rightarrow> (client_error + login_report) \<times> ('k, 'v) auth_world" where
  "login_client_secret env io p profile la w = (case resolve_secret io False (la_client_secret la) (la_client_secret_stdin la) of
      Inl e \<Rightarrow> (Inl e, w)
    | Inr secret \<Rightarrow> and_then (store_credential (ae_keyring env) p ''client_secret'' secret w) (\<lambda>_ w.
        if grant_of profile \<noteq> PasswordGrant then (Inr LoginStored, w)
        else (case resolve_secret io (la_client_secret la = None \<and> la_client_secret_stdin la) (la_password la) (la_password_stdin la) of
            Inl e \<Rightarrow> (Inl e, w)
          | Inr pw \<Rightarrow> and_then (store_credential (ae_keyring env) p ''password'' pw w) (\<lambda>_ w. (Inr LoginStored, w)))))"

definition handle_login :: "('k, 'v) auth_env \<Rightarrow> sdk_codec \<Rightarrow> login_io \<Rightarrow> string \<Rightarrow> profile \<Rightarrow> login_args
   \<Rightarrow> ('k, 'v) auth_world \<Rightarrow> (client_error + login_report) \<times> ('k, 'v) auth_world" where
  "handle_login env cd io p profile la w =
     (if la_set_now_sdk_default la \<and> \<not> la_also_now_sdk la
      then (Inl (Failed ''--set-now-sdk-default requires --also-now-sdk''), w)
      else if la_also_now_sdk la \<and> pr_auth_method profile \<noteq> Basic
      then (Inl (Failed ''--also-now-sdk is only supported for basic auth profiles''), w)
      else if la_sdk_oauth la \<and> \<not> uses_authorization_code_grant profile
      then (Inl (Failed ''--sdk-oauth requires an OAuth2 profile with the authorization-code grant''), w)
      else (case pr_auth_method profile of
          Basic \<Rightarrow> (case resolve_secret io False (la_password la) (la_password_stdin la) of
              Inl e \<Rightarrow> (Inl e, w)
            | Inr pw \<Rightarrow> and_then (store_basic_login (ae_keyring env) cd p (pr_instance profile) (pr_username profile) pw
                (la_also_now_sdk la) (la_now_sdk_alias la) (la_set_now_sdk_default la) w) (\<lambda>_ w. (Inr LoginStored, w)))
        | ApiKey \<Rightarrow> (case resolve_secret io False (la_token la) (la_token_stdin la) of
              Inl e \<Rightarrow> (Inl e, w)
            | Inr tok \<Rightarrow> and_then (store_credential (ae_keyring env) p ''api_token'' tok w) (\<lambda>_ w. (Inr LoginStored, w)))
        | Oauth2 \<Rightarrow> if grant_of profile = AuthorizationCode then login_authorization_code env io p profile la w
            else login_client_secret env io p profile la w
        | BrowserSession \<Rightarrow> (case resolve_browser_session_cookie io (la_session_cookie la) (la_session_cookie_stdin la) of
              Inl e \<Rightarrow> (Inl e, w) | Inr cookie \<Rightarrow> (Inr (CookieReady cookie), w))
        | NativeSession \<Rightarrow> (Inl (Failed ''Use session login or session attach''), w)
        | Mtls \<Rightarrow> (Inl (Failed ''Auth method does not support auth login''), w)))"

text \<open>A missing source of the code fails before any change of the keychain.\<close>

lemma missing_code_source_changes_nothing:
  "la_sdk_oauth la \<Longrightarrow> \<not> la_code_stdin la \<Longrightarrow> \<not> li_tty io \<Longrightarrow> \<exists>e. login_authorization_code env io p profile la w = (Inl e, w)"
  by (simp add: login_authorization_code_def code_source_def)

text \<open>Browser session cookies are never stored.\<close>

lemma browser_login_stores_nothing:
  "pr_auth_method profile = BrowserSession \<Longrightarrow> snd (handle_login env cd io p profile la w) = w"
  by (simp add: handle_login_def split: sum.split)

lemma and_then_Inr: "and_then rs f = (Inr y, s') \<Longrightarrow> \<exists>x s. rs = (Inr x, s) \<and> f x s = (Inr y, s')"
  by (cases rs; cases "fst rs") auto

lemma exchange_authorization_code_Inr:
  assumes "exchange_authorization_code env profile code redirect_uri secret verifier w = (Inr token, w')"
  shows "pred_option (\<lambda>e. e \<le> usize_max) (so_expires_at token)
    \<and> sends_tokens (env_urls (ae_http env)) (token_url_for_instance (pr_instance profile)) 1 w w'"
proof -
  obtain body ts where sent: "send_oauth_token_request env (token_url_for_instance (pr_instance profile)) body w = (Inr ts, w')"
      "token = ts_stored ts"
    using assms by (auto simp: exchange_authorization_code_def split: option.splits dest!: and_then_Inr)
  obtain n where "so_expires_at token = Some (saturating_add (epoch_now env w') n)"
    using send_oauth_token_request_Inr [OF sent(1)] sent(2) by blast
  then show ?thesis
    using send_oauth_token_request_sends [OF sent(1)] by (simp add: saturating_add_def)
qed

lemma delete_password_rest [simp]: "kw_rest (snd (delete_password kr sa w)) = kw_rest w"
  by (auto simp: delete_password_def test_store_delete_def save_test_store_def on_keyring_def split: sum.splits option.splits)

lemma delete_credential_rest: "delete_credential kr p t w = (r, w') \<Longrightarrow> kw_rest w' = kw_rest w"
  using delete_password_rest [of kr "credential_account p t" w] by (simp add: delete_credential_def)

text \<open>
  After a successful browser login the next run of the program reads back exactly the token the
  login obtained; it was exchanged at the instance of the profile with at most one request.
\<close>

theorem browser_login_is_read_back:
  assumes "handle_login env cd io p profile la w = (Inr report, w')" "uses_authorization_code_grant profile"
    and "lawful_keyring (ae_keyring env)"
    and "\<forall>j. env_parse_json (ae_http env) (env_print_json (ae_http env) j) = Some j"
    and "new_oauth2_auth p profile = Inr a"
  shows "\<exists>redirect_uri token. report = LoginVerified redirect_uri token
    \<and> get_stored_oauth_token env a w' = Inr (Some token)
    \<and> sends_tokens (env_urls (ae_http env)) (oauth_token_url a) 1 w w'"
proof -
  have "handle_login env cd io p profile la w = login_authorization_code env io p profile la w"
    using assms(1,2) by (auto simp: handle_login_def uses_authorization_code_grant_def grant_of_def split: if_splits)
  then have login: "login_authorization_code env io p profile la w = (Inr report, w')" using assms(1) by simp
  obtain manual_code where "(if la_sdk_oauth la then map_sum id Some (code_source (la_code_stdin la) (li_tty io)) else Inr None) = Inr manual_code"
    using login by (cases "if la_sdk_oauth la then map_sum id Some (code_source (la_code_stdin la) (li_tty io)) else Inr None")
      (simp_all add: login_authorization_code_def)
  moreover obtain secret where "resolve_optional_secret io (la_client_secret la) (la_client_secret_stdin la) = Inr secret"
    using login calculation by (cases "resolve_optional_secret io (la_client_secret la) (la_client_secret_stdin la)")
      (simp_all add: login_authorization_code_def)
  ultimately obtain w1 w2 token redirect_uri where l:
      "(case secret of Some s \<Rightarrow> store_credential (ae_keyring env) p ''client_secret'' s w
          | None \<Rightarrow> delete_credential (ae_keyring env) p ''client_secret'' w) = (Inr (), w1)"
      "(case manual_code of
          None \<Rightarrow> run_oauth_authorization_code_login env io profile secret w1
        | Some source \<Rightarrow> and_then (run_oauth_sdk_manual_code_login env io profile secret
            (read_manual_authorization_code io (la_client_secret la = None \<and> la_client_secret_stdin la) source) w1)
            (\<lambda>token w. (Inr (token, sdk_oauth_redirect_uri), w))) = (Inr (token, redirect_uri), w2)"
      "store_credential (ae_keyring env) p ''oauth_token'' (env_print_json (ae_http env) (encode_stored_token token)) w2 = (Inr (), w')"
      "report = LoginVerified redirect_uri token"
    using login by (simp add: login_authorization_code_def) (auto dest!: and_then_Inr)
  obtain code uri verifier where x: "exchange_authorization_code env profile code uri secret verifier w1 = (Inr token, w2)"
    using l(2) by (auto simp: run_oauth_authorization_code_login_def run_oauth_sdk_manual_code_login_def Let_def
        split: option.splits sum.splits dest!: and_then_Inr)
  have rest: "kw_rest w1 = kw_rest w" "kw_rest w' = kw_rest w2"
    using l(1,3) by (auto split: option.splits dest: store_credential_rest delete_credential_rest)
  have a: "oa_profile_name a = p" "oa_instance a = pr_instance profile"
    using assms(5) by (auto simp: new_oauth2_auth_def split: option.splits if_splits)
  have "get_credential (ae_keyring env) p ''oauth_token'' w' = Some (env_print_json (ae_http env) (encode_stored_token token))"
    using stored_credential_is_read [OF assms(3) l(3)] .
  then have "get_stored_oauth_token env a w' = Inr (Some token)"
    using assms(4) exchange_authorization_code_Inr [OF x] decode_encode_stored_token [of token] a
    by (simp add: get_stored_oauth_token_def)
  moreover have "sends_tokens (env_urls (ae_http env)) (oauth_token_url a) 1 w w'"
    using exchange_authorization_code_Inr [OF x] a rest by (simp add: oauth_token_url_def sends_tokens_def)
  ultimately show ?thesis using l(4) by blast
qed

end
