(* ===== verification/Native_Session.thy ===== *)
theory Native_Session
  imports Profile_Clients Dictionary
begin

text \<open>
  Native UI sessions: \<open>src/src/client/native_session.rs\<close> with the page decoder of
  \<open>src/src/client/session_bootstrap.rs\<close>, the data of \<open>src/src/models/session.rs\<close> and the identity
  lookups of \<open>src/src/client/identity.rs\<close>. A session is inspected by reads only, and a switch of its
  context is one write between two inspections.
\<close>

subsection \<open>The session data of a page\<close>

definition utf8_encode :: "nat \<Rightarrow> string" where
  "utf8_encode n = map char_of
     (if n < 128 then [n]
      else if n < 2048 then [192 + n div 64, 128 + n mod 64]
      else if n < 65536 then [224 + n div 4096, 128 + n div 64 mod 64, 128 + n mod 64]
      else [240 + n div 262144, 128 + n div 4096 mod 64, 128 + n div 64 mod 64, 128 + n mod 64])"

text \<open>\<open>u16::from_str_radix(digits, 16)\<close> on at most four characters.\<close>

definition u16_from_hex :: "string \<Rightarrow> nat option" where
  "u16_from_hex s =
     (let ds = (case s of c # r \<Rightarrow> if c = CHR ''+'' then r else s | [] \<Rightarrow> [])
      in if ds = [] then None else map_option (foldl (\<lambda>n d. 16 * n + d) 0) (those (map hex_value ds)))"

definition simple_escape :: "char \<Rightarrow> string" where
  "simple_escape e = (if e = CHR ''n'' then [CHR 0x0A] else if e = CHR ''r'' then [CHR 0x0D]
     else if e = CHR ''t'' then [CHR 0x09] else if e = CHR ''b'' then [CHR 0x08]
     else if e = CHR ''f'' then [CHR 0x0C] else if e = CHR 0x0A then [] else [e])"

text \<open>The escape \<open>\u\<close>: what it stands for, and the rest of the literal.\<close>

definition unicode_escape :: "string \<Rightarrow> (string \<times> string) option" where
  "unicode_escape s = (case u16_from_hex (take 4 s) of
      None \<Rightarrow> None
    | Some code \<Rightarrow>
        if 0xD800 \<le> code \<and> code \<le> 0xDBFF then
          (case drop 4 s of
             b # u # t \<Rightarrow>
               if b \<noteq> CHR 0x5C \<or> u \<noteq> CHR ''u'' then None
               else (case u16_from_hex (take 4 t) of
                   None \<Rightarrow> None
                 | Some low \<Rightarrow>
                     if \<not> (0xDC00 \<le> low \<and> low \<le> 0xDFFF) then None
                     else Some (utf8_encode (0x10000 + (code - 0xD800) * 1024 + (low - 0xDC00)), drop 4 t))
           | _ \<Rightarrow> None)
        else if 0xDC00 \<le> code \<and> code \<le> 0xDFFF then None
        else Some (utf8_encode code, drop 4 s))"

lemma unicode_escape_shorter: "unicode_escape s = Some (d, t) \<Longrightarrow> length t \<le> length s"
  by (auto simp: unicode_escape_def split: option.splits if_splits list.splits)
    (metis (no_types) diff_le_self le_SucI le_trans length_Cons length_drop)+

function decode_literal :: "char \<Rightarrow> string \<Rightarrow> string option" where
  "decode_literal quote [] = None"
| "decode_literal quote (c # s) =
     (if c = quote then Some []
      else if c \<noteq> CHR 0x5C then map_option ((#) c) (decode_literal quote s)
      else (case s of
          [] \<Rightarrow> None
        | e # s' \<Rightarrow>
            if e = CHR ''u'' then
              (case unicode_escape s' of
                 None \<Rightarrow> None
               | Some (d, t) \<Rightarrow> map_option ((@) d) (decode_literal quote t))
            else map_option ((@) (simple_escape e)) (decode_literal quote s')))"
  by pat_completeness auto
termination
  by (relation "measure (length \<circ> snd)") (auto dest: unicode_escape_shorter)

fun split_once_str :: "string \<Rightarrow> string \<Rightarrow> (string \<times> string) option" where
  "split_once_str sep [] = (if sep = [] then Some ([], []) else None)"
| "split_once_str sep (c # s) =
     (if starts_with (c # s) sep then Some ([], drop (length sep) (c # s))
      else map_option (\<lambda>(a, b). (c # a, b)) (split_once_str sep s))"

definition session_marker :: string where
  "session_marker = ''uxGlobals.session = JSON.parse(''"

definition parse_bootstrap :: "json_parser \<Rightarrow> string \<Rightarrow> json option" where
  "parse_bootstrap parse body = (case split_once_str session_marker body of
      None \<Rightarrow> None
    | Some (_, rest) \<Rightarrow> (case trim_start rest of
        [] \<Rightarrow> None
      | quote # s \<Rightarrow>
          if quote \<notin> {CHR 0x27, CHR 0x22} then None else Option.bind (decode_literal quote s) parse))"

subsection \<open>The data of a session\<close>

record session_user =
  su_sys_id :: string
  su_user_name :: string
  su_display_name :: "string option"

record session_selection =
  sl_id :: string
  sl_name :: "string option"
  sl_scope :: "string option"

datatype switch_kind = DomainContext | ApplicationContext | UpdatesetContext

record session_inspection =
  si_instance :: string
  si_authenticated_user :: "string option"
  si_effective_user :: session_user
  si_impersonating :: "bool option"
  si_domain :: "session_selection option"
  si_application :: "session_selection option"
  si_update_set :: "session_selection option"
  si_home_domain :: "string option"
  si_roles :: "string list option"
  si_available_elevated_roles :: "string list option"
  si_active_elevated_roles :: "string list option"
  si_settings :: json
  si_session_properties :: json
  si_unavailable :: "string list"

definition selection_of :: "session_inspection \<Rightarrow> switch_kind \<Rightarrow> session_selection option" where
  "selection_of i kind = (case kind of DomainContext \<Rightarrow> si_domain i
     | ApplicationContext \<Rightarrow> si_application i | UpdatesetContext \<Rightarrow> si_update_set i)"

definition switch_endpoint :: "switch_kind \<Rightarrow> string" where
  "switch_endpoint kind = (case kind of DomainContext \<Rightarrow> ''domain''
     | ApplicationContext \<Rightarrow> ''application'' | UpdatesetContext \<Rightarrow> ''updateset'')"

definition picker_path :: "switch_kind \<Rightarrow> string" where
  "picker_path kind = ''/api/now/ui/concoursepicker/'' @ switch_endpoint kind"

definition has_complete_context :: "session_inspection \<Rightarrow> bool" where
  "has_complete_context i \<longleftrightarrow> si_domain i \<noteq> None \<and> si_application i \<noteq> None \<and> si_update_set i \<noteq> None"

definition json_text :: "json \<Rightarrow> string \<Rightarrow> string option" where
  "json_text v key = Option.bind (json_get key v) json_as_str"

definition string_array :: "json option \<Rightarrow> string list option" where
  "string_array v = Option.bind (Option.bind v json_as_array) (\<lambda>vs. those (map json_as_str vs))"

definition json_selection :: "json option \<Rightarrow> string \<Rightarrow> session_selection option" where
  "json_selection v key = Option.bind v (\<lambda>value. case json_text value key of
      None \<Rightarrow> None
    | Some i \<Rightarrow> if i = [] then None else Some \<lparr>sl_id = i,
        sl_name = (case json_text value ''name'' of Some n \<Rightarrow> Some n | None \<Rightarrow> json_text value ''label''),
        sl_scope = json_text value ''scopeName''\<rparr>)"

definition or_null :: "json option \<Rightarrow> json" where
  "or_null v = (case v of Some x \<Rightarrow> x | None \<Rightarrow> JNull)"

definition json_whitelist :: "json \<Rightarrow> string list \<Rightarrow> json" where
  "json_whitelist v keys = JObject (map (\<lambda>k. (k, or_null (json_get k v))) keys)"

subsection \<open>Reading a session\<close>

definition native_bootstrap_path :: string where
  "native_bootstrap_path = ''/navpage.do''"

definition native_credentials :: "('a, 'w) auth_ops \<Rightarrow> ('a, 'w, native_session) client_op" where
  "native_credentials au s = (case native_session_credentials au (sc_authenticator (fst s)) of
      Some n \<Rightarrow> (Inr n, s) | None \<Rightarrow> (Inl (Failed ''This command requires a native_session profile''), s))"

definition not_logged_in :: client_error where
  "not_logged_in = Failed ''Native session has expired or is not authenticated; log in or attach again''"

text \<open>\<open>for _ in 0..5\<close>; \<open>n\<close> hops are left.\<close>

fun native_bootstrap_hops :: "'w client_env \<Rightarrow> ('a, 'w) auth_ops \<Rightarrow> nat \<Rightarrow> string \<Rightarrow> ('a, 'w, http_response) client_op" where
  "native_bootstrap_hops env au 0 url s = (Inl (Failed ''Native session bootstrap exceeded the redirect limit''), s)"
| "native_bootstrap_hops env au (Suc n) url s =
     and_then (on_authenticator (authenticate au) s) (\<lambda>auth_headers s.
     and_then (send_request env (plain_get url (html_accept # auth_headers)) s) (\<lambda>response s.
     and_then (on_authenticator (observe_response_headers au (rs_headers response)) s) (\<lambda>_ s.
       if logged_in_header_value (rs_headers response) = Some False then (Inl not_logged_in, s)
       else if is_redirection response then
         (case Option.bind (header_value ''location'' (rs_headers response)) header_text of
            None \<Rightarrow> (Inl (Failed ''Native bootstrap redirect has no Location''), s)
          | Some location \<Rightarrow>
              (case Option.bind (parse_url (env_urls env) url) (\<lambda>u. join_url (env_urls env) u location) of
                 None \<Rightarrow> (Inl (Failed ''invalid URL''), s)
               | Some next_url \<Rightarrow>
                   if url_path next_url = ''/login.do''
                   then (Inl (Failed ''Native session redirected to login; log in or attach again''), s)
                   else (case authorize_instance_request env (fst s) GET (url_text next_url) of
                       Inl e \<Rightarrow> (Inl e, s)
                     | Inr url' \<Rightarrow> native_bootstrap_hops env au n url' s)))
       else if \<not> is_success response then (Inl (api_failure env (fst s) (rs_status response) None), s)
       else (Inr response, s))))"

definition native_bootstrap_response :: "'w client_env \<Rightarrow> ('a, 'w) auth_ops \<Rightarrow> ('a, 'w, http_response) client_op" where
  "native_bootstrap_response env au s = (case authorize_instance_request env (fst s) GET native_bootstrap_path of
      Inl e \<Rightarrow> (Inl e, s) | Inr url \<Rightarrow> native_bootstrap_hops env au 5 url s)"

definition refresh_native_csrf :: "'w client_env \<Rightarrow> ('a, 'w) auth_ops \<Rightarrow> ('a, 'w, json) client_op" where
  "refresh_native_csrf env au s =
     and_then (native_credentials au s) (\<lambda>_ s.
     and_then (native_bootstrap_response env au s) (\<lambda>response s.
       if logged_in_header_value (rs_headers response) = Some False then (Inl not_logged_in, s)
       else (case response_text response of
           Inl e \<Rightarrow> (Inl e, s)
         | Inr body \<Rightarrow> (case extract_g_ck_from_body body of
             None \<Rightarrow> (Inl (Failed ''Native session bootstrap did not return a CSRF token''), s)
           | Some token \<Rightarrow>
               and_then (on_authenticator (update_native_csrf au token) s) (\<lambda>_ s.
                 let bootstrap = or_null (parse_bootstrap (env_parse_json env) body) in
                 if Option.bind (json_pointer [''output'', ''isLoggedIn''] bootstrap) json_as_bool = Some False
                 then (Inl (Failed ''Native session is not logged in; log in or attach again''), s)
                 else (Inr bootstrap, s))))))"

definition native_current_user :: "'w client_env \<Rightarrow> ('a, 'w) auth_ops \<Rightarrow> ('a, 'w, session_user) client_op" where
  "native_current_user env au s =
     and_then (get_json env au Some ''/api/now/ui/user/current_user'' s) (\<lambda>response s.
       (case json_get ''result'' response of
          None \<Rightarrow> Inl (Failed ''Unsupported current-user response'')
        | Some user \<Rightarrow> (case json_text user ''user_sys_id'' of
            None \<Rightarrow> Inl (Failed ''Native session has no authenticated user'')
          | Some i \<Rightarrow>
              if i = [] then Inl (Failed ''Native session has no authenticated user'')
              else (case json_text user ''user_name'' of
                  None \<Rightarrow> Inl (Failed ''Native session is unauthenticated or expired'')
                | Some n \<Rightarrow>
                    if n = ''guest'' \<or> n = [] then Inl (Failed ''Native session is unauthenticated or expired'')
                    else Inr \<lparr>su_sys_id = i, su_user_name = n, su_display_name = json_text user ''user_display_name''\<rparr>)), s))"

text \<open>The record of the user, read for the home domain; a refusal leaves it unavailable.\<close>

definition home_domain_of :: "json \<Rightarrow> string option" where
  "home_domain_of v = Option.bind (case json_pointer [''result'', ''sys_domain'', ''value''] v of
      Some x \<Rightarrow> Some x | None \<Rightarrow> json_pointer [''result'', ''sys_domain''] v) json_as_str"

definition unreadable :: "client_error \<Rightarrow> bool" where
  "unreadable e = (case e of ApiFailed a \<Rightarrow> ae_status a = 403 \<or> ae_status a = 404 | _ \<Rightarrow> False)"

definition read_home_domain :: "'w client_env \<Rightarrow> ('a, 'w) auth_ops \<Rightarrow> string \<Rightarrow> ('a, 'w, string option) client_op" where
  "read_home_domain env au sys_id s =
     (case get_json env au Some (''/api/now/table/sys_user/'' @ sys_id @ ''?sysparm_fields=sys_domain'') s of
        (Inr v, s') \<Rightarrow> (Inr (home_domain_of v), s')
      | (Inl e, s') \<Rightarrow> (if unreadable e then Inr None else Inl e, s'))"

definition active_roles :: "string list option \<Rightarrow> string list option \<Rightarrow> string list option" where
  "active_roles roles available = (case (roles, available) of
      (Some rs, Some av) \<Rightarrow> Some (filter (\<lambda>r. r \<in> set rs) av) | _ \<Rightarrow> None)"

definition settings_keys :: "string list" where
  "settings_keys = [''language'', ''timeZone'', ''dateFormat'', ''timeFormat'', ''dateTimeFormat'', ''locale'',
     ''currency'', ''encryptionContexts'', ''decimalSeparator'', ''groupingSeparator'']"

definition session_property_keys :: "string list" where
  "session_property_keys = [''sessionTimeout'', ''sessionTimeleft'', ''activeSessionTimeleft'']"

definition build_inspection :: "string \<Rightarrow> native_session \<Rightarrow> json \<Rightarrow> session_user \<Rightarrow> json \<Rightarrow> string option \<Rightarrow> session_inspection" where
  "build_inspection base_url credentials bootstrap user ctxt home =
     (let metadata = or_null (json_pointer [''output'', ''user''] bootstrap);
          roles = string_array (json_get ''roles'' metadata);
          available = string_array (json_get ''elevatedRoles'' metadata);
          domain = json_selection (json_get ''currentDomain'' ctxt) ''value'';
          application = json_selection (json_get ''currentApplication'' ctxt) ''sysId'';
          update_set = json_selection (json_get ''currentUpdateSet'' ctxt) ''sysId''
      in \<lparr>si_instance = base_url, si_authenticated_user = ns_authenticated_user credentials, si_effective_user = user,
          si_impersonating = Option.bind (json_get ''isImpersonating'' metadata) json_as_bool,
          si_domain = domain, si_application = application, si_update_set = update_set, si_home_domain = home,
          si_roles = roles, si_available_elevated_roles = available,
          si_active_elevated_roles = active_roles roles available,
          si_settings = json_whitelist metadata settings_keys,
          si_session_properties =
            json_whitelist (or_null (json_pointer [''output'', ''properties''] bootstrap)) session_property_keys,
          si_unavailable = (if metadata = JNull then [''bootstrap_user_metadata''] else [])
            @ (if domain = None then [''domain''] else []) @ (if application = None then [''application''] else [])
            @ (if update_set = None then [''update_set''] else []) @ (if home = None then [''home_domain''] else [])\<rparr>)"

definition inspect_native_session :: "'w client_env \<Rightarrow> ('a, 'w) auth_ops \<Rightarrow> ('a, 'w, session_inspection) client_op" where
  "inspect_native_session env au s =
     and_then (refresh_native_csrf env au s) (\<lambda>bootstrap s.
     and_then (native_credentials au s) (\<lambda>credentials s.
     and_then (native_current_user env au s) (\<lambda>user s.
     and_then (get_json env au Some ''/api/now/ui/concoursepicker/current'' s) (\<lambda>response s.
       case json_get ''result'' response of
         None \<Rightarrow> (Inl (Failed ''Unsupported native picker response''), s)
       | Some ctxt \<Rightarrow>
           if (case json_text (or_null (json_pointer [''output'', ''user''] bootstrap)) ''sys_id'' of
                 Some i \<Rightarrow> i \<noteq> su_sys_id user | None \<Rightarrow> False)
           then (Inl (Failed ''Session identity changed during inspection; run session show again''), s)
           else (case sys_id_try_from (su_sys_id user) of
               Inl _ \<Rightarrow> (Inl (Failed ''invalid sys_id''), s)
             | Inr i \<Rightarrow>
                 and_then (read_home_domain env au (sys_id_as_str i) s) (\<lambda>home s.
                   (Inr (build_inspection (sc_base_url (fst s)) credentials bootstrap user ctxt home), s)))))))"

definition picker_options :: "switch_kind \<Rightarrow> json \<Rightarrow> client_error + session_selection list" where
  "picker_options kind response = (case json_get ''result'' response of
      None \<Rightarrow> Inl (Failed ''Unsupported native picker-options response'')
    | Some result \<Rightarrow>
        (case Option.bind (json_get (if kind = UpdatesetContext then ''updateSet'' else ''list'') result) json_as_array of
           None \<Rightarrow> Inl (Failed ''Native picker did not return selectable options'')
         | Some vs \<Rightarrow>
             Inr (List.map_filter (\<lambda>v. json_selection (Some v) (if kind = DomainContext then ''value'' else ''sysId'')) vs)))"

definition native_session_options :: "'w client_env \<Rightarrow> ('a, 'w) auth_ops \<Rightarrow> switch_kind
   \<Rightarrow> ('a, 'w, session_selection list) client_op" where
  "native_session_options env au kind s =
     and_then (refresh_native_csrf env au s) (\<lambda>_ s.
     and_then (get_json env au Some (picker_path kind) s) (\<lambda>response s. (picker_options kind response, s)))"

subsection \<open>Switching a context\<close>

datatype switch_error =
    SwitchRefused client_error
  | SwitchRequestFailed client_error
  | VerificationFailed client_error
  | SwitchMismatch
  | IncompleteContext

definition names_option :: "switch_kind \<Rightarrow> string \<Rightarrow> session_selection \<Rightarrow> bool" where
  "names_option kind value opt \<longleftrightarrow> sl_id opt = value \<or> (kind = ApplicationContext \<and> sl_scope opt = Some value)"

definition choose_option :: "switch_kind \<Rightarrow> string \<Rightarrow> session_selection list \<Rightarrow> client_error + session_selection" where
  "choose_option kind value options = (case filter (names_option kind value) options of
      [selected] \<Rightarrow> Inr selected
    | _ \<Rightarrow> Inl (Failed ''Requested context is unavailable or ambiguous in the picker of this session''))"

definition switch_body :: "switch_kind \<Rightarrow> session_selection \<Rightarrow> json" where
  "switch_body kind sel = (case kind of
      DomainContext \<Rightarrow> JObject [(''value'', JString (sl_id sel))]
    | ApplicationContext \<Rightarrow> JObject [(''app_id'', JString (sl_id sel))]
    | UpdatesetContext \<Rightarrow> JObject [(''sysId'', JString (sl_id sel)),
        (''name'', (case sl_name sel of Some n \<Rightarrow> JString n | None \<Rightarrow> JNull))])"

text \<open>Before the write: the inspection and the option that is named. Every error refuses the switch.\<close>

definition plan_switch :: "'w client_env \<Rightarrow> ('a, 'w) auth_ops \<Rightarrow> switch_kind \<Rightarrow> string
   \<Rightarrow> ('a, 'w, session_inspection \<times> session_selection) client_op" where
  "plan_switch env au kind value s = (case authorize_instance_request env (fst s) PUT ''/api/now/ui/concoursepicker/current'' of
      Inl e \<Rightarrow> (Inl e, s)
    | Inr _ \<Rightarrow>
        and_then (inspect_native_session env au s) (\<lambda>i s.
          if \<not> has_complete_context i
          then (Inl (Failed ''Cannot switch: all three picker contexts must be available''), s)
          else and_then (native_session_options env au kind s) (\<lambda>options s.
            (map_sum id (Pair i) (choose_option kind value options), s))))"

definition is_selected :: "session_inspection \<Rightarrow> switch_kind \<Rightarrow> session_selection \<Rightarrow> bool" where
  "is_selected i kind sel \<longleftrightarrow> (case selection_of i kind of Some cur \<Rightarrow> sl_id cur = sl_id sel | None \<Rightarrow> False)"

text \<open>The write and the inspection after it.\<close>

definition run_switch :: "'w client_env \<Rightarrow> ('a, 'w) auth_ops \<Rightarrow> switch_kind \<Rightarrow> session_inspection \<Rightarrow> session_selection
   \<Rightarrow> 'a snow_client \<times> 'w host_world
   \<Rightarrow> (switch_error + session_inspection \<times> session_inspection) \<times> ('a snow_client \<times> 'w host_world)" where
  "run_switch env au kind i selected s =
     (case client_put env au (picker_path kind) (env_print_json env (switch_body kind selected)) s of
        (Inl e, s) \<Rightarrow> (Inl (SwitchRequestFailed e), s)
      | (Inr _, s) \<Rightarrow> (case inspect_native_session env au s of
          (Inl e, s) \<Rightarrow> (Inl (VerificationFailed e), s)
        | (Inr after, s) \<Rightarrow>
            (if \<not> has_complete_context after then Inl IncompleteContext
             else if \<not> is_selected after kind selected then Inl SwitchMismatch
             else Inr (i, after), s)))"

definition switch_native_session :: "'w client_env \<Rightarrow> ('a, 'w) auth_ops \<Rightarrow> switch_kind \<Rightarrow> string
   \<Rightarrow> 'a snow_client \<times> 'w host_world
   \<Rightarrow> (switch_error + session_inspection \<times> session_inspection) \<times> ('a snow_client \<times> 'w host_world)" where
  "switch_native_session env au kind value s = (case plan_switch env au kind value s of
      (Inl e, s) \<Rightarrow> (Inl (SwitchRefused e), s)
    | (Inr (i, selected), s) \<Rightarrow>
        if is_selected i kind selected then (Inr (i, i), s)
        else run_switch env au kind i selected s)"

subsection \<open>Logging in\<close>

text \<open>A client of the same instance, time-out and policy that has the session and nothing else.\<close>

definition transient_native_client :: "('k, 'v) auth_env \<Rightarrow> (string \<Rightarrow> instance_parts) \<Rightarrow> 'a snow_client
   \<Rightarrow> native_session \<Rightarrow> build_error + authenticator snow_client" where
  "transient_native_client aenv parts c session =
     bind_result (map_sum ClientRefused id (ensure_session_instance (env_urls (ae_http aenv)) session (sc_base_url c)))
       (\<lambda>_. client_with_config aenv parts (sc_base_url c) (NativeSessionAuth session None) (sc_policy c))"

text \<open>
  The transient client is an argument: how it is built, and the operations of its authenticator.
  The world goes on, and the client is dropped.
\<close>

definition native_login :: "'w client_env \<Rightarrow> ('a, 'w) auth_ops \<Rightarrow> ('b, 'w) auth_ops
   \<Rightarrow> ('a snow_client \<Rightarrow> native_session \<Rightarrow> build_error + 'b snow_client) \<Rightarrow> string \<Rightarrow> string
   \<Rightarrow> 'a snow_client \<times> 'w host_world \<Rightarrow> (build_error + native_session) \<times> ('a snow_client \<times> 'w host_world)" where
  "native_login env au native transient username password s =
     (case authorize_instance_request env (fst s) POST ''/login.do'' of
        Inl e \<Rightarrow> (Inl (ClientRefused e), s)
      | Inr _ \<Rightarrow> (case form_login_cookie_header env username password s of
          (Inl e, s) \<Rightarrow> (Inl (ClientRefused e), s)
        | (Inr cookie_header, s) \<Rightarrow>
            (case transient (fst s) \<lparr>ns_instance = sc_base_url (fst s), ns_cookie_header = cookie_header, ns_csrf_token = [],
                ns_authenticated_user = Some username\<rparr> of
               Inl e \<Rightarrow> (Inl e, s)
             | Inr c \<Rightarrow>
                 (case and_then (refresh_native_csrf env native (c, snd s)) (\<lambda>_ t.
                        and_then (native_current_user env native t) (\<lambda>user t.
                          if su_user_name user \<noteq> username
                          then (Inl (Failed ''Native login authenticated an unexpected user''), t)
                          else native_credentials native t)) of
                    (Inl e, t) \<Rightarrow> (Inl (ClientRefused e), fst s, snd t)
                  | (Inr session, t) \<Rightarrow>
                      (Inr (session\<lparr>ns_authenticated_user := Some username\<rparr>), fst s, snd t)))))"

subsection \<open>Identity\<close>

definition client_records :: "'w client_env \<Rightarrow> ('a, 'w) auth_ops \<Rightarrow> string \<Rightarrow> string \<Rightarrow> string \<Rightarrow> pagination_config
   \<Rightarrow> 'a snow_client \<times> 'w host_world \<Rightarrow> (client_error list_error + row list) \<times> ('a snow_client \<times> 'w host_world)" where
  "client_records env au table query flds pc = client_rows env au (TableName table) (Some query) (Some flds) pc None"

record current_user =
  cu_user_name :: string
  cu_sys_id :: string

definition user_of_record :: "row \<Rightarrow> current_user option" where
  "user_of_record r = (case (get_str r ''user_name'', row_sys_id r) of
      (Some n, Some i) \<Rightarrow> Some \<lparr>cu_user_name = n, cu_sys_id = i\<rparr> | _ \<Rightarrow> None)"

definition current_user_of :: "'w client_env \<Rightarrow> ('a, 'w) auth_ops
   \<Rightarrow> 'a snow_client \<times> 'w host_world \<Rightarrow> (client_error list_error + current_user option) \<times> ('a snow_client \<times> 'w host_world)" where
  "current_user_of env au s =
     (case client_records env au ''sys_user'' ''sys_id=javascript:gs.getUserID()'' ''sys_id,user_name''
             (default_pagination\<lparr>pc_page_size := 1, pc_limit := Some 1\<rparr>) s of
        (Inl e, s) \<Rightarrow> (Inl e, s)
      | (Inr rs, s) \<Rightarrow> (Inr (case rs of [] \<Rightarrow> None | r # _ \<Rightarrow> user_of_record r), s))"

definition build_properties :: "string list" where
  "build_properties = [''glide.buildtag'', ''glide.buildtag.last'', ''glide.war'', ''glide.war.assigned'']"

fun first_build :: "row list \<Rightarrow> string list \<Rightarrow> string option" where
  "first_build rs [] = None"
| "first_build rs (p # ps) =
     (case Option.bind (List.find (\<lambda>r. get_str r ''name'' = Some p) rs) (\<lambda>r. get_str r ''value'') of
        Some v \<Rightarrow> if trim v \<noteq> [] then Some v else first_build rs ps
      | None \<Rightarrow> first_build rs ps)"

definition build_tag :: "'w client_env \<Rightarrow> ('a, 'w) auth_ops
   \<Rightarrow> 'a snow_client \<times> 'w host_world \<Rightarrow> (client_error list_error + string option) \<times> ('a snow_client \<times> 'w host_world)" where
  "build_tag env au s =
     (case client_records env au ''sys_properties'' (''nameIN'' @ join '','' build_properties) ''name,value''
             (default_pagination\<lparr>pc_limit := Some (length build_properties)\<rparr>) s of
        (Inl e, s) \<Rightarrow> (Inl e, s)
      | (Inr rs, s) \<Rightarrow> (Inr (first_build rs build_properties), s))"

subsection \<open>A literal is read back\<close>

definition escape_char :: "char \<Rightarrow> char \<Rightarrow> string" where
  "escape_char quote c = (if c = quote \<or> c = CHR 0x5C then [CHR 0x5C, c] else if c = CHR 0x0A then [CHR 0x5C, CHR ''n''] else [c])"

lemma decode_escaped_literal:
  assumes "quote \<in> {CHR 0x27, CHR 0x22}"
  shows "decode_literal quote (concat (map (escape_char quote) t) @ quote # rest) = Some t"
proof (induction t)
  case (Cons c t)
  then show ?case
    using assms by (cases "c = quote"; cases "c = CHR 0x5C"; cases "c = CHR 0x0A") (auto simp: escape_char_def simple_escape_def)
qed (use assms in auto)

subsection \<open>Inspection only reads\<close>

text \<open>An authenticator with a native session keeps one, and does not refresh.\<close>

definition keeps_native :: "('a, 'w) auth_ops \<Rightarrow> bool" where
  "keeps_native au \<longleftrightarrow> (\<forall>a w. native_session_credentials au a \<noteq> None \<longrightarrow>
     native_session_credentials au (fst (snd (authenticate au a w))) \<noteq> None
     \<and> native_session_credentials au (fst (snd (refresh au a w))) \<noteq> None \<and> fst (refresh au a w) \<noteq> Inr True
     \<and> (\<forall>hs. native_session_credentials au (fst (snd (observe_response_headers au hs a w))) \<noteq> None)
     \<and> (\<forall>t. native_session_credentials au (fst (snd (update_native_csrf au t a w))) \<noteq> None))"

lemma authenticators_keep_native: "keeps_native (authenticators env)"
proof -
  have "native_session_credentials (authenticators env) (fst (snd (native_observe env hs s p w))) \<noteq> None"
    "native_session_credentials (authenticators env) (fst (snd (native_update_csrf env t s p w))) \<noteq> None" for hs t s p w
    by (simp_all add: native_observe_def native_update_csrf_def authenticators_def Let_def split: prod.split)
  then show ?thesis
    by (auto simp: keeps_native_def authenticators_def split: authenticator.splits)
qed

definition is_native :: "('a, 'w) auth_ops \<Rightarrow> 'a snow_client \<times> 'w host_world \<Rightarrow> bool" where
  "is_native au s \<longleftrightarrow> native_session_credentials au (sc_authenticator (fst s)) \<noteq> None"

definition reads :: "('a, 'w) auth_ops \<Rightarrow> 'a snow_client \<times> 'w host_world \<Rightarrow> 'a snow_client \<times> 'w host_world \<Rightarrow> bool" where
  "reads au s s' \<longleftrightarrow> emits (\<lambda>r. rq_method r = GET) s s' \<and> (is_native au s \<longrightarrow> is_native au s')"

interpretation rd: run_relation "reads au" for au
  by unfold_locales (auto simp: reads_def intro: log.rel_refl log.rel_trans)

named_theorems reads_intros "what only reads"

lemma reads_on_authenticator:
  assumes "\<And>a w. native_session_credentials au a \<noteq> None \<Longrightarrow> native_session_credentials au (fst (snd (f a w))) \<noteq> None"
  shows "reads au s (snd (on_authenticator f s))"
  using assms [of "sc_authenticator (fst s)" "outside (snd s)"] emits_on_authenticator [of _ s f]
  by (auto simp: reads_def is_native_def on_authenticator_def split: prod.splits)

lemma reads_authenticate [reads_intros]: "keeps_native au \<Longrightarrow> reads au s (snd (on_authenticator (authenticate au) s))"
  by (rule reads_on_authenticator) (simp add: keeps_native_def)

lemma reads_observe [reads_intros]:
  "keeps_native au \<Longrightarrow> reads au s (snd (on_authenticator (observe_response_headers au hs) s))"
  by (rule reads_on_authenticator) (simp add: keeps_native_def)

lemma reads_update_csrf [reads_intros]: "keeps_native au \<Longrightarrow> reads au s (snd (on_authenticator (update_native_csrf au t) s))"
  by (rule reads_on_authenticator) (simp add: keeps_native_def)

lemma reads_refresh [reads_intros]: "keeps_native au \<Longrightarrow> reads au s (snd (refresh_classified au s))"
  unfolding refresh_classified_def
  by (rule rd.map_result_rel, rule reads_on_authenticator) (simp add: keeps_native_def)

lemma reads_authenticate_classified [reads_intros]:
  "keeps_native au \<Longrightarrow> reads au s (snd (authenticate_classified au s))"
  unfolding authenticate_classified_def by (rule rd.map_result_rel, rule reads_authenticate)

lemma send_request_client [simp]: "fst (snd (send_request env request s)) = fst s"
  by (auto simp: send_request_def split: prod.splits)

lemma reads_send [reads_intros]: "rq_method request = GET \<Longrightarrow> reads au s (snd (send_request env request s))"
  by (simp add: reads_def is_native_def emits_send_request)

lemma reads_session_headers [reads_intros]:
  assumes "keeps_native au"
  shows "reads au s (snd (observe_session_response_headers env au hs s))"
  unfolding observe_session_response_headers_def
proof (rule rd.and_then_rel, rule reads_observe [OF assms])
  show "reads au t (snd (case t of (c, w) \<Rightarrow> (Inr (), (if native_session_credentials au (sc_authenticator c) = None
      then c\<lparr>sc_session := note_session_cookies (env_expired env (outside w)) hs (sc_session c)\<rparr> else c), w)))" for t
    by (cases t) (simp add: reads_def emits_def is_native_def)
qed

lemma reads_attempts:
  assumes "keeps_native au" "\<And>h. rq_method (request h) = GET"
  shows "reads au s (snd (request_attempts env au request n s))"
proof (induction n arbitrary: s rule: less_induct)
  case (less n)
  show ?case
    by (subst request_attempts.simps)
      (auto simp: Let_def rd.rel_refl intro!: rd.and_then_rel reads_intros assms less)
qed

lemma reads_decode_body [reads_intros]: "reads au s (snd (decode_body env decode response s))"
  by (auto simp: decode_body_def rd.rel_refl split: sum.split option.split)

lemma reads_get [reads_intros]: "keeps_native au \<Longrightarrow> reads au s (snd (client_get env au path s))"
  unfolding client_get_def client_request_def request_inner_def
  by (cases "authorize_instance_request env (fst s) GET path")
    (auto simp: rd.rel_refl build_request_def intro!: reads_attempts)

lemma reads_get_json [reads_intros]: "keeps_native au \<Longrightarrow> reads au s (snd (get_json env au decode path s))"
  unfolding get_json_def by (rule rd.and_then_rel) (auto intro: reads_intros)

lemma reads_credentials [reads_intros]: "reads au s (snd (native_credentials au s))"
  by (simp add: native_credentials_def rd.rel_refl split: option.split)

lemma reads_bootstrap_hops [reads_intros]:
  "keeps_native au \<Longrightarrow> reads au s (snd (native_bootstrap_hops env au n url s))"
  by (induction n arbitrary: url s)
    (auto simp: rd.rel_refl plain_get_def intro!: rd.and_then_rel reads_intros split: option.split sum.split)

lemma reads_bootstrap [reads_intros]: "keeps_native au \<Longrightarrow> reads au s (snd (native_bootstrap_response env au s))"
  by (auto simp: native_bootstrap_response_def rd.rel_refl intro: reads_intros split: sum.split)

lemma reads_csrf [reads_intros]: "keeps_native au \<Longrightarrow> reads au s (snd (refresh_native_csrf env au s))"
  by (auto simp: refresh_native_csrf_def rd.rel_refl Let_def intro!: rd.and_then_rel reads_intros split: option.split sum.split)

lemma reads_user [reads_intros]: "keeps_native au \<Longrightarrow> reads au s (snd (native_current_user env au s))"
  by (auto simp: native_current_user_def rd.rel_refl intro!: rd.and_then_rel reads_intros)

lemma reads_home [reads_intros]:
  assumes "keeps_native au"
  shows "reads au s (snd (read_home_domain env au i s))"
proof -
  obtain r t where "get_json env au Some (''/api/now/table/sys_user/'' @ i @ ''?sysparm_fields=sys_domain'') s = (r, t)"
    by (rule prod.exhaust)
  with reads_get_json [OF assms, of s env Some "''/api/now/table/sys_user/'' @ i @ ''?sysparm_fields=sys_domain''"]
  show ?thesis by (simp add: read_home_domain_def split: sum.split)
qed

lemma reads_inspect [reads_intros]: "keeps_native au \<Longrightarrow> reads au s (snd (inspect_native_session env au s))"
  by (auto simp: inspect_native_session_def rd.rel_refl intro!: rd.and_then_rel reads_intros split: option.split sum.split)

lemma reads_options [reads_intros]: "keeps_native au \<Longrightarrow> reads au s (snd (native_session_options env au kind s))"
  by (auto simp: native_session_options_def rd.rel_refl intro!: rd.and_then_rel reads_intros)

lemma reads_plan [reads_intros]: "keeps_native au \<Longrightarrow> reads au s (snd (plan_switch env au kind value s))"
  by (auto simp: plan_switch_def rd.rel_refl intro!: rd.and_then_rel reads_intros split: sum.split list.split)

subsection \<open>A switch writes at most once\<close>

lemma sent_on_authenticator [simp]: "sent (snd (snd (on_authenticator f s))) = sent (snd s)"
  by (auto simp: on_authenticator_def split: prod.splits)

lemma sent_authenticate: "authenticate_classified au s = (r, s') \<Longrightarrow> sent (snd s') = sent (snd s)"
  using sent_on_authenticator [of "authenticate au" s]
  by (cases "on_authenticator (authenticate au) s") (auto simp: authenticate_classified_def simp del: sent_on_authenticator)

lemma sent_refresh: "refresh_classified au s = (r, s') \<Longrightarrow> sent (snd s') = sent (snd s)"
  using sent_on_authenticator [of "refresh au" s]
  by (cases "on_authenticator (refresh au) s") (auto simp: refresh_classified_def simp del: sent_on_authenticator)

lemma sent_session_headers: "observe_session_response_headers env au hs s = (r, s') \<Longrightarrow> sent (snd s') = sent (snd s)"
proof -
  assume o: "observe_session_response_headers env au hs s = (r, s')"
  obtain x t where x: "on_authenticator (observe_response_headers au hs) s = (x, t)" by (rule prod.exhaust)
  then have "sent (snd t) = sent (snd s)" using sent_on_authenticator [of "observe_response_headers au hs" s] by simp
  moreover have "sent (snd s') = sent (snd t)"
    using o x by (cases x; cases t) (auto simp: observe_session_response_headers_def)
  ultimately show ?thesis by simp
qed

lemma native_never_refreshes:
  assumes "keeps_native au" "is_native au s" "refresh_classified au s = (Inr b, s')"
  shows "\<not> b"
proof -
  obtain a w where "sc_authenticator (fst s) = a" "outside (snd s) = w" by blast
  then have "fst (refresh au a w) \<noteq> Inr True" using assms(1,2) by (auto simp: keeps_native_def is_native_def)
  moreover have "fst (refresh au a w) = Inr b"
    using assms(3) \<open>sc_authenticator (fst s) = a\<close> \<open>outside (snd s) = w\<close>
    by (cases "refresh au a w"; cases "fst (refresh au a w)"; cases s)
      (auto simp: refresh_classified_def on_authenticator_def)
  ultimately show ?thesis by auto
qed

lemma native_keeps:
  "keeps_native au \<Longrightarrow> is_native au s \<Longrightarrow> authenticate_classified au s = (r, t) \<Longrightarrow> is_native au t"
  "is_native au s \<Longrightarrow> send_request env q s = (r', t) \<Longrightarrow> is_native au t"
  "keeps_native au \<Longrightarrow> is_native au s \<Longrightarrow> observe_session_response_headers env au hs s = (u, t) \<Longrightarrow> is_native au t"
proof -
  show "is_native au t" if "keeps_native au" "is_native au s" "authenticate_classified au s = (r, t)"
    using reads_authenticate_classified [OF that(1), of s] that(2,3) by (simp add: reads_def)
  show "is_native au t" if "is_native au s" "send_request env q s = (r', t)"
    using send_request_client [of env q s] that by (simp add: is_native_def)
  show "is_native au t" if "keeps_native au" "is_native au s" "observe_session_response_headers env au hs s = (u, t)"
    using reads_session_headers [OF that(1), of s env hs] that(2,3) by (simp add: reads_def)
qed

text \<open>A request of a native session is sent at most once.\<close>

lemma native_request_once:
  assumes "keeps_native au" "is_native au s" "request_attempts env au request n s = (r, s')"
  shows "\<exists>new. sent (snd s') = sent (snd s) @ new \<and> length new \<le> 1 \<and> (\<forall>q \<in> set new. \<exists>h. q = request h)"
proof -
  obtain x t where x: "authenticate_classified au s = (x, t)" by (rule prod.exhaust)
  show ?thesis
  proof (cases x)
    case (Inl e)
    then have "s' = t" using assms(3) x by (subst (asm) request_attempts.simps) simp
    then show ?thesis using sent_authenticate [OF x] by simp
  next
    case (Inr h)
    obtain y u where y: "send_request env (request h) t = (y, u)" by (rule prod.exhaust)
    have u: "sent (snd u) = sent (snd s) \<or> sent (snd u) = sent (snd s) @ [request h]"
      using y sent_authenticate [OF x] by (cases t) (auto simp: send_request_def execute_request_def split: if_splits prod.splits)
    have rest: "sent (snd s') = sent (snd u)"
    proof (cases y)
      case (Inl e)
      then show ?thesis using assms(3) x Inr y by (subst (asm) request_attempts.simps) simp
    next
      case (Inr response)
      obtain z v where z: "observe_session_response_headers env au (rs_headers response) u = (z, v)" by (rule prod.exhaust)
      show ?thesis
      proof (cases z)
        case (Inl e)
        then show ?thesis
          using assms(3) x \<open>x = Inr h\<close> y Inr z sent_session_headers [OF z] by (subst (asm) request_attempts.simps) simp
      next
        case (Inr _)
        obtain b k where b: "refresh_classified au v = (b, k)" by (rule prod.exhaust)
        have "is_native au v" using native_keeps assms(1,2) x y z by metis
        then have "b \<noteq> Inr True" using native_never_refreshes [OF assms(1), of v True k] b by auto
        then have "s' = v \<or> s' = k"
          using assms(3) x \<open>x = Inr h\<close> y \<open>y = Inr response\<close> z Inr b
          by (subst (asm) request_attempts.simps) (cases b; auto simp: Let_def split: if_splits)
        then show ?thesis using sent_session_headers [OF z] sent_refresh [OF b] by auto
      qed
    qed
    then show ?thesis using u by auto
  qed
qed

lemma native_put_once:
  assumes "keeps_native au" "is_native au s" "client_put env au path body s = (r, s')"
  shows "\<exists>new. sent (snd s') = sent (snd s) @ new \<and> length new \<le> 1
    \<and> (\<forall>q \<in> set new. rq_method q = PUT \<and> authorize_instance_request env (fst s) PUT path = Inr (rq_url q))"
proof (cases "authorize_instance_request env (fst s) PUT path")
  case (Inr url)
  then have "request_attempts env au (build_request PUT url (Some body) [] []) max_auth_retries s = (r, s')"
    using assms(3) by (simp add: client_put_def client_request_def request_inner_def)
  from native_request_once [OF assms(1,2) this] obtain new where
    new: "sent (snd s') = sent (snd s) @ new" "length new \<le> 1" "\<forall>q \<in> set new. \<exists>h. q = build_request PUT url (Some body) [] [] h"
    by blast
  then have "\<forall>q \<in> set new. rq_method q = PUT \<and> rq_url q = url" by (auto simp: build_request_def)
  then show ?thesis using new Inr by auto
qed (use assms(3) in \<open>simp add: client_put_def client_request_def request_inner_def\<close>)

lemma inspect_native: "inspect_native_session env au s = (Inr i, s') \<Longrightarrow> is_native au s"
  by (cases "native_session_credentials au (sc_authenticator (fst s))")
    (auto simp: inspect_native_session_def refresh_native_csrf_def native_credentials_def is_native_def)

lemma choose_option_Inr: "choose_option kind value options = Inr sel \<Longrightarrow> filter (names_option kind value) options = [sel]"
  by (cases "filter (names_option kind value) options"; cases "tl (filter (names_option kind value) options)")
    (auto simp: choose_option_def)

lemma plan_switch_Inr:
  assumes "plan_switch env au kind value s = (Inr (i, sel), s')"
  shows "is_native au s \<and> has_complete_context i \<and> (\<exists>t opts t'. native_session_options env au kind t = (Inr opts, t')
    \<and> filter (names_option kind value) opts = [sel])"
proof -
  let ?rest = "\<lambda>i s. if \<not> has_complete_context i
          then (Inl (Failed ''Cannot switch: all three picker contexts must be available''), s)
          else and_then (native_session_options env au kind s) (\<lambda>options s. (map_sum id (Pair i) (choose_option kind value options), s))"
  have "and_then (inspect_native_session env au s) ?rest = (Inr (i, sel), s')"
    using assms by (cases "authorize_instance_request env (fst s) PUT ''/api/now/ui/concoursepicker/current''") (simp_all add: plan_switch_def)
  then obtain j t where t: "inspect_native_session env au s = (Inr j, t)" "?rest j t = (Inr (i, sel), s')"
    unfolding and_then_Inr_iff by blast
  then have "and_then (native_session_options env au kind t)
      (\<lambda>options s. (map_sum id (Pair j) (choose_option kind value options), s)) = (Inr (i, sel), s')" "has_complete_context j"
    by (auto split: if_splits)
  then obtain opts t' where opts: "native_session_options env au kind t = (Inr opts, t')"
      "map_sum id (Pair j) (choose_option kind value opts) = Inr (i, sel)"
    unfolding and_then_Inr_iff by blast
  then have "choose_option kind value opts = Inr sel" "j = i"
    by (cases "choose_option kind value opts"; simp)+
  then show ?thesis using t(1) opts(1) \<open>has_complete_context j\<close> inspect_native choose_option_Inr by blast
qed

text \<open>How a switch that was planned may end.\<close>

definition verified :: "switch_kind \<Rightarrow> session_selection \<Rightarrow> switch_error + session_inspection \<times> session_inspection \<Rightarrow> bool" where
  "verified kind sel r \<longleftrightarrow> (case r of Inl (SwitchRefused e) \<Rightarrow> False
     | Inr (_, after) \<Rightarrow> has_complete_context after \<and> is_selected after kind sel | _ \<Rightarrow> True)"

lemma sent_reads:
  assumes "reads au s t"
  obtains gets where "sent (snd t) = sent (snd s) @ gets" "list_all (\<lambda>q. rq_method q = GET) gets"
    "sc_base_url (fst t) = sc_base_url (fst s)" "sc_policy (fst t) = sc_policy (fst s)"
  using assms that by (auto simp: reads_def emits_def)

lemma run_switch_sends:
  assumes "keeps_native au" "is_native au s" "run_switch env au kind i sel s = (r, s')"
  shows "\<exists>puts gets. sent (snd s') = sent (snd s) @ puts @ gets \<and> length puts \<le> 1 \<and> list_all (\<lambda>q. rq_method q = GET) gets
    \<and> list_all (\<lambda>q. rq_method q = PUT \<and> authorize_instance_request env (fst s) PUT (picker_path kind) = Inr (rq_url q)) puts
    \<and> verified kind sel r"
proof -
  obtain y v where y: "client_put env au (picker_path kind) (env_print_json env (switch_body kind sel)) s = (y, v)"
    by (rule prod.exhaust)
  from native_put_once [OF assms(1,2) y] obtain puts where puts: "sent (snd v) = sent (snd s) @ puts" "length puts \<le> 1"
      "list_all (\<lambda>q. rq_method q = PUT \<and> authorize_instance_request env (fst s) PUT (picker_path kind) = Inr (rq_url q)) puts"
    unfolding list_all_iff by blast
  show ?thesis
  proof (cases y)
    case (Inl e)
    then have "r = Inl (SwitchRequestFailed e)" "s' = v" using assms(3) y by (simp_all add: run_switch_def)
    then show ?thesis using puts by (intro exI [of _ puts] exI [of _ "[]"]) (simp add: verified_def)
  next
    case (Inr response)
    obtain z k where z: "inspect_native_session env au v = (z, k)" by (rule prod.exhaust)
    then have "reads au v k" using reads_inspect [OF assms(1), of v env] by simp
    then obtain gets where "sent (snd k) = sent (snd v) @ gets" "list_all (\<lambda>q. rq_method q = GET) gets" by (rule sent_reads)
    moreover have "s' = k \<and> verified kind sel r"
      using assms(3) y Inr z by (cases z) (auto simp: run_switch_def verified_def)
    ultimately show ?thesis using puts by (intro exI [of _ puts] exI [of _ gets]) simp
  qed
qed

lemma verified_outcome:
  assumes "verified kind sel r" "filter (names_option kind value) opts = [sel]"
    "native_session_options env au kind t = (Inr opts, t')"
  shows "case r of Inl (SwitchRefused e) \<Rightarrow> ws = []
    | Inr (_, after) \<Rightarrow> has_complete_context after \<and> (\<exists>opts sel. filter (names_option kind value) opts = [sel]
        \<and> (\<exists>t t'. native_session_options env au kind t = (Inr opts, t')) \<and> is_selected after kind sel)
    | _ \<Rightarrow> True"
proof (cases r)
  case (Inl e)
  then show ?thesis using assms(1) by (cases e) (simp_all add: verified_def)
next
  case (Inr ij)
  then have "has_complete_context (snd ij)" "is_selected (snd ij) kind sel"
    using assms(1) by (simp_all add: verified_def case_prod_unfold)
  then show ?thesis using Inr assms(2,3) by (auto simp: case_prod_unfold simp del: split_paired_Ex)
qed

text \<open>
  C11. A switch of a native session sends one PUT at most, to the picker of the kind asked for, and
  none when it is refused. When it succeeds, the context inspected last is the one option of the
  picker that the request names, and all three contexts are known.
\<close>

theorem native_switch_is_written_once_and_verified:
  assumes "keeps_native au" "switch_native_session env au kind value s = (r, s')"
  shows "\<exists>gets puts gets'. sent (snd s') = sent (snd s) @ gets @ puts @ gets'
    \<and> list_all (\<lambda>q. rq_method q = GET) (gets @ gets') \<and> length puts \<le> 1
    \<and> list_all (\<lambda>q. rq_method q = PUT \<and> authorize_instance_request env (fst s) PUT (picker_path kind) = Inr (rq_url q)) puts
    \<and> (case r of
         Inl (SwitchRefused e) \<Rightarrow> puts = []
       | Inr (_, after) \<Rightarrow> has_complete_context after \<and> (\<exists>opts sel. filter (names_option kind value) opts = [sel]
           \<and> (\<exists>t t'. native_session_options env au kind t = (Inr opts, t')) \<and> is_selected after kind sel)
       | _ \<Rightarrow> True)"
proof -
  obtain p t where p: "plan_switch env au kind value s = (p, t)" by (rule prod.exhaust)
  have rd: "reads au s t" using reads_plan [OF assms(1), of s env kind "value"] p by simp
  then obtain gets where g: "sent (snd t) = sent (snd s) @ gets" "list_all (\<lambda>q. rq_method q = GET) gets"
      "sc_base_url (fst t) = sc_base_url (fst s)" "sc_policy (fst t) = sc_policy (fst s)" by (rule sent_reads)
  then have authorized: "authorize_instance_request env (fst t) m path = authorize_instance_request env (fst s) m path" for m path
    by (simp add: authorize_instance_request_def client_url_def)
  show ?thesis
  proof (cases p)
    case (Inl e)
    then have "r = Inl (SwitchRefused e)" "s' = t" using assms(2) p by (simp_all add: switch_native_session_def)
    then show ?thesis using g by (intro exI [of _ gets] exI [of _ "[]"]) simp
  next
    case (Inr x)
    obtain i sel where x: "x = (i, sel)" by (rule prod.exhaust)
    obtain opts u u' where plan: "is_native au s" "has_complete_context i" "filter (names_option kind value) opts = [sel]"
        "native_session_options env au kind u = (Inr opts, u')"
      using plan_switch_Inr p Inr x by blast
    show ?thesis
    proof (cases "is_selected i kind sel")
      case True
      then have "r = Inr (i, i)" "s' = t" using assms(2) p Inr x by (simp_all add: switch_native_session_def)
      moreover have "\<exists>opts sel. filter (names_option kind value) opts = [sel]
          \<and> (\<exists>t t'. native_session_options env au kind t = (Inr opts, t')) \<and> is_selected i kind sel"
        using plan True by blast
      ultimately show ?thesis using g plan(2)
        by - (rule exI [of _ gets], rule exI [of _ "[]"], rule exI [of _ "[]"], simp)
    next
      case False
      then have "run_switch env au kind i sel t = (r, s')"
        using assms(2) p Inr x by (simp add: switch_native_session_def)
      from run_switch_sends [OF assms(1) _ this] rd plan(1) authorized obtain puts gets' where
        "sent (snd s') = sent (snd t) @ puts @ gets'" "length puts \<le> 1" "list_all (\<lambda>q. rq_method q = GET) gets'"
        "list_all (\<lambda>q. rq_method q = PUT \<and> authorize_instance_request env (fst s) PUT (picker_path kind) = Inr (rq_url q)) puts"
        "verified kind sel r" by (auto simp: reads_def)
      moreover note verified_outcome [OF this(5) plan(3,4)]
      ultimately show ?thesis using g
        by - (rule exI [of _ gets], rule exI [of _ puts], rule exI [of _ gets'], simp)
    qed
  qed
qed

text \<open>A session that is switched to another domain, for the witness.\<close>

definition demo_native :: "(native_session, http_response list) auth_ops" where
  "demo_native = \<lparr>authenticate = (\<lambda>a w. (native_headers a, a, w)), refresh = (\<lambda>a w. (Inr False, a, w)),
     observe_response_headers = (\<lambda>_ a w. (Inr (), a, w)), native_session_credentials = Some,
     update_native_csrf = (\<lambda>t a w. (Inr (), a\<lparr>ns_csrf_token := t\<rparr>, w)), auth_type = (\<lambda>_. NativeSession)\<rparr>"

definition demo_context :: "string \<Rightarrow> json" where
  "demo_context d = JObject [(''result'', JObject [(''currentDomain'', JObject [(''value'', JString d)]),
     (''currentApplication'', JObject [(''sysId'', JString ''a'')]), (''currentUpdateSet'', JObject [(''sysId'', JString ''s'')])])]"

definition demo_answers :: "string \<Rightarrow> json option" where
  "demo_answers b = map_of
     [(''user'', JObject [(''result'', JObject [(''user_sys_id'', JString (replicate 32 (CHR ''0''))), (''user_name'', JString ''u'')])]),
      (''context 1'', demo_context ''d1''), (''context 2'', demo_context ''d2''), (''home'', JObject []),
      (''options'', JObject [(''result'', JObject [(''list'', JArray [JObject [(''value'', JString ''d1'')], JObject [(''value'', JString ''d2'')]])])])] b"

definition demo_native_env :: "http_response list client_env" where
  "demo_native_env = demo_env\<lparr>env_urls := \<lparr>parse_url = (\<lambda>s. Some (demo_url s s)), join_url = (\<lambda>b s. Some (demo_url s (''https://x'' @ s)))\<rparr>,
     env_parse_json := demo_answers\<rparr>"

definition demo_native_state :: "native_session snow_client \<times> http_response list host_world" where
  "demo_native_state = (\<lparr>sc_base_url = ''https://x'', sc_authenticator = \<lparr>ns_instance = ''https://x'', ns_cookie_header = ''JSESSIONID=1'',
       ns_csrf_token = [], ns_authenticated_user = None\<rparr>, sc_session = no_session, sc_policy = full_access, sc_redirects = False\<rparr>,
     \<lparr>outside = map (\<lambda>b. (demo_response 200)\<lparr>rs_body := Inr b\<rparr>)
       [''g_ck=1'', ''user'', ''context 1'', ''home'', ''g_ck=2'', ''options'', [], ''g_ck=3'', ''user'', ''context 2'', ''home''], sent = []\<rparr>)"

lemma demo_keeps_native: "keeps_native demo_native"
  by (simp add: keeps_native_def demo_native_def)

lemma demo_switch:
  "map_sum id (\<lambda>(_, j). map_option sl_id (si_domain j)) (fst (switch_native_session demo_native_env demo_native DomainContext ''d2'' demo_native_state))
     = Inr (Some ''d2'')"
  by code_simp

theorem native_switch_is_written_once_and_verified_witness:
  "\<exists>i j s'. switch_native_session demo_native_env demo_native DomainContext ''d2'' demo_native_state = (Inr (i, j), s')
    \<and> map_option sl_id (si_domain j) = Some ''d2'' \<and> has_complete_context j
    \<and> length (filter (\<lambda>q. rq_method q \<noteq> GET) (sent (snd s'))) \<le> 1"
proof -
  obtain r s' where r: "switch_native_session demo_native_env demo_native DomainContext ''d2'' demo_native_state = (r, s')"
    by (rule prod.exhaust)
  then obtain i j where ij: "r = Inr (i, j)" "map_option sl_id (si_domain j) = Some ''d2''"
    using demo_switch by (cases r) auto
  obtain gets puts gets' where "sent (snd s') = sent (snd demo_native_state) @ gets @ puts @ gets'"
      "list_all (\<lambda>q. rq_method q = GET) (gets @ gets')" "length puts \<le> 1" "has_complete_context j"
    using native_switch_is_written_once_and_verified [OF demo_keeps_native r] ij(1) by auto
  moreover from this(2) have "filter (\<lambda>q. rq_method q \<noteq> GET) gets = []" "filter (\<lambda>q. rq_method q \<noteq> GET) gets' = []"
    by (auto simp: list_all_iff filter_empty_conv)
  moreover have "length (filter (\<lambda>q. rq_method q \<noteq> GET) puts) \<le> 1"
    using length_filter_le [of _ puts] \<open>length puts \<le> 1\<close> by (rule le_trans)
  moreover have "sent (snd demo_native_state) = []" by (simp add: demo_native_state_def)
  ultimately show ?thesis using r ij by (intro exI [of _ i] exI [of _ j] exI [of _ s']) simp
qed

text \<open>The login of a native session hands out what the instance confirmed for that user.\<close>

lemma native_login_user:
  assumes "native_login env au native transient username password s = (Inr session, s')"
  shows "ns_authenticated_user session = Some username
    \<and> (\<exists>user t t'. native_current_user env native t = (Inr user, t') \<and> su_user_name user = username)"
proof -
  obtain ck t where "form_login_cookie_header env username password s = (Inr ck, t)"
    using assms by (cases "authorize_instance_request env (fst s) POST ''/login.do''";
      cases "form_login_cookie_header env username password s"; cases "fst (form_login_cookie_header env username password s)")
      (auto simp: native_login_def)
  moreover from this obtain c where "transient (fst t) \<lparr>ns_instance = sc_base_url (fst t), ns_cookie_header = ck, ns_csrf_token = [],
      ns_authenticated_user = Some username\<rparr> = Inr c"
    using assms by (cases "authorize_instance_request env (fst s) POST ''/login.do''";
      cases "transient (fst t) \<lparr>ns_instance = sc_base_url (fst t), ns_cookie_header = ck, ns_csrf_token = [],
        ns_authenticated_user = Some username\<rparr>") (auto simp: native_login_def)
  ultimately obtain n u where "and_then (refresh_native_csrf env native (c, snd t)) (\<lambda>_ t.
      and_then (native_current_user env native t) (\<lambda>user t.
        if su_user_name user \<noteq> username
        then (Inl (Failed ''Native login authenticated an unexpected user''), t)
        else native_credentials native t)) = (Inr n, u)" "session = n\<lparr>ns_authenticated_user := Some username\<rparr>"
    using assms by (cases "authorize_instance_request env (fst s) POST ''/login.do''") (auto simp: native_login_def split: sum.splits prod.splits)
  then show ?thesis unfolding and_then_Inr_iff by (auto split: if_splits) blast
qed

end
