(* ===== verification/Error_Report.thy ===== *)
theory Error_Report
  imports Native_Session
begin

text \<open>
  The report of a failed command and its exit code: \<open>src/src/error.rs\<close>. An \<open>anyhow\<close> error is the list
  of its layers, the outermost first; \<open>downcast_ref\<close> finds the first layer of a type. \<open>CliError\<close>,
  which no code outside that file constructs, is left out.
\<close>

subsection \<open>The layers of an error\<close>

record validation_issue =
  vi_kind :: string
  vi_field :: "string option"
  vi_record_index :: "nat option"
  vi_message :: string

datatype script_failure =
    SandboxValidation | Compilation | Evaluation | BackgroundMessage | JavaException

definition script_failure_text :: "script_failure \<Rightarrow> string" where
  "script_failure_text f = (case f of
      SandboxValidation \<Rightarrow> ''ServiceNow sandbox validation failed; --sandbox accepts a single KittyScript expression, not a multi-statement script''
    | Compilation \<Rightarrow> ''ServiceNow script compilation failed''
    | Evaluation \<Rightarrow> ''ServiceNow script evaluation failed''
    | BackgroundMessage \<Rightarrow> ''ServiceNow reported a background script error''
    | JavaException \<Rightarrow> ''ServiceNow script execution raised a Java exception'')"

datatype switch_stage = RequestStage | VerificationStage | MismatchStage | IncompleteStage

definition switch_text :: "switch_stage \<Rightarrow> string" where
  "switch_text k = (case k of
      RequestStage \<Rightarrow> ''Context switch request failed''
    | VerificationStage \<Rightarrow> ''Context switch was sent, but verification read-back failed''
    | MismatchStage \<Rightarrow> ''Context switch was sent, but verification did not match the requested value''
    | IncompleteStage \<Rightarrow> ''Context switch was sent, but all three picker contexts could not be verified'')
   @ ''; session state is uncertain. Run session show before taking further action. No automatic retry or rollback was attempted.''"

text \<open>\<open>SwitchLayer\<close> keeps the layers of its source; \<open>OtherLayer\<close> is any type the report does not know.\<close>

datatype error_layer =
    ValidationLayer string "validation_issue list"
  | ConfigLayer string string
  | RowErrorLayer nat
  | ScriptLayer script_failure
  | PolicyLayer policy_error
  | SwitchLayer switch_stage "error_layer list"
  | ApiLayer api_error
  | GraphqlLayer "string option"
  | TransportLayer transport_error
  | HttpLayer http_failure
  | AuthLayer string
  | BrokerLayer string string
  | TomlLayer
  | JsonLayer
  | IoLayer string
  | OtherLayer string

type_synonym error_chain = "error_layer list"

definition transport_text :: "transport_error \<Rightarrow> string" where
  "transport_text e = (case e of
      RequestTimeout \<Rightarrow> ''HTTP request timed out; the server may already have processed the request''
    | ConnectionFailed \<Rightarrow> ''Unable to connect to the server''
    | InvalidResponse \<Rightarrow> ''HTTP response contains invalid JSON or an unexpected envelope; response data is withheld''
    | InvalidEnvelope t \<Rightarrow> t
    | OtherTransport \<Rightarrow> ''HTTP transport failed; request details are withheld'')"

definition policy_text :: "policy_error \<Rightarrow> string" where
  "policy_text e = ''Policy denied '' @ pe_operation e @ '': '' @ pe_reason e"

definition row_error_text :: "nat \<Rightarrow> string" where
  "row_error_text n = ''Import set load completed with '' @ show_nat n @
     '' row-level error(s); inspect stdout results before retrying because some records may already have changed''"

subsection \<open>The report\<close>

datatype error_class = ClassValidation | ClassConfig | ClassAuth | ClassPolicy | ClassApi | ClassTransport | ClassIo
  | ClassCommand | ClassInternal

datatype retry_advice = NeverRetry | SafeReadsOnly | ManualReview | UnknownAdvice

record error_body =
  eb_code :: string
  eb_message :: string
  eb_class :: error_class
  eb_retry :: retry_advice
  eb_status :: "nat option"
  eb_detail :: "string option"
  eb_instance :: "string option"
  eb_issues :: "validation_issue list"
  eb_issue_count :: "nat option"
  eb_issues_truncated :: "bool option"

definition query_markers :: "string list" where
  "query_markers = [''sysparm_query'', ''sysparm_script'', ''query='', ''query:'', ''script='', ''script:'']"

definition withheld_text :: string where
  "withheld_text = ''Diagnostic text withheld because it may contain a query or script''"

definition max_diagnostic_chars :: nat where
  "max_diagnostic_chars = 500"

definition safe_message :: "string \<Rightarrow> string" where
  "safe_message message =
     (if list_ex (str_contains (to_ascii_lowercase message)) query_markers then withheld_text
      else bound_chars (scrub_secrets message) max_diagnostic_chars)"

definition code_byte :: "char \<Rightarrow> bool" where
  "code_byte c \<longleftrightarrow> is_ascii_uppercase c \<or> is_ascii_digit c \<or> c = CHR ''_''"

definition safe_code :: "string \<Rightarrow> string" where
  "safe_code code = (if code \<noteq> [] \<and> length code \<le> 64 \<and> list_all code_byte code then code else ''UNKNOWN_ERROR'')"

definition new_error :: "string \<Rightarrow> string \<Rightarrow> error_class \<Rightarrow> retry_advice \<Rightarrow> error_body" where
  "new_error code message cls retry = \<lparr>eb_code = safe_code code, eb_message = safe_message message, eb_class = cls,
     eb_retry = retry, eb_status = None, eb_detail = None, eb_instance = None, eb_issues = [], eb_issue_count = None,
     eb_issues_truncated = None\<rparr>"

definition default_port :: "string \<Rightarrow> nat option" where
  "default_port scheme = (if scheme = ''http'' then Some 80 else if scheme = ''https'' then Some 443 else None)"

text \<open>\<open>origin().ascii_serialization()\<close>.\<close>

definition origin_text :: "(string \<times> string \<times> nat) option \<Rightarrow> string" where
  "origin_text orig = (case orig of
      None \<Rightarrow> ''null''
    | Some (scheme, host, port) \<Rightarrow>
        scheme @ ''://'' @ host @ (if default_port scheme = Some port then [] else CHR '':'' # show_nat port))"

definition safe_instance :: "url_lib \<Rightarrow> string \<Rightarrow> string option" where
  "safe_instance ul inst = (case parse_url ul inst of
      None \<Rightarrow> None
    | Some u \<Rightarrow> if pu_scheme u = ''http'' \<or> pu_scheme u = ''https'' then Some (origin_text (url_origin u)) else None)"

definition api_retry :: "nat \<Rightarrow> retry_advice" where
  "api_retry status = (if status \<in> {408, 429, 500, 502, 503, 504} then SafeReadsOnly
     else if 400 \<le> status \<and> status \<le> 499 then NeverRetry else UnknownAdvice)"

definition api_error_body :: "url_lib \<Rightarrow> api_error \<Rightarrow> error_body" where
  "api_error_body ul e = (new_error (ae_code e) (ae_message e) ClassApi (api_retry (ae_status e)))
     \<lparr>eb_status := Some (ae_status e), eb_detail := map_option safe_message (ae_detail e),
      eb_instance := safe_instance ul (ae_instance e)\<rparr>"

definition api_exit_code :: "nat \<Rightarrow> int" where
  "api_exit_code status = (if status = 404 then 4 else 5)"

definition max_validation_issues :: nat where
  "max_validation_issues = 100"

definition safe_issue :: "validation_issue \<Rightarrow> validation_issue" where
  "safe_issue i = i\<lparr>vi_field := map_option safe_message (vi_field i), vi_message := safe_message (vi_message i)\<rparr>"

definition validation_body :: "string \<Rightarrow> validation_issue list \<Rightarrow> error_body" where
  "validation_body message issues =
     (let body = new_error ''VALIDATION_ERROR'' message ClassValidation NeverRetry
      in if issues = [] then body
         else body\<lparr>eb_issue_count := Some (length issues),
             eb_issues_truncated := Some (max_validation_issues < length issues),
             eb_issues := map safe_issue (take max_validation_issues issues)\<rparr>)"

definition policy_mode_debug :: "policy_mode \<Rightarrow> string" where
  "policy_mode_debug m = (case m of FullAccess \<Rightarrow> ''FullAccess'' | ReadOnly \<Rightarrow> ''ReadOnly'')"

definition policy_body :: "policy_error \<Rightarrow> error_body" where
  "policy_body e = (new_error ''POLICY_DENIED'' (policy_text e) ClassPolicy NeverRetry)
     \<lparr>eb_detail := Some (''mode='' @ policy_mode_debug (pe_mode e) @ ''; capability='' @
        command_capability_as_str (pe_capability e))\<rparr>"

text \<open>The report of a switch takes over what its source says in the safe way.\<close>

definition switch_body_of :: "switch_stage \<Rightarrow> (error_body \<times> int) option \<Rightarrow> error_body" where
  "switch_body_of k cause =
     (let body = new_error ''SESSION_SWITCH_UNCERTAIN'' (switch_text k) ClassCommand ManualReview
      in case cause of
           None \<Rightarrow> body
         | Some (c, _) \<Rightarrow> body\<lparr>eb_status := eb_status c, eb_instance := eb_instance c,
             eb_detail := Some (safe_message (''Cause: '' @ eb_code c @ '': '' @ eb_message c))\<rparr>)"

subsection \<open>The classification\<close>

text \<open>\<open>downcast_ref\<close>: the first layer of a type.\<close>

definition first_of :: "(error_layer \<Rightarrow> 'a option) \<Rightarrow> error_chain \<Rightarrow> 'a option" where
  "first_of f chain = (case List.map_filter f chain of [] \<Rightarrow> None | x # _ \<Rightarrow> Some x)"

fun first_some :: "'a option list \<Rightarrow> 'a option" where
  "first_some [] = None"
| "first_some (Some x # _) = Some x"
| "first_some (None # xs) = first_some xs"

fun as_validation where "as_validation (ValidationLayer m is) = Some (m, is)" | "as_validation _ = None"
fun as_config where "as_config (ConfigLayer c m) = Some (c, m)" | "as_config _ = None"
fun as_row_error where "as_row_error (RowErrorLayer n) = Some n" | "as_row_error _ = None"
fun as_script where "as_script (ScriptLayer f) = Some f" | "as_script _ = None"
fun as_policy where "as_policy (PolicyLayer e) = Some e" | "as_policy _ = None"
fun as_switch where "as_switch (SwitchLayer k src) = Some (k, src)" | "as_switch _ = None"
fun as_api where "as_api (ApiLayer e) = Some e" | "as_api _ = None"
fun as_graphql where "as_graphql (GraphqlLayer d) = Some d" | "as_graphql _ = None"
fun as_transport where "as_transport (TransportLayer e) = Some e" | "as_transport _ = None"
fun as_http where "as_http (HttpLayer e) = Some e" | "as_http _ = None"
fun as_auth where "as_auth (AuthLayer m) = Some m" | "as_auth _ = None"
fun as_broker where "as_broker (BrokerLayer c m) = Some (c, m)" | "as_broker _ = None"
fun as_toml where "as_toml TomlLayer = Some ()" | "as_toml _ = None"
fun as_json where "as_json JsonLayer = Some ()" | "as_json _ = None"
fun as_io where "as_io (IoLayer k) = Some k" | "as_io _ = None"

definition classify_chain :: "error_chain \<Rightarrow> transport_error option" where
  "classify_chain chain = first_some [first_of as_transport chain, map_option classify_http_failure (first_of as_http chain)]"

lemma first_of_member: "first_of f chain = Some x \<Longrightarrow> \<exists>l \<in> set chain. f l = Some x"
proof -
  assume "first_of f chain = Some x"
  then have "x \<in> set (List.map_filter f chain)" by (auto simp: first_of_def split: list.splits)
  then show ?thesis by (auto simp: List.map_filter_def)
qed

lemma first_of_switch_smaller:
  assumes "first_of as_switch chain = Some (k, src)"
  shows "size_list size src < size_list size chain"
proof -
  obtain l where l: "l \<in> set chain" "as_switch l = Some (k, src)" using first_of_member [OF assms] by blast
  have "l = SwitchLayer k src" using l(2) by (cases l) auto
  with l(1) have "size (SwitchLayer k src) \<le> size_list size chain"
    by (metis size_list_estimation' order_refl)
  then show ?thesis by simp
qed

text \<open>The reports of the layers in the order they are looked for; \<open>cause\<close> is that of a switch's source.\<close>

definition layer_reports :: "url_lib \<Rightarrow> (error_body \<times> int) option \<Rightarrow> error_chain \<Rightarrow> (error_body \<times> int) option list" where
  "layer_reports ul cause chain =
     [map_option (\<lambda>(m, is). (validation_body m is, 2)) (first_of as_validation chain),
      map_option (\<lambda>(c, m). (new_error c m ClassConfig NeverRetry, 2)) (first_of as_config chain),
      map_option (\<lambda>n. (new_error ''IMPORT_SET_ROW_ERRORS'' (row_error_text n) ClassCommand ManualReview, 1))
        (first_of as_row_error chain),
      map_option (\<lambda>f. (new_error ''SCRIPT_EXECUTION_FAILED'' (script_failure_text f) ClassCommand ManualReview, 1))
        (first_of as_script chain),
      map_option (\<lambda>e. (policy_body e, 7)) (first_of as_policy chain),
      map_option (\<lambda>(k, _). (switch_body_of k cause, 1)) (first_of as_switch chain),
      map_option (\<lambda>e. (api_error_body ul e, api_exit_code (ae_status e))) (first_of as_api chain),
      map_option (\<lambda>d. ((new_error ''GRAPHQL_ERROR'' ''GraphQL request returned errors'' ClassApi ManualReview)
          \<lparr>eb_detail := map_option safe_message d\<rparr>, 5)) (first_of as_graphql chain),
      map_option (\<lambda>e. (new_error (transport_error_code e) (transport_text e) ClassTransport
          (if is_transient e then SafeReadsOnly else UnknownAdvice), 5)) (classify_chain chain),
      map_option (\<lambda>m. (new_error ''AUTH_FAILED'' m ClassAuth NeverRetry, 3)) (first_of as_auth chain),
      map_option (\<lambda>(c, m). (new_error c m ClassCommand UnknownAdvice, 1)) (first_of as_broker chain),
      map_option (\<lambda>_. (new_error ''CONFIG_INVALID''
          ''Configuration file is invalid; check TOML syntax and required fields.'' ClassConfig NeverRetry, 2))
        (first_of as_toml chain),
      map_option (\<lambda>_. (new_error ''INVALID_JSON'' ''Invalid JSON; check input syntax and expected structure.''
          ClassValidation NeverRetry, 2)) (first_of as_json chain),
      map_option (\<lambda>k. (new_error ''IO_ERROR'' (''I/O operation failed ('' @ k @ '')'') ClassIo UnknownAdvice, 6))
        (first_of as_io chain)]"

function known_report :: "url_lib \<Rightarrow> error_chain \<Rightarrow> (error_body \<times> int) option" where
  "known_report ul chain = first_some (layer_reports ul
     (case first_of as_switch chain of
        None \<Rightarrow> None
      | Some (k, src) \<Rightarrow> if k = RequestStage \<or> k = VerificationStage then known_report ul src else None) chain)"
  by pat_completeness auto
termination
  by (relation "measure (\<lambda>(ul, chain). size_list size chain)") (auto simp: first_of_switch_smaller)

declare known_report.simps [simp del]

text \<open>The text of an error is that of its outermost layer; here only layers the report does not know remain.\<close>

definition chain_text :: "error_chain \<Rightarrow> string" where
  "chain_text chain = (case chain of OtherLayer t # _ \<Rightarrow> t | _ \<Rightarrow> [])"

definition error_report :: "url_lib \<Rightarrow> error_chain \<Rightarrow> error_body \<times> int" where
  "error_report ul chain = (case known_report ul chain of
      Some r \<Rightarrow> r | None \<Rightarrow> (new_error ''INTERNAL_ERROR'' (chain_text chain) ClassInternal UnknownAdvice, 1))"

subsection \<open>What a report shows\<close>

definition clean_issue :: "validation_issue \<Rightarrow> bool" where
  "clean_issue i \<longleftrightarrow> plain_text 515 (vi_message i) \<and> pred_option (plain_text 515) (vi_field i)"

definition clean_body :: "error_body \<Rightarrow> bool" where
  "clean_body b \<longleftrightarrow> eb_code b \<noteq> [] \<and> length (eb_code b) \<le> 64 \<and> list_all code_byte (eb_code b)
     \<and> plain_text 515 (eb_message b) \<and> pred_option (plain_text 515) (eb_detail b)
     \<and> pred_option (\<lambda>i. i \<in> range origin_text) (eb_instance b)
     \<and> length (eb_issues b) \<le> max_validation_issues \<and> list_all clean_issue (eb_issues b)"

lemma safe_message_plain [simp]: "plain_text 515 (safe_message m)"
proof -
  have "plain_text 515 withheld_text" by code_simp
  then show ?thesis using bound_scrub [of m max_diagnostic_chars]
    by (simp add: safe_message_def plain_text_def max_diagnostic_chars_def)
qed

lemma safe_code_ok [simp]: "safe_code c \<noteq> []" "length (safe_code c) \<le> 64" "list_all code_byte (safe_code c)"
proof -
  have "list_all code_byte ''UNKNOWN_ERROR''" by code_simp
  then show "safe_code c \<noteq> []" "length (safe_code c) \<le> 64" "list_all code_byte (safe_code c)"
    by (simp_all add: safe_code_def)
qed

lemma clean_new_error [simp]: "clean_body (new_error c m cls r)"
  by (simp add: clean_body_def new_error_def max_validation_issues_def)

lemma clean_detail: "clean_body b \<Longrightarrow> pred_option (plain_text 515) d \<Longrightarrow> clean_body (b\<lparr>eb_detail := d\<rparr>)"
  by (simp add: clean_body_def)

lemma pred_option_map: "pred_option P (map_option f x) \<longleftrightarrow> pred_option (P \<circ> f) x"
  by (cases x) simp_all

lemma pred_option_any: "(\<And>y. P y) \<Longrightarrow> pred_option P x"
  by (cases x) simp_all

lemma clean_validation: "clean_body (validation_body m is)"
proof -
  have "clean_issue (safe_issue i)" for i
    by (simp add: clean_issue_def safe_issue_def pred_option_map comp_def pred_option_any)
  then have "list_all clean_issue (map safe_issue (take max_validation_issues is))" by (simp add: list_all_iff)
  then show ?thesis by (simp add: validation_body_def Let_def clean_body_def new_error_def)
qed

lemma clean_api: "clean_body (api_error_body ul e)"
  by (auto simp: api_error_body_def clean_body_def new_error_def pred_option_map comp_def
      safe_instance_def pred_option_any split: option.splits)

lemma policy_detail_plain: "plain_text 515 (''mode='' @ policy_mode_debug m @ ''; capability='' @ command_capability_as_str c)"
proof -
  have "list_all (\<lambda>c. list_all (\<lambda>m. plain_text 515 (''mode='' @ policy_mode_debug m @ ''; capability='' @ command_capability_as_str c))
      [FullAccess, ReadOnly])
    [RemoteRead, RemoteWrite, RawApiRead, RawApiWrite, CredentialExport, LocalConfigRead, LocalConfigWrite,
     LocalCredentialRead, LocalCredentialWrite, LocalFileWrite, UnknownCapability]" by code_simp
  then show ?thesis by (cases c; cases m) (simp_all only: list.pred_inject simp_thms)
qed

lemma clean_policy: "clean_body (policy_body e)"
  unfolding policy_body_def by (intro clean_detail clean_new_error) (simp only: option.pred_inject policy_detail_plain)

lemma clean_switch: "pred_option (clean_body \<circ> fst) cause \<Longrightarrow> clean_body (switch_body_of k cause)"
  by (auto simp: switch_body_of_def Let_def clean_body_def new_error_def max_validation_issues_def split: option.splits)

lemma first_some_in: "first_some xs = Some y \<Longrightarrow> Some y \<in> set xs"
  by (induction xs rule: first_some.induct) auto

definition good_report :: "error_body \<times> int \<Rightarrow> bool" where
  "good_report r \<longleftrightarrow> clean_body (fst r) \<and> 1 \<le> snd r \<and> snd r \<le> 7"

lemma layer_reports_good:
  assumes "pred_option good_report cause"
  shows "list_all (pred_option good_report) (layer_reports ul cause chain)"
proof -
  have cause: "pred_option (clean_body \<circ> fst) cause" using assms by (cases cause) (auto simp: good_report_def)
  have detail: "clean_body (new_error c m cls r\<lparr>eb_detail := map_option safe_message d\<rparr>)" for c m cls r d
    by (rule clean_detail) (simp_all add: pred_option_map comp_def pred_option_any)
  show ?thesis unfolding layer_reports_def
    by (simp add: pred_option_map good_report_def api_exit_code_def split_beta comp_def
        clean_validation clean_policy clean_api clean_switch [OF cause] detail pred_option_any)
qed

lemma known_report_good: "pred_option good_report (known_report ul chain)"
proof (induction ul chain rule: known_report.induct)
  case (1 ul chain)
  let ?cause = "case first_of as_switch chain of None \<Rightarrow> None
    | Some (k, src) \<Rightarrow> if k = RequestStage \<or> k = VerificationStage then known_report ul src else None"
  have cause: "pred_option good_report ?cause" using 1 by (auto split: option.splits)
  have "good_report r" if "known_report ul chain = Some r" for r
  proof -
    have "first_some (layer_reports ul ?cause chain) = Some r" using that by (simp add: known_report.simps [of ul chain])
    then have "Some r \<in> set (layer_reports ul ?cause chain)" by (rule first_some_in)
    then show ?thesis using layer_reports_good [OF cause, of ul chain] by (auto simp: list_all_iff)
  qed
  then show ?case by (cases "known_report ul chain") simp_all
qed


text \<open>What may have changed something is never advised to be retried.\<close>

lemma uncertain_switch_needs_review:
  assumes "\<forall>l \<in> set chain. as_validation l = None \<and> as_config l = None \<and> as_policy l = None"
    and "first_of as_switch chain \<noteq> None"
  shows "eb_retry (fst (error_report ul chain)) = ManualReview"
proof -
  have none: "first_of f chain = None" if "\<forall>l \<in> set chain. f l = None" for f :: "error_layer \<Rightarrow> 'b option"
    using first_of_member [of f chain] that by (cases "first_of f chain") auto
  then have "first_of as_validation chain = None" "first_of as_config chain = None" "first_of as_policy chain = None"
    using assms(1) by (auto intro!: none)
  then show ?thesis using assms(2)
    by (cases "first_of as_row_error chain"; cases "first_of as_script chain")
      (auto simp: error_report_def known_report.simps [of ul chain] layer_reports_def new_error_def switch_body_of_def Let_def split: option.splits)
qed

text \<open>The denial of a background script through the helper is mistaken for a script and withheld.\<close>

lemma script_denial_is_withheld:
  assumes "ensure_command_allowed read_only (Snu (SnuExecuteBgScript script script_file timeout)) = Inl e"
  shows "eb_message (policy_body e) = withheld_text"
proof -
  have "safe_message (policy_text e) = withheld_text" if "pe_operation e = ''snu execute-bg-script''"
  proof -
    have "str_contains (to_ascii_lowercase (policy_text e)) ''script:''"
    proof -
      let ?rest = "map to_ascii_lower (CHR '' '' # pe_reason e)"
      have "policy_text e = ''Policy denied snu execute-bg-script:'' @ CHR '' '' # pe_reason e"
        using that by (simp add: policy_text_def)
      moreover have "map to_ascii_lower ''Policy denied snu execute-bg-script:'' = ''policy denied snu execute-bg-'' @ ''script:''"
        by code_simp
      ultimately have "to_ascii_lowercase (policy_text e) = ''policy denied snu execute-bg-'' @ ''script:'' @ ?rest"
        by (simp add: to_ascii_lowercase_def del: append_Cons list.map(2))
      then show ?thesis by (simp only: sublist_appendI)
    qed
    then show ?thesis by (simp add: safe_message_def query_markers_def)
  qed
  moreover have "pe_operation e = ''snu execute-bg-script''"
    using assms by (auto simp: ensure_command_allowed_def decision_for_command_def read_only_def)
  ultimately show ?thesis by (simp add: policy_body_def new_error_def)
qed

end
