(* ===== verification/Spec2Isabelle.thy ===== *)
theory Spec2Isabelle
  imports Identifiers Order_By Domain_Filter Read_Only_Cli Pagination Broker_Dispatch Client_Safety Seed_Runs Package_Import Profile_Clients Login Error_Report
begin

text \<open>
  A verification development for snow-cli, a command line client of ServiceNow instances.

  \<^bold>\<open>The program.\<close> A command is parsed (\<open>src/src/cli/args.rs\<close>; the read-only binary has its own smaller
  grammar in \<open>cli/readonly_args.rs\<close>), judged by the execution policy (\<open>policy.rs\<close>) and handed to its
  handler. Handlers reach an instance in two ways. Most build a client for a profile
  (\<open>client/mod.rs\<close>): the profile comes from the configuration (\<open>config/profile.rs\<close>), its secrets from
  the keychain (\<open>config/credentials.rs\<close>), its headers from an authenticator (\<open>auth/\<close>), and every
  request passes the checks of \<open>client/transport.rs\<close> and \<open>client/core.rs\<close>. The others talk to the
  SN-Utils browser helper: a broker process (\<open>snu/broker.rs\<close>) caches browser sessions and forwards
  actions over a connection manager (\<open>snu/bridge.rs\<close>) to the helper, behind the security gates the
  helper reports (\<open>snu/gates.rs\<close>). On top stand seed runs, flat datasets and dataset packages.

  \<^bold>\<open>How it is modelled.\<close> Everything is a HOL function or a step relation on explicit state. Errors are
  the left side of a sum, Rust's \<open>?\<close> is \<open>bind_result\<close> or \<open>and_then\<close>, and a panic is an error of its
  own (\<open>Panicked\<close>). A string is the list of its UTF-8 bytes. \<open>BTreeMap\<close> is a sorted association list
  (Btree\_Map), \<open>HashMap\<close> an association list whose iteration order is an argument (Hash\_Map), JSON a
  datatype (Json\_Value). Machine integers are naturals with the saturating, wrapping or panicking
  operation written out. What is not in the repository is an argument with named laws: \<open>url_lib\<close> (the
  url crate), \<open>client_env\<close> (reqwest, serde, base64 and the date parser), \<open>keyring\<close> with
  \<open>lawful_keyring\<close> (the operating system's keychain), the state of the remote instance, clocks and
  random bytes. Each law has a witness that some function satisfies it.

  \<^bold>\<open>Theories and sources.\<close>
  Snow\_Prelude holds the string, option and result lemmas and the bundles all others use.
  \<^item> Values: Identifiers (\<open>models/identifiers.rs\<close>), Order\_By (\<open>models/order_by.rs\<close>), Domain\_Filter
    (\<open>models/domain.rs\<close>). What is accepted, that it is inert where it is used, round trips.
  \<^item> Commands: Cli\_Args (\<open>cli/args\<close>), Policy (\<open>policy.rs\<close>), Read\_Only\_Cli (\<open>cli/readonly_args.rs\<close>,
    \<open>lib.rs\<close>). The read-only policy is the reduced grammar; the read-only binary stays locked.
  \<^item> Helper: Snu\_Protocol (\<open>snu/protocol.rs\<close>), Snu\_Gates (\<open>snu/gates.rs\<close>), Bridge
    (\<open>snu/bridge.rs\<close>) with Bridge\_Invariants (a step relation of all that may happen to the manager
    and its invariant), Bridge\_Requests (the waiters refine a table; a request gets its own reply) and
    Gate\_Negotiation; Session\_Store and Broker (\<open>snu/broker.rs\<close>) with Broker\_Safety (the invariant
    under every interleaving with other clients) and Broker\_Dispatch (at most two sends, eviction
    only after a rejected probe, the session of the target).
  \<^item> HTTP: Api\_Error (\<open>client/error.rs\<close>, the scrubber as the loop it is), Cookies and Form\_Session
    (\<open>client/session.rs\<close>), Script\_Response (\<open>client/script_response.rs\<close>), Http\_Client
    (\<open>client/transport.rs\<close>, \<open>client/core.rs\<close>), Client\_Safety (what is put on the wire), Pagination
    (\<open>client/table.rs\<close>: a paged read is exact and ends).
  \<^item> Credentials: Keychain (\<open>config/keychain.rs\<close>, \<open>config/credentials.rs\<close>,
    \<open>config/native_session.rs\<close>), Profiles (\<open>config/profile.rs\<close>), Oauth and Authenticators (\<open>auth/\<close>),
    Profile\_Clients (\<open>client/mod.rs\<close>), Auth\_Commands and Login (\<open>cli/commands/auth.rs\<close>,
    \<open>config/now_sdk.rs\<close>).
  \<^item> Data: Dependency\_Order (both topological sorts), Seed and Seed\_Runs (\<open>cli/commands/seed.rs\<close>),
    Dictionary (\<open>cli/commands/dictionary.rs\<close>), Dataset\_Records (\<open>cli/commands/data/flat.rs\<close>),
    Dataset\_Package, Package\_Export and Package\_Import (\<open>cli/commands/data/package.rs\<close>).

  \<^bold>\<open>Interfaces.\<close> Contracts between components are locales, each interpreted on the model: the string
  maps and their iteration (Btree\_Map, Hash\_Map), the store of secrets (\<open>secret_store\<close> in Keychain,
  interpreted by the plaintext test store and by every lawful keychain), the page source of
  Pagination, the table of waiters, the requests of the client.

  \<^bold>\<open>Bounds and fuel.\<close> All recursion ends by construction but for the paging loop, which may follow a
  server forever and is a partial function with a theorem that it returns. A form login follows five
  hops and the table hierarchy is walked 32 tables deep because the code counts so; a request is
  retried once after a 401; the OAuth callback is read up to 8192 bytes; a token counts as expired 30
  seconds early. Waits of the helper's connection manager consume a finite list of events, in which
  the timer is one.

  \<^bold>\<open>Not modelled.\<close> Rendering for the terminal, prompts, shell completions and the download of skills
  (their behaviour is I/O); sockets, process spawning and the text of files, whose decoded content is
  the state instead; clap's parsing of words, whose result is the command tree; tracing and logging;
  the texts of most messages. Handlers that only read flags, call one modelled operation and print
  its answer are listed as not modelled in the manifest.
\<close>

end
